theory Spec2Isabelle
  imports Complex_Main
begin

section \<open>Numbers\<close>

text \<open>
  JavaScript numbers are modelled as real numbers: rounding, overflow and the NaN and
  infinity values of IEEE doubles are outside the model. Operations whose JavaScript
  result may be NaN or an infinity on finite arguments (division by zero, \<open>Math.pow\<close>
  outside its real domain) return an option, \<open>None\<close> standing for "not a finite number".
\<close>

definition Math_pow :: "real \<Rightarrow> real \<Rightarrow> real option" where
  "Math_pow b e =
     (if e = 0 then Some 1
      else if 0 < b then Some (b powr e)
      else if b = 0 then (if 0 < e then Some 0 else None)
      else if e \<in> \<int> then Some (b powi \<lfloor>e\<rfloor>)
      else None)"

section \<open>Vector2D\<close>

text \<open>
  The class \<open>Vector2D\<close> has the fields \<open>x\<close> and \<open>y\<close>; they are called \<open>vx\<close> and \<open>vy\<close>
  here. Its mutating methods return \<open>this\<close>; the model returns the new value, and the
  static variants of \<open>add\<close>, \<open>subtract\<close>, \<open>multiply\<close> and \<open>dot\<close> are the same functions.
\<close>

record Vector2D =
  vx :: real
  vy :: real

definition Vector2D_add :: "Vector2D \<Rightarrow> Vector2D \<Rightarrow> Vector2D" where
  "Vector2D_add v w = \<lparr>vx = vx v + vx w, vy = vy v + vy w\<rparr>"

definition Vector2D_subtract :: "Vector2D \<Rightarrow> Vector2D \<Rightarrow> Vector2D" where
  "Vector2D_subtract v w = \<lparr>vx = vx v - vx w, vy = vy v - vy w\<rparr>"

definition Vector2D_multiply :: "Vector2D \<Rightarrow> real \<Rightarrow> Vector2D" where
  "Vector2D_multiply v scalar = \<lparr>vx = vx v * scalar, vy = vy v * scalar\<rparr>"

definition Vector2D_divide :: "Vector2D \<Rightarrow> real \<Rightarrow> Vector2D" where
  "Vector2D_divide v scalar =
     (if scalar \<noteq> 0 then \<lparr>vx = vx v / scalar, vy = vy v / scalar\<rparr> else v)"

definition magnitude :: "Vector2D \<Rightarrow> real" where
  "magnitude v = sqrt (vx v * vx v + vy v * vy v)"

definition magnitudeSquared :: "Vector2D \<Rightarrow> real" where
  "magnitudeSquared v = vx v * vx v + vy v * vy v"

definition Vector2D_normalize :: "Vector2D \<Rightarrow> Vector2D" where
  "Vector2D_normalize v = (let mag = magnitude v in if mag > 0 then Vector2D_divide v mag else v)"

definition Vector2D_limit :: "Vector2D \<Rightarrow> real \<Rightarrow> Vector2D" where
  "Vector2D_limit v mx =
     (let magSq = magnitudeSquared v
      in if magSq > mx * mx then Vector2D_multiply (Vector2D_normalize v) mx else v)"

definition dot :: "Vector2D \<Rightarrow> Vector2D \<Rightarrow> real" where
  "dot v w = vx v * vx w + vy v * vy w"

definition fromAngle :: "real \<Rightarrow> real \<Rightarrow> Vector2D" where
  "fromAngle angle mag = \<lparr>vx = cos angle * mag, vy = sin angle * mag\<rparr>"

section \<open>Plain objects of the engine\<close>

text \<open>
  The object literals the engine builds: an entry of the weapon table, the upgrade
  counters and an environmental hazard. A hazard of the space-sim mode has no
  \<open>velocity\<close> (\<open>None\<close>) and no \<open>telegraph\<close> (false, as undefined is falsy); \<open>spawnTimer\<close> and
  \<open>spawnRate\<close> are read for a meteor shower only.
\<close>

datatype WeaponType = Default | Laser | Missile | Shotgun

record weapon =
  damage :: real
  fireRate :: real
  projectileSpeed :: real
  color :: string
  homing :: bool
  spread :: nat
  duration :: real

record upgrades =
  damage :: int
  fireRate :: int
  health :: int
  speed :: int
  shield :: int

datatype HazardType = Blackhole | Nebula | Meteor_shower

record hazard =
  type :: HazardType
  position :: Vector2D
  velocity :: "Vector2D option"
  radius :: real
  strength :: real
  duration :: real
  timer :: real
  active :: bool
  telegraph :: bool
  telegraphTimer :: real
  spawnTimer :: real
  spawnRate :: real

section \<open>PhysicsBody\<close>

record PhysicsBody =
  position :: Vector2D
  velocity :: Vector2D
  acceleration :: Vector2D
  force :: Vector2D
  mass :: real
  inverseMass :: real
  angle :: real
  angularVelocity :: real
  angularAcceleration :: real
  torque :: real
  linearDamping :: real
  angularDamping :: real
  restitution :: real
  friction :: real
  isStatic :: bool
  affectedByGravity :: bool

text \<open>The constructor \<open>new PhysicsBody(x, y, mass)\<close>.\<close>

definition new_PhysicsBody :: "real \<Rightarrow> real \<Rightarrow> real \<Rightarrow> PhysicsBody" where
  "new_PhysicsBody x y m =
     \<lparr>position = \<lparr>vx = x, vy = y\<rparr>,
      velocity = \<lparr>vx = 0, vy = 0\<rparr>,
      acceleration = \<lparr>vx = 0, vy = 0\<rparr>,
      force = \<lparr>vx = 0, vy = 0\<rparr>,
      mass = m,
      inverseMass = (if m > 0 then 1 / m else 0),
      angle = 0,
      angularVelocity = 0,
      angularAcceleration = 0,
      torque = 0,
      linearDamping = 0.999,
      angularDamping = 0.995,
      restitution = 0.8,
      friction = 0.3,
      isStatic = False,
      affectedByGravity = True\<rparr>"

text \<open>
  \<open>PhysicsBody.update(deltaTime)\<close>. The two damping factors come from \<open>Math.pow\<close>; when one
  of them is not a finite number the result is \<open>None\<close>.
\<close>

definition PhysicsBody_update ::
  "'a PhysicsBody_scheme \<Rightarrow> real \<Rightarrow> 'a PhysicsBody_scheme option" where
  "PhysicsBody_update b deltaTime =
     (if isStatic b then Some b
      else
        case Math_pow (linearDamping b) (deltaTime * 60) of
          None \<Rightarrow> None
        | Some linearFactor \<Rightarrow>
        (case Math_pow (angularDamping b) (deltaTime * 60) of
          None \<Rightarrow> None
        | Some angularFactor \<Rightarrow>
          let acceleration' = Vector2D_multiply (force b) (inverseMass b);
              deltaV = Vector2D_multiply acceleration' deltaTime;
              velocity' = Vector2D_multiply (Vector2D_add (velocity b) deltaV) linearFactor;
              deltaP = Vector2D_multiply velocity' deltaTime;
              position' = Vector2D_add (position b) deltaP;
              angularAcceleration' = torque b * inverseMass b;
              angularVelocity' =
                (angularVelocity b + angularAcceleration' * deltaTime) * angularFactor;
              angle' = angle b + angularVelocity' * deltaTime
          in Some (b\<lparr>acceleration := acceleration',
                     velocity := velocity',
                     position := position',
                     angularAcceleration := angularAcceleration',
                     angularVelocity := angularVelocity',
                     angle := angle',
                     force := \<lparr>vx = 0, vy = 0\<rparr>,
                     torque := 0\<rparr>)))"

text \<open>\<open>getMomentum()\<close> and \<open>limitVelocity(maxSpeed)\<close>.\<close>

definition getMomentum :: "'a PhysicsBody_scheme \<Rightarrow> Vector2D" where
  "getMomentum b = Vector2D_multiply (velocity b) (mass b)"

definition limitVelocity :: "'a PhysicsBody_scheme \<Rightarrow> real \<Rightarrow> 'a PhysicsBody_scheme" where
  "limitVelocity b maxSpeed' = b\<lparr>velocity := Vector2D_limit (velocity b) maxSpeed'\<rparr>"

section \<open>Spaceship\<close>

record shield =
  active :: bool
  strength :: real
  maxStrength :: real
  regenRate :: real
  depletionRate :: real
  powerUpActive :: bool
  powerUpTimer :: real

record weapons =
  cooldown :: real
  fireRate :: real
  projectileSpeed :: real

record trailPoint =
  trail_position :: Vector2D
  alpha :: real
  trail_size :: real

text \<open>
  The ship's fields, in the order of the constructor. The \<open>sprite\<close> image object and the
  unused \<open>thrustParticles\<close> array belong to rendering and are left out.
\<close>

record Spaceship = PhysicsBody +
  width :: real
  height :: real
  color :: string
  thrustPower :: real
  lateralThrustPower :: real
  rotationSpeed :: real
  maxSpeed :: real
  brakePower :: real
  isThrusting :: bool
  isBraking :: bool
  strafingDirection :: real
  rotationDirection :: real
  shield :: shield
  weapons :: weapons
  health :: real
  maxHealth :: real
  invulnerable :: bool
  invulnerabilityTimer :: real
  animationFrame :: real
  animationTimer :: real
  trail :: "trailPoint list"
  maxTrailLength :: nat
  trailTimer :: real

definition activateShield :: "Spaceship \<Rightarrow> Spaceship" where
  "activateShield s =
     (if strength (shield s) > 0 then s\<lparr>shield := (shield s)\<lparr>active := True\<rparr>\<rparr> else s)"

definition deactivateShield :: "Spaceship \<Rightarrow> Spaceship" where
  "deactivateShield s = s\<lparr>shield := (shield s)\<lparr>active := False\<rparr>\<rparr>"

text \<open>\<open>Spaceship.takeDamage(amount)\<close>: the ship afterwards, and the returned flag.\<close>

definition Spaceship_takeDamage :: "Spaceship \<Rightarrow> real \<Rightarrow> Spaceship \<times> bool" where
  "Spaceship_takeDamage s amount =
     (if invulnerable s then (s, False)
      else if active (shield s) \<and> strength (shield s) > 0 then
        (let strength' = max 0 (strength (shield s) - amount);
             sh = (shield s)\<lparr>strength := strength'\<rparr>;
             sh' = (if strength' = 0 then sh\<lparr>active := False\<rparr> else sh)
         in (s\<lparr>shield := sh'\<rparr>, False))
      else
        (let health' = max 0 (health s - amount)
         in (s\<lparr>health := health', invulnerable := True, invulnerabilityTimer := 1.0\<rparr>,
             health' \<le> 0)))"

text \<open>
  \<open>Spaceship.update(deltaTime)\<close>, block by block: the shield, the weapon cooldown, the
  invulnerability timer and the trail, after the physics step and the speed limit.
\<close>

definition updateShield :: "Spaceship \<Rightarrow> real \<Rightarrow> Spaceship" where
  "updateShield s deltaTime =
     (let s1 =
            (if powerUpActive (shield s) then
               (let t = powerUpTimer (shield s) - deltaTime;
                    s' = s\<lparr>shield := (shield s)\<lparr>powerUpTimer := t\<rparr>\<rparr>
                in if t \<le> 0
                   then deactivateShield (s'\<lparr>shield := (shield s')\<lparr>powerUpActive := False\<rparr>\<rparr>)
                   else s')
             else s);
          sh = shield s1
      in if active sh then
           (let strength' = max 0 (strength sh - depletionRate sh * deltaTime);
                sh' = sh\<lparr>strength := strength'\<rparr>
            in s1\<lparr>shield := (if strength' = 0 then sh'\<lparr>active := False\<rparr> else sh')\<rparr>)
         else if strength sh < maxStrength sh then
           s1\<lparr>shield := sh\<lparr>strength :=
                 min (maxStrength sh) (strength sh + regenRate sh * deltaTime)\<rparr>\<rparr>
         else s1)"

definition updateCooldown :: "Spaceship \<Rightarrow> real \<Rightarrow> Spaceship" where
  "updateCooldown s deltaTime =
     (if cooldown (weapons s) > 0
      then s\<lparr>weapons := (weapons s)\<lparr>cooldown := max 0 (cooldown (weapons s) - deltaTime)\<rparr>\<rparr>
      else s)"

definition updateInvulnerability :: "Spaceship \<Rightarrow> real \<Rightarrow> Spaceship" where
  "updateInvulnerability s deltaTime =
     (if invulnerable s then
        (let t = max 0 (invulnerabilityTimer s - deltaTime);
             s' = s\<lparr>invulnerabilityTimer := t\<rparr>
         in if t = 0 then s'\<lparr>invulnerable := False\<rparr> else s')
      else s)"

definition updateTrail :: "Spaceship \<Rightarrow> real \<Rightarrow> Spaceship" where
  "updateTrail s deltaTime =
     (let s1 = s\<lparr>trailTimer := trailTimer s + deltaTime\<rparr>;
          s2 =
            (if trailTimer s1 > 0.02 \<and> magnitude (velocity s1) > 10 then
               (let pushed = trail s1 @
                      [\<lparr>trail_position = position s1, alpha = 1.0, trail_size = width s1 * 0.5\<rparr>];
                    shifted = (if length pushed > maxTrailLength s1 then tl pushed else pushed)
                in s1\<lparr>trail := shifted, trailTimer := 0\<rparr>)
             else s1);
          faded = map (\<lambda>t. t\<lparr>alpha := alpha t * 0.95\<rparr>) (trail s2)
      in s2\<lparr>trail := filter (\<lambda>t. alpha t > 0.05) faded\<rparr>)"

definition Spaceship_update :: "Spaceship \<Rightarrow> real \<Rightarrow> Spaceship option" where
  "Spaceship_update s deltaTime =
     (case PhysicsBody_update s deltaTime of
        None \<Rightarrow> None
      | Some s1 \<Rightarrow>
          let s2 = limitVelocity s1 (maxSpeed s1);
              s3 = updateShield s2 deltaTime;
              s4 = updateCooldown s3 deltaTime;
              s5 = updateInvulnerability s4 deltaTime;
              s6 = updateTrail s5 deltaTime
          in Some (s6\<lparr>isThrusting := False, isBraking := False,
                      strafingDirection := 0, rotationDirection := 0\<rparr>))"

text \<open>
  The ship built by \<open>GameEngine.setupPlayer\<close> on a playfield of the given size:
  \<open>new Spaceship(width / 2, height - 100, {width: 40, height: 50, mass: 1.5, thrustPower: 800,
  lateralThrustPower: 600, maxSpeed: 500, health: 100, color: '#00f0ff'})\<close>.
\<close>

definition setupPlayer_ship :: "real \<Rightarrow> real \<Rightarrow> Spaceship" where
  "setupPlayer_ship w h =
     PhysicsBody.extend (new_PhysicsBody (w / 2) (h - 100) 1.5)
       (Spaceship.fields 40 50 ''#00f0ff'' 800 600 5 500 0.95 False False 0 0
          \<lparr>active = False, strength = 100, maxStrength = 100, regenRate = 10,
           depletionRate = 30, powerUpActive = False, powerUpTimer = 0\<rparr>
          \<lparr>cooldown = 0, fireRate = 0.2, projectileSpeed = 800\<rparr>
          100 100 False 0 0 0 [] 20 0)"

text \<open>
  The remaining methods of the ship and of its base class that the engine calls.
  \<open>Math.atan2\<close> is given by cases on the signs (the reals have no negative zero).
\<close>

definition Math_atan2 :: "real \<Rightarrow> real \<Rightarrow> real" where
  "Math_atan2 y x =
     (if x > 0 then arctan (y / x)
      else if x < 0 then (if y \<ge> 0 then arctan (y / x) + pi else arctan (y / x) - pi)
      else if y > 0 then pi / 2
      else if y < 0 then - pi / 2
      else 0)"

definition applyForce :: "'a PhysicsBody_scheme \<Rightarrow> Vector2D \<Rightarrow> 'a PhysicsBody_scheme" where
  "applyForce b f = (if isStatic b then b else b\<lparr>force := Vector2D_add (force b) f\<rparr>)"

definition getForwardVector :: "'a PhysicsBody_scheme \<Rightarrow> Vector2D" where
  "getForwardVector b = \<lparr>vx = cos (angle b), vy = sin (angle b)\<rparr>"

definition getRightVector :: "'a PhysicsBody_scheme \<Rightarrow> Vector2D" where
  "getRightVector b = \<lparr>vx = cos (angle b + pi / 2), vy = sin (angle b + pi / 2)\<rparr>"

definition lookAt :: "'a PhysicsBody_scheme \<Rightarrow> Vector2D \<Rightarrow> 'a PhysicsBody_scheme" where
  "lookAt b target =
     (let direction = Vector2D_subtract target (position b)
      in b\<lparr>angle := Math_atan2 (vy direction) (vx direction)\<rparr>)"

definition thrust :: "Spaceship \<Rightarrow> real \<Rightarrow> Spaceship" where
  "thrust s deltaTime =
     (let s1 = s\<lparr>isThrusting := True\<rparr>
      in applyForce s1 (Vector2D_multiply (getForwardVector s1) (thrustPower s1 * deltaTime)))"

definition brake :: "Spaceship \<Rightarrow> real \<Rightarrow> Spaceship" where
  "brake s deltaTime =
     (let s1 = s\<lparr>isBraking := True\<rparr>
      in if magnitude (velocity s1) > 0.1 then
           applyForce s1
             (Vector2D_multiply (Vector2D_normalize (velocity s1))
                (- thrustPower s1 * brakePower s1 * deltaTime))
         else s1)"

definition strafe :: "Spaceship \<Rightarrow> real \<Rightarrow> real \<Rightarrow> Spaceship" where
  "strafe s direction deltaTime =
     (let s1 = s\<lparr>strafingDirection := direction\<rparr>
      in applyForce s1
           (Vector2D_multiply (getRightVector s1) (direction * lateralThrustPower s1 * deltaTime)))"

record projectileData =
  pd_position :: Vector2D
  pd_velocity :: Vector2D
  pd_angle :: real
  pd_damage :: real

text \<open>\<open>fire()\<close>: the ship afterwards and the projectile data, \<open>None\<close> for null.\<close>

definition fire :: "Spaceship \<Rightarrow> Spaceship \<times> projectileData option" where
  "fire s =
     (if cooldown (weapons s) > 0 then (s, None)
      else
        (let s1 = s\<lparr>weapons := (weapons s)\<lparr>cooldown := fireRate (weapons s)\<rparr>\<rparr>;
             upwardDirection = \<lparr>vx = 0, vy = - 1\<rparr>;
             spawnOffset = Vector2D_multiply upwardDirection (height s1 / 2);
             spawnPos = Vector2D_add (position s1) spawnOffset;
             projectileVelocity =
               Vector2D_multiply upwardDirection (projectileSpeed (weapons s1))
         in (s1, Some \<lparr>pd_position = spawnPos, pd_velocity = projectileVelocity,
                        pd_angle = - pi / 2, pd_damage = 25\<rparr>)))"

definition heal :: "Spaceship \<Rightarrow> real \<Rightarrow> Spaceship" where
  "heal s amount = s\<lparr>health := min (maxHealth s) (health s + amount)\<rparr>"

definition isDestroyed :: "Spaceship \<Rightarrow> bool" where
  "isDestroyed s = (health s \<le> 0)"

section \<open>Randomness\<close>

text \<open>
  \<open>Math.random()\<close> is modelled by the sequence of the values it returns to the modelled
  code: a call takes the head of the sequence and leaves the rest. Each value lies in
  \<open>[0, 1)\<close>. (Calls made by the particle effects draw from the same generator; since the
  sequence is arbitrary, leaving them out loses nothing.)
\<close>

type_synonym random = "nat \<Rightarrow> real"

definition valid_random :: "random \<Rightarrow> bool" where
  "valid_random r = (\<forall>n. 0 \<le> r n \<and> r n < 1)"

definition rest :: "random \<Rightarrow> random" where
  "rest r = (\<lambda>n. r (Suc n))"

section \<open>Asteroid\<close>

text \<open>
  The size of an asteroid is one of the four names \<open>'small'\<close>, \<open>'medium'\<close>, \<open>'large'\<close> and
  \<open>'huge'\<close>: every asteroid the engine creates is given one of them.
\<close>

datatype Size = Small | Medium | Large | Huge

record crack =
  crack_angle :: real
  crack_length :: real
  crack_offset :: real

text \<open>
  The fields \<open>size\<close> and \<open>id\<close> are called \<open>size_name\<close> and \<open>ident\<close>. The id is the base-36
  text of a random number; the model keeps the number. \<open>isBoss\<close> and \<open>scoreValue\<close> are the
  properties \<open>spawnBoss\<close> adds: an asteroid without them has \<open>isBoss = False\<close> (undefined is
  falsy) and \<open>scoreValue = None\<close>.
\<close>

record Asteroid = PhysicsBody +
  size_name :: Size
  radius :: real
  health :: real
  maxHealth :: real
  color :: string
  vertices :: "Vector2D list"
  crackPattern :: "crack list"
  damage :: real
  maxDamage :: real
  ident :: real
  isBoss :: bool
  scoreValue :: "real option"

text \<open>
  The tables \<open>massMap\<close> and \<open>sizeMap\<close> of the constructor. The defaults of
  \<open>massMap[size] || 1.0\<close> and \<open>sizeMap[size] || 35\<close> never apply: every size has an entry and
  no entry is 0.
\<close>

fun massMap :: "Size \<Rightarrow> real" where
  "massMap Small = 0.5"
| "massMap Medium = 1.0"
| "massMap Large = 2.0"
| "massMap Huge = 4.0"

fun sizeMap :: "Size \<Rightarrow> real" where
  "sizeMap Small = 20"
| "sizeMap Medium = 35"
| "sizeMap Large = 50"
| "sizeMap Huge = 70"

definition colors :: "string list" where
  "colors = [''rgba(180, 150, 140, 0.9)'', ''rgba(160, 130, 120, 0.9)'',
             ''rgba(200, 170, 160, 0.9)'', ''rgba(140, 110, 100, 0.9)'',
             ''rgba(220, 190, 180, 0.9)'']"

definition getRandomColor :: "random \<Rightarrow> string \<times> random" where
  "getRandomColor r =
     (let i = \<lfloor>r 0 * real (length colors)\<rfloor>
      in (if 0 \<le> i \<and> i < int (length colors) then colors ! nat i else ''undefined'', rest r))"

text \<open>
  The loop of \<open>generateShape\<close>: \<open>n\<close> iterations are left and \<open>i\<close> is the loop counter.
\<close>

fun shapeLoop :: "real \<Rightarrow> int \<Rightarrow> nat \<Rightarrow> nat \<Rightarrow> random \<Rightarrow> Vector2D list \<times> random" where
  "shapeLoop rad segments 0 i r = ([], r)"
| "shapeLoop rad segments (Suc n) i r =
     (let angle' = (pi * 2 * real i) / real_of_int segments;
          variance = 0.7 + r 0 * 0.3;
          distance = rad * variance;
          v = \<lparr>vx = cos angle' * distance, vy = sin angle' * distance\<rparr>;
          (vs, r') = shapeLoop rad segments n (Suc i) (rest r)
      in (v # vs, r'))"

definition generateShape :: "real \<Rightarrow> random \<Rightarrow> Vector2D list \<times> random" where
  "generateShape rad r =
     (let segments = 8 + \<lfloor>r 0 * 4\<rfloor> in shapeLoop rad segments (nat segments) 0 (rest r))"

text \<open>
  The constructor \<open>new Asteroid(x, y, size, velocity)\<close>; \<open>velocity\<close> is \<open>None\<close> for null. It calls \<open>Math.random\<close> for the
  spin, the colour, the shape and the id, in this order.
\<close>

definition new_Asteroid ::
  "real \<Rightarrow> real \<Rightarrow> Size \<Rightarrow> Vector2D option \<Rightarrow> random \<Rightarrow> Asteroid \<times> random" where
  "new_Asteroid x y sz vel r =
     (let body = new_PhysicsBody x y (massMap sz);
          rad = sizeMap sz;
          body1 = (case vel of None \<Rightarrow> body | Some v \<Rightarrow> body\<lparr>velocity := v\<rparr>);
          body2 = body1\<lparr>angularVelocity := (r 0 - 0.5) * 2\<rparr>;
          (col, r2) = getRandomColor (rest r);
          (verts, r3) = generateShape rad r2
      in (PhysicsBody.extend body2
            \<lparr>size_name = sz, radius = rad, health = rad, maxHealth = rad, color = col,
             vertices = verts, crackPattern = [], damage = 0, maxDamage = 100,
             ident = r3 0, isBoss = False, scoreValue = None\<rparr>,
          rest r3))"

text \<open>\<open>Asteroid.takeDamage(amount)\<close>: the asteroid afterwards, the flag and the generator.\<close>

definition Asteroid_takeDamage :: "Asteroid \<Rightarrow> real \<Rightarrow> random \<Rightarrow> (Asteroid \<times> bool) \<times> random" where
  "Asteroid_takeDamage a amount r =
     (let a1 = a\<lparr>health := health a - amount,
                  damage := min (maxDamage a) (damage a + amount)\<rparr>
      in if r 0 < 0.5 then
           (let r1 = rest r;
                angle' = r1 0 * pi * 2;
                length' = radius a1 * (0.3 + rest r1 0 * 0.4);
                offset' = (rest (rest r1) 0 - 0.5) * radius a1 * 0.5;
                a2 = a1\<lparr>crackPattern := crackPattern a1 @
                        [\<lparr>crack_angle = angle', crack_length = length', crack_offset = offset'\<rparr>]\<rparr>
            in ((a2, health a2 \<le> 0), rest (rest (rest r1))))
         else ((a1, health a1 \<le> 0), rest r))"

text \<open>
  \<open>Array.indexOf\<close> (\<open>-1\<close> when the value is absent) and an indexed read, \<open>None\<close> for
  \<open>undefined\<close>.
\<close>

fun indexOf :: "'a list \<Rightarrow> 'a \<Rightarrow> int" where
  "indexOf [] v = -1"
| "indexOf (a # as) v = (if a = v then 0 else (let i = indexOf as v in if i < 0 then -1 else i + 1))"

definition at_index :: "'a list \<Rightarrow> int \<Rightarrow> 'a option" where
  "at_index xs i = (if 0 \<le> i \<and> i < int (length xs) then Some (xs ! nat i) else None)"

definition sizeHierarchy :: "Size list" where
  "sizeHierarchy = [Huge, Large, Medium, Small]"

text \<open>
  The loop of \<open>split\<close>: \<open>n\<close> iterations are left, \<open>i\<close> is the loop counter and \<open>count\<close> the
  number of fragments drawn.
\<close>

fun splitLoop :: "Asteroid \<Rightarrow> Size \<Rightarrow> int \<Rightarrow> nat \<Rightarrow> nat \<Rightarrow> random \<Rightarrow> Asteroid list \<times> random" where
  "splitLoop a newSize count 0 i r = ([], r)"
| "splitLoop a newSize count (Suc n) i r =
     (let angle' = (pi * 2 * real i) / real_of_int count + (r 0 - 0.5);
          speed = 50 + rest r 0 * 100;
          velocity' = Vector2D_add (fromAngle angle' speed) (velocity a);
          offset' = fromAngle angle' (radius a * 0.5);
          position' = Vector2D_add (position a) offset';
          (fragment, r1) =
             new_Asteroid (vx position') (vy position') newSize (Some velocity') (rest (rest r));
          (fragments, r2) = splitLoop a newSize count n (Suc i) r1
      in (fragment # fragments, r2))"

text \<open>\<open>Asteroid.split()\<close>: the fragments and the generator afterwards.\<close>

definition Asteroid_split :: "Asteroid \<Rightarrow> random \<Rightarrow> Asteroid list \<times> random" where
  "Asteroid_split a r =
     (let currentIndex = indexOf sizeHierarchy (size_name a)
      in if currentIndex < int (length sizeHierarchy) - 1 then
           (case at_index sizeHierarchy (currentIndex + 1) of
              None \<Rightarrow> ([], r)
            | Some newSize \<Rightarrow>
                let count = 2 + \<lfloor>r 0 * 2\<rfloor>
                in splitLoop a newSize count (nat count) 0 (rest r))
         else ([], r))"

section \<open>CollisionSystem\<close>

definition distanceSquaredTo :: "Vector2D \<Rightarrow> Vector2D \<Rightarrow> real" where
  "distanceSquaredTo v w =
     (let dx = vx v - vx w; dy = vy v - vy w in dx * dx + dy * dy)"

definition distanceTo :: "Vector2D \<Rightarrow> Vector2D \<Rightarrow> real" where
  "distanceTo v w = (let dx = vx v - vx w; dy = vy v - vy w in sqrt (dx * dx + dy * dy))"

definition checkCircleCollision ::
  "'a PhysicsBody_scheme \<Rightarrow> 'b PhysicsBody_scheme \<Rightarrow> real \<Rightarrow> real \<Rightarrow> bool" where
  "checkCircleCollision obj1 obj2 radius1 radius2 =
     (let distSquared = distanceSquaredTo (position obj1) (position obj2);
          radiusSum = radius1 + radius2
      in distSquared < radiusSum * radiusSum)"

text \<open>
  \<open>CollisionSystem.resolveCollision(obj1, obj2, restitution)\<close> on two distinct bodies.
  The impulse is divided by the sum of the inverse masses. When that sum is 0 the
  quotient is NaN or an infinity, and so is the velocity of every body that is not
  static: the result for such a body is \<open>None\<close>.
\<close>

definition resolveCollision ::
  "'a PhysicsBody_scheme \<Rightarrow> 'b PhysicsBody_scheme \<Rightarrow> real \<Rightarrow>
     'a PhysicsBody_scheme option \<times> 'b PhysicsBody_scheme option" where
  "resolveCollision obj1 obj2 restitution' =
     (let normal = Vector2D_normalize (Vector2D_subtract (position obj2) (position obj1));
          relativeVelocity = Vector2D_subtract (velocity obj2) (velocity obj1);
          velocityAlongNormal = dot relativeVelocity normal
      in if velocityAlongNormal > 0 then (Some obj1, Some obj2)
         else
           let e = min (restitution obj1) (restitution obj2) * restitution';
               inverseMassSum = inverseMass obj1 + inverseMass obj2
           in if inverseMassSum = 0 then
                (if isStatic obj1 then Some obj1 else None,
                 if isStatic obj2 then Some obj2 else None)
              else
                let j = - (1 + e) * velocityAlongNormal / inverseMassSum;
                    impulse = Vector2D_multiply normal j
                in (Some (if isStatic obj1 then obj1
                          else obj1\<lparr>velocity := Vector2D_add (velocity obj1)
                                   (Vector2D_multiply impulse (- inverseMass obj1))\<rparr>),
                    Some (if isStatic obj2 then obj2
                          else obj2\<lparr>velocity := Vector2D_add (velocity obj2)
                                   (Vector2D_multiply impulse (inverseMass obj2))\<rparr>)))"

text \<open>\<open>CollisionSystem.bounceOffBounds(body, width, height, boundsWidth, boundsHeight, restitution)\<close>.\<close>

definition bounceOffBounds ::
  "'a PhysicsBody_scheme \<Rightarrow> real \<Rightarrow> real \<Rightarrow> real \<Rightarrow> real \<Rightarrow> real \<Rightarrow> 'a PhysicsBody_scheme" where
  "bounceOffBounds body w h boundsWidth boundsHeight restitution' =
     (let halfW = w / 2;
          halfH = h / 2;
          b1 = (if vx (position body) - halfW < 0 then
                  body\<lparr>position := (position body)\<lparr>vx := halfW\<rparr>,
                       velocity := (velocity body)\<lparr>vx := \<bar>vx (velocity body)\<bar> * restitution'\<rparr>\<rparr>
                else if vx (position body) + halfW > boundsWidth then
                  body\<lparr>position := (position body)\<lparr>vx := boundsWidth - halfW\<rparr>,
                       velocity := (velocity body)\<lparr>vx := - \<bar>vx (velocity body)\<bar> * restitution'\<rparr>\<rparr>
                else body)
      in if vy (position b1) - halfH < 0 then
           b1\<lparr>position := (position b1)\<lparr>vy := halfH\<rparr>,
              velocity := (velocity b1)\<lparr>vy := \<bar>vy (velocity b1)\<bar> * restitution'\<rparr>\<rparr>
         else if vy (position b1) + halfH > boundsHeight then
           b1\<lparr>position := (position b1)\<lparr>vy := boundsHeight - halfH\<rparr>,
              velocity := (velocity b1)\<lparr>vy := - \<bar>vy (velocity b1)\<bar> * restitution'\<rparr>\<rparr>
         else b1)"

section \<open>Projectile and PowerUp\<close>

text \<open>
  \<open>length\<close> is called \<open>length_p\<close>. \<open>homing\<close>, \<open>homingStrength\<close> and \<open>height\<close> are the properties
  \<open>playerFire\<close> adds to some projectiles: without them \<open>homing\<close> is false and the other two are
  never read.
\<close>

record Projectile = PhysicsBody +
  damage :: real
  color :: string
  lifetime :: real
  age :: real
  length_p :: real
  width :: real
  ident :: real
  homing :: bool
  homingStrength :: real
  height :: "real option"

definition new_Projectile ::
  "Vector2D \<Rightarrow> Vector2D \<Rightarrow> real \<Rightarrow> real \<Rightarrow> string \<Rightarrow> random \<Rightarrow> Projectile \<times> random" where
  "new_Projectile pos vel ang dmg col r =
     (PhysicsBody.extend
        ((new_PhysicsBody (vx pos) (vy pos) 0.1)\<lparr>velocity := vel, angle := ang, isStatic := False\<rparr>)
        \<lparr>Projectile.damage = dmg, color = col, lifetime = 3.0, age = 0, length_p = 20,
         width = 3, ident = r 0, homing = False, homingStrength = 0, height = None\<rparr>,
      rest r)"

definition Projectile_update :: "Projectile \<Rightarrow> real \<Rightarrow> Projectile option" where
  "Projectile_update p deltaTime =
     (case PhysicsBody_update p deltaTime of
        None \<Rightarrow> None
      | Some p' \<Rightarrow> Some (p'\<lparr>age := age p' + deltaTime\<rparr>))"

definition Projectile_isExpired :: "Projectile \<Rightarrow> bool" where
  "Projectile_isExpired p = (age p \<ge> lifetime p)"

datatype PowerUpType = Health | Shield | Weapon | Speed

record PowerUp = PhysicsBody +
  type :: PowerUpType
  radius :: real
  age :: real
  lifetime :: real
  collected :: bool
  pulsePhase :: real
  ident :: real

definition new_PowerUp :: "real \<Rightarrow> real \<Rightarrow> PowerUpType \<Rightarrow> random \<Rightarrow> PowerUp \<times> random" where
  "new_PowerUp x y t r =
     (PhysicsBody.extend (new_PhysicsBody x y 0.5)
        \<lparr>PowerUp.type = t, radius = 15, age = 0, lifetime = 10.0, collected = False,
         pulsePhase = r 0 * pi * 2, ident = rest r 0\<rparr>,
      rest (rest r))"

definition PowerUp_update :: "PowerUp \<Rightarrow> real \<Rightarrow> PowerUp option" where
  "PowerUp_update p deltaTime =
     (case PhysicsBody_update p deltaTime of
        None \<Rightarrow> None
      | Some p' \<Rightarrow>
          Some (p'\<lparr>age := age p' + deltaTime, pulsePhase := pulsePhase p' + deltaTime * 3\<rparr>))"

definition PowerUp_isExpired :: "PowerUp \<Rightarrow> bool" where
  "PowerUp_isExpired p = (age p \<ge> lifetime p \<or> collected p)"

section \<open>GameEngine: the session state\<close>

datatype GameState = Menu | Playing | Paused | Gameover

record mouse =
  mouse_x :: real
  mouse_y :: real
  down :: bool

record config =
  mode :: string
  asteroidSpawnRate :: real
  asteroidSpawnIncrease :: real
  powerUpChance :: real
  maxAsteroids :: real
  scrollSpeed :: real
  difficultyMultiplier :: real
  bossWaveInterval :: real
  fixedPlayerY :: "real option"
  maxSpeedX :: real
  accelX :: real
  decelX :: real
  frictionX :: real
  laneCount :: real
  lanePadding :: real

record laneMovement =
  targetVelocityX :: real
  inputX :: real
  lastInputTime :: real

record comboSystem =
  count :: int
  timer :: real
  maxTime :: real
  multiplier :: real
  maxMultiplier :: real

record bossSystem =
  active :: bool
  boss :: "Asteroid option"
  phase :: int
  maxPhases :: int

record weaponSystem =
  currentWeapon :: WeaponType
  activeWeaponTimer :: real

record upgradeSystem =
  level :: int
  experience :: real
  experienceToNext :: real
  skillPoints :: int
  upgrades :: upgrades

text \<open>
  The engine. Left out are the canvas and its context, the particle system, the star
  field, the camera shake and the \<open>uiSystem\<close> (floating texts, flashes, frame counter):
  they are written by the engine and read by the renderer only. The player is never null:
  the constructor and \<open>start\<close> create it and nothing clears it. \<open>random\<close> is the future
  output of \<open>Math.random\<close>. \<open>pendingChainReactions\<close> are the calls of
  \<open>checkChainReaction(position, radius)\<close> that \<open>setTimeout\<close> has scheduled and not yet run.
  \<open>bossSystem.boss\<close> holds the boss as it was spawned; the engine never reads it.
\<close>

record GameEngine =
  width :: real
  height :: real
  state :: GameState
  score :: int
  wave :: int
  kills :: int
  time :: real
  player :: Spaceship
  asteroids :: "Asteroid list"
  projectiles :: "Projectile list"
  powerUps :: "PowerUp list"
  keys :: "string \<Rightarrow> bool"
  mouse :: mouse
  config :: config
  lanes :: "real list"
  laneMovement :: laneMovement
  asteroidSpawnTimer :: real
  waveTimer :: real
  waveInterval :: real
  comboSystem :: comboSystem
  bossSystem :: bossSystem
  weaponSystem :: weaponSystem
  upgradeSystem :: upgradeSystem
  hazards :: "hazard list"
  hazardSpawnTimer :: real
  hazardSpawnInterval :: real
  random :: random
  pendingChainReactions :: "(Vector2D \<times> real) list"

text \<open>The weapon table \<open>weaponSystem.weapons\<close>, which is never written.\<close>

fun weapons_table :: "WeaponType \<Rightarrow> weapon" where
  "weapons_table Default =
     \<lparr>weapon.damage = 10, fireRate = 0.2, projectileSpeed = 800, color = ''#00f0ff'',
      homing = False, spread = 0, duration = 0\<rparr>"
| "weapons_table Laser =
     \<lparr>weapon.damage = 5, fireRate = 0.05, projectileSpeed = 1000, color = ''#ff00ff'',
      homing = False, spread = 0, duration = 15\<rparr>"
| "weapons_table Missile =
     \<lparr>weapon.damage = 30, fireRate = 0.5, projectileSpeed = 600, color = ''#ff6600'',
      homing = True, spread = 0, duration = 20\<rparr>"
| "weapons_table Shotgun =
     \<lparr>weapon.damage = 8, fireRate = 0.4, projectileSpeed = 700, color = ''#ffff00'',
      homing = False, spread = 3, duration = 18\<rparr>"

section \<open>GameEngine: combo, state machine and spawners\<close>

definition increaseCombo :: "GameEngine \<Rightarrow> GameEngine" where
  "increaseCombo e =
     (let c = comboSystem e;
          c1 = c\<lparr>count := count c + 1, timer := 0\<rparr>
      in e\<lparr>comboSystem :=
             c1\<lparr>multiplier := min (1.0 + real_of_int (count c1) * 0.1) (maxMultiplier c1)\<rparr>\<rparr>)"

definition resetCombo :: "GameEngine \<Rightarrow> GameEngine" where
  "resetCombo e =
     (let c = comboSystem e;
          e1 = (if count c \<ge> 10 then e\<lparr>score := score e + \<lfloor>real_of_int (count c) * 50\<rfloor>\<rparr> else e)
      in e1\<lparr>comboSystem := c\<lparr>count := 0, timer := 0, multiplier := 1.0\<rparr>\<rparr>)"

definition pause :: "GameEngine \<Rightarrow> GameEngine" where
  "pause e = (if state e = Playing then e\<lparr>state := Paused\<rparr> else e)"

definition resume :: "GameEngine \<Rightarrow> GameEngine" where
  "resume e = (if state e = Paused then e\<lparr>state := Playing\<rparr> else e)"

definition gameOver :: "GameEngine \<Rightarrow> GameEngine" where
  "gameOver e = e\<lparr>state := Gameover\<rparr>"

definition start :: "GameEngine \<Rightarrow> GameEngine" where
  "start e =
     (let cfg = (config e)\<lparr>asteroidSpawnRate := 2.0, maxAsteroids := 20,
                            difficultyMultiplier := 1.0\<rparr>;
          cfg1 = (if mode cfg = ''lane-shooter''
                  then cfg\<lparr>fixedPlayerY := Some (height e - 100)\<rparr> else cfg);
          ship = setupPlayer_ship (width e) (height e);
          ship1 = (if mode cfg1 = ''lane-shooter''
                   then (case fixedPlayerY cfg1 of
                           Some fy \<Rightarrow>
                             ship\<lparr>position := (position ship)\<lparr>vy := fy\<rparr>, angle := 0,
                                  angularVelocity := 0\<rparr>
                         | None \<Rightarrow> ship)
                   else ship)
      in e\<lparr>state := Playing, score := 0, wave := 1, kills := 0, time := 0,
           asteroids := [], projectiles := [], powerUps := [], hazards := [],
           config := cfg1,
           comboSystem := \<lparr>count = 0, timer = 0, maxTime = 3.0, multiplier = 1.0,
                           maxMultiplier = 8.0\<rparr>,
           bossSystem := \<lparr>active = False, boss = None, phase = 1, maxPhases = 3\<rparr>,
           weaponSystem := \<lparr>currentWeapon = Default, activeWeaponTimer = 0\<rparr>,
           upgradeSystem := (upgradeSystem e)\<lparr>level := 1, experience := 0,
                                             experienceToNext := 100\<rparr>,
           player := ship1\<rparr>)"

text \<open>
  The constructor \<open>new GameEngine(canvas, config)\<close> for a canvas of the given size and no
  overrides in \<open>config\<close>.
\<close>

definition default_config :: config where
  "default_config =
     \<lparr>mode = ''lane-shooter'', asteroidSpawnRate = 2.0, asteroidSpawnIncrease = 0.85,
      powerUpChance = 0.15, maxAsteroids = 20, scrollSpeed = 50, difficultyMultiplier = 1.0,
      bossWaveInterval = 5, fixedPlayerY = None, maxSpeedX = 450, accelX = 2800,
      decelX = 2000, frictionX = 0.92, laneCount = 3, lanePadding = 120\<rparr>"

definition new_GameEngine :: "real \<Rightarrow> real \<Rightarrow> random \<Rightarrow> GameEngine" where
  "new_GameEngine w h r =
     (let cfg = default_config;
          laneSpacing = (w - lanePadding cfg * 2) / (laneCount cfg - 1)
      in \<lparr>width = w, height = h, state = Menu, score = 0, wave = 1, kills = 0, time = 0,
          player = setupPlayer_ship w h, asteroids = [], projectiles = [], powerUps = [],
          keys = (\<lambda>k. False), mouse = \<lparr>mouse_x = 0, mouse_y = 0, down = False\<rparr>,
          config = cfg,
          lanes = map (\<lambda>i. lanePadding cfg + laneSpacing * real i) [0..<nat \<lfloor>laneCount cfg\<rfloor>],
          laneMovement = \<lparr>targetVelocityX = 0, inputX = 0, lastInputTime = 0\<rparr>,
          asteroidSpawnTimer = 0, waveTimer = 0, waveInterval = 30,
          comboSystem = \<lparr>count = 0, timer = 0, maxTime = 3.0, multiplier = 1.0,
                          maxMultiplier = 8.0\<rparr>,
          bossSystem = \<lparr>active = False, boss = None, phase = 1, maxPhases = 3\<rparr>,
          weaponSystem = \<lparr>currentWeapon = Default, activeWeaponTimer = 0\<rparr>,
          upgradeSystem = \<lparr>level = 1, experience = 0, experienceToNext = 100, skillPoints = 0,
                            upgrades = \<lparr>upgrades.damage = 0, fireRate = 0, health = 0,
                                        speed = 0, shield = 0\<rparr>\<rparr>,
          hazards = [], hazardSpawnTimer = 0, hazardSpawnInterval = 15,
          random = r, pendingChainReactions = []\<rparr>)"

text \<open>\<open>spawnBoss()\<close>.\<close>

definition spawnBoss :: "GameEngine \<Rightarrow> GameEngine" where
  "spawnBoss e =
     (let x = width e / 2;
          y = - 100;
          (boss0, r1) = new_Asteroid x y Huge (Some \<lparr>vx = 0, vy = 50\<rparr>) (random e);
          hp = 200 + real_of_int (wave e) * 50;
          boss' = boss0\<lparr>isBoss := True, Asteroid.health := hp, maxHealth := hp,
                       Asteroid.color := ''#ff0055'', Asteroid.damage := 40,
                       scoreValue := Some 1000,
                       Asteroid.radius := Asteroid.radius boss0 * 1.5\<rparr>
      in e\<lparr>random := r1,
           bossSystem := (bossSystem e)\<lparr>boss := Some boss', active := True, phase := 1\<rparr>,
           asteroids := asteroids e @ [boss']\<rparr>)"

text \<open>
  The weighted choice of the size in \<open>spawnAsteroid\<close>: the loop over the sizes with their
  weights, \<open>cumulative\<close> so far, and the size kept when no weight is reached.
\<close>

fun pickSize :: "(Size \<times> real) list \<Rightarrow> real \<Rightarrow> real \<Rightarrow> Size \<Rightarrow> Size" where
  "pickSize [] rand cumulative sz = sz"
| "pickSize ((s, w) # rest_sizes) rand cumulative sz =
     (let cumulative' = cumulative + w
      in if rand < cumulative' then s else pickSize rest_sizes rand cumulative' sz)"

definition spawnWeights :: "int \<Rightarrow> (Size \<times> real) list" where
  "spawnWeights wv =
     (let difficultyFactor = min (real_of_int wv / 10) 1.5
      in [(Small, 0.4 * (1 - difficultyFactor * 0.2)),
          (Medium, 0.35 * (1 - difficultyFactor * 0.2)),
          (Large, 0.2 * (1 + difficultyFactor * 0.5)),
          (Huge, 0.05 * (1 + difficultyFactor * 0.5))])"

text \<open>
  \<open>spawnAsteroid()\<close>, with two of its blocks first: the spawn position \<open>x\<close> (with the
  generator afterwards) and the safety check against the player.
\<close>

definition spawnX :: "GameEngine \<Rightarrow> real \<times> random" where
  "spawnX e =
     (let margin = 100;
          r = random e;
          x0 = margin + r 0 * (width e - margin * 2);
          r1 = rest r
      in if mode (config e) = ''lane-shooter'' then
           (let laneWidth = (width e - margin * 2) / 3;
                lane1Center = margin + laneWidth * 0.5;
                lane2Center = margin + laneWidth * 1.5;
                lane3Center = margin + laneWidth * 2.5;
                rand = r1 0;
                totalWeight = 0.8 + 1.0 + 1.3;
                jitter = (rest r1 0 - 0.5) * laneWidth * 0.8;
                x1 = (if rand < 0.8 / totalWeight then lane1Center + jitter
                      else if rand < (0.8 + 1.0) / totalWeight then lane2Center + jitter
                      else lane3Center + jitter)
            in (max margin (min (width e - margin) x1), rest (rest r1)))
         else (x0, r1))"

definition safetyShift :: "GameEngine \<Rightarrow> Asteroid \<Rightarrow> Asteroid" where
  "safetyShift e a =
     (if mode (config e) = ''lane-shooter'' then
        (let safeDistance = 200;
             dx = vx (position a) - vx (position (player e));
             dy = vy (position a) - vy (position (player e))
         in if \<bar>dx\<bar> < safeDistance \<and> dy < safeDistance then
              (let x' = vx (position a) + (if dx > 0 then 1 else - 1) * (safeDistance - \<bar>dx\<bar>)
               in a\<lparr>position := (position a)\<lparr>vx := max 100 (min (width e - 100) x')\<rparr>\<rparr>)
            else a)
      else a)"

definition spawnAsteroid :: "GameEngine \<Rightarrow> GameEngine" where
  "spawnAsteroid e =
     (if real (length (asteroids e)) \<ge> maxAsteroids (config e) then e
      else if active (bossSystem e) then e
      else
        let (x, r2) = spawnX e;
            y = - 50;
            sz = pickSize (spawnWeights (wave e)) (r2 0) 0 Small;
            r3 = rest r2;
            angle' = pi / 2 + (r3 0 - 0.5) * 0.5;
            baseSpeed = 80 + rest r3 0 * 120;
            speed' = baseSpeed * (1 + difficultyMultiplier (config e) * 0.3);
            (a, r5) = new_Asteroid x y sz (Some (fromAngle angle' speed')) (rest (rest r3));
            waveFactor = 1 + (real_of_int (wave e) - 1) * 0.1;
            a1 = a\<lparr>Asteroid.health := Asteroid.health a * waveFactor,
                   maxHealth := maxHealth a * waveFactor,
                   Asteroid.damage := (sizeMap sz / 2) * waveFactor,
                   angularVelocity := (r5 0 - 0.5) * 3\<rparr>
        in e\<lparr>asteroids := asteroids e @ [safetyShift e a1], random := rest r5\<rparr>)"

section \<open>GameEngine: input\<close>

text \<open>
  The loop of the shotgun case of \<open>playerFire\<close>: \<open>n\<close> iterations are left and \<open>i\<close> is the
  loop counter.
\<close>

fun shotgunLoop ::
  "projectileData \<Rightarrow> weapon \<Rightarrow> real \<Rightarrow> nat \<Rightarrow> nat \<Rightarrow> GameEngine \<Rightarrow> GameEngine" where
  "shotgunLoop d w baseDamage 0 i e = e"
| "shotgunLoop d w baseDamage (Suc n) i e =
     (let angleOffset = (real i - real_of_int \<lfloor>real (spread w) / 2\<rfloor>) * 0.15;
          velocity' = fromAngle (pd_angle d + angleOffset) (weapon.projectileSpeed w);
          (proj, r) =
            new_Projectile (pd_position d) velocity' (pd_angle d + angleOffset) baseDamage
              ''#00f0ff'' (random e);
          proj1 = proj\<lparr>Projectile.color := weapon.color w\<rparr>
      in shotgunLoop d w baseDamage n (Suc i)
           (e\<lparr>projectiles := projectiles e @ [proj1], random := r\<rparr>))"

text \<open>\<open>playerFire()\<close>.\<close>

definition playerFire :: "GameEngine \<Rightarrow> GameEngine" where
  "playerFire e =
     (let weaponType = currentWeapon (weaponSystem e);
          w = weapons_table weaponType;
          p1 = (player e)\<lparr>weapons := (weapons (player e))\<lparr>weapons.fireRate := weapon.fireRate w\<rparr>\<rparr>;
          (p2, projectileData') = fire p1;
          e1 = e\<lparr>player := p2\<rparr>
      in case projectileData' of
           None \<Rightarrow> e1
         | Some d \<Rightarrow>
             let baseDamage =
                   weapon.damage w
                     * (1 + real_of_int (upgrades.damage (upgrades (upgradeSystem e1))) * 0.1);
                 (proj, r) =
                   new_Projectile (pd_position d) (pd_velocity d) (pd_angle d) baseDamage
                     ''#00f0ff'' (random e1);
                 proj1 = proj\<lparr>Projectile.color := weapon.color w\<rparr>
             in case weaponType of
                  Default \<Rightarrow> e1\<lparr>projectiles := projectiles e1 @ [proj1], random := r\<rparr>
                | Laser \<Rightarrow>
                    e1\<lparr>projectiles := projectiles e1
                           @ [proj1\<lparr>Projectile.width := 3, Projectile.height := Some 40\<rparr>],
                       random := r\<rparr>
                | Missile \<Rightarrow>
                    e1\<lparr>projectiles := projectiles e1
                           @ [proj1\<lparr>Projectile.homing := True, homingStrength := 2.5,
                                    Projectile.width := 8, Projectile.height := Some 16\<rparr>],
                       random := r\<rparr>
                | Shotgun \<Rightarrow> shotgunLoop d w baseDamage (spread w) 0 e1)"

text \<open>
  \<open>handleInput(deltaTime)\<close>, first the lane-shooter branch in its blocks: the horizontal
  velocity, then fire and shield, then the locks and the horizontal bounds.
\<close>

definition laneVelocity :: "GameEngine \<Rightarrow> real \<Rightarrow> GameEngine" where
  "laneVelocity e deltaTime =
     (let inputX0 = (if keys e ''a'' \<or> keys e ''arrowleft'' then - 1 else 0);
          inputX' = (if keys e ''d'' \<or> keys e ''arrowright'' then inputX0 + 1 else inputX0);
          targetVx = inputX' * maxSpeedX (config e);
          lm = (laneMovement e)\<lparr>inputX := inputX', targetVelocityX := targetVx\<rparr>;
          currentVx = vx (velocity (player e));
          velocityDiff = targetVx - currentVx;
          v1 = (if \<bar>velocityDiff\<bar> > 0.1 then
                  (let rate = (if \<bar>targetVx\<bar> > \<bar>currentVx\<bar> then accelX (config e)
                               else decelX (config e));
                       deltaV = sgn velocityDiff * rate * deltaTime
                   in if \<bar>deltaV\<bar> < \<bar>velocityDiff\<bar> then currentVx + deltaV else targetVx)
                else targetVx);
          v2 = (if inputX' = 0 \<and> \<bar>currentVx\<bar> > 1 then v1 * frictionX (config e) else v1);
          maxSpeed' = maxSpeedX (config e);
          v3 = max (- maxSpeed') (min maxSpeed' v2)
      in e\<lparr>laneMovement := lm,
           player := (player e)\<lparr>velocity := (velocity (player e))\<lparr>vx := v3\<rparr>\<rparr>\<rparr>)"

definition fireAndShield :: "GameEngine \<Rightarrow> GameEngine" where
  "fireAndShield e =
     (let e1 = (if keys e '' '' \<or> down (mouse e) then playerFire e else e)
      in if keys e1 ''shift'' \<or> keys e1 ''e''
         then e1\<lparr>player := activateShield (player e1)\<rparr>
         else e1\<lparr>player := deactivateShield (player e1)\<rparr>)"

definition laneLocks :: "GameEngine \<Rightarrow> GameEngine" where
  "laneLocks e =
     (let p = player e;
          p1 = (case fixedPlayerY (config e) of
                  Some fy \<Rightarrow> p\<lparr>position := (position p)\<lparr>vy := fy\<rparr>,
                               velocity := (velocity p)\<lparr>vy := 0\<rparr>\<rparr>
                | None \<Rightarrow> p);
          p2 = p1\<lparr>angle := 0, angularVelocity := 0\<rparr>;
          margin = 50;
          p3 = (if vx (position p2) < margin then
                  p2\<lparr>position := (position p2)\<lparr>vx := margin\<rparr>,
                     velocity := (velocity p2)\<lparr>vx := max 0 (vx (velocity p2))\<rparr>\<rparr>
                else p2);
          p4 = (if vx (position p3) > width e - margin then
                  p3\<lparr>position := (position p3)\<lparr>vx := width e - margin\<rparr>,
                     velocity := (velocity p3)\<lparr>vx := min 0 (vx (velocity p3))\<rparr>\<rparr>
                else p3)
      in e\<lparr>player := p4\<rparr>)"

definition spaceSimInput :: "GameEngine \<Rightarrow> real \<Rightarrow> GameEngine" where
  "spaceSimInput e deltaTime =
     (let p = player e;
          p1 = (if keys e ''w'' \<or> keys e ''arrowup'' then thrust p deltaTime else p);
          p2 = (if keys e ''s'' \<or> keys e ''arrowdown'' then brake p1 deltaTime else p1);
          p3 = (if keys e ''a'' \<or> keys e ''arrowleft'' then strafe p2 (- 1) deltaTime else p2);
          p4 = (if keys e ''d'' \<or> keys e ''arrowright'' then strafe p3 1 deltaTime else p3);
          p5 = (if keys e ''r''
                then lookAt p4 \<lparr>vx = mouse_x (mouse e), vy = mouse_y (mouse e)\<rparr> else p4)
      in fireAndShield (e\<lparr>player := p5\<rparr>))"

definition handleInput :: "GameEngine \<Rightarrow> real \<Rightarrow> GameEngine" where
  "handleInput e deltaTime =
     (if state e \<noteq> Playing then e
      else if mode (config e) = ''lane-shooter''
      then laneLocks (fireAndShield (laneVelocity e deltaTime))
      else spaceSimInput e deltaTime)"

section \<open>GameEngine: pickups and progression\<close>

text \<open>
  \<open>autoUpgrade()\<close>. The upgrade is \<open>upgrades[Math.floor(Math.random() * 5)]\<close>; an index
  outside the list (which no value of \<open>Math.random\<close> gives) changes nothing here.
\<close>

definition autoUpgrade :: "GameEngine \<Rightarrow> GameEngine" where
  "autoUpgrade e =
     (let i = \<lfloor>random e 0 * 5\<rfloor>;
          e1 = e\<lparr>random := rest (random e)\<rparr>;
          us = upgradeSystem e1;
          u = upgrades us;
          p = player e1
      in if i = 0 then
           e1\<lparr>upgradeSystem := us\<lparr>upgrades := u\<lparr>upgrades.damage := upgrades.damage u + 1\<rparr>\<rparr>\<rparr>
         else if i = 1 then
           e1\<lparr>upgradeSystem := us\<lparr>upgrades := u\<lparr>upgrades.fireRate := upgrades.fireRate u + 1\<rparr>\<rparr>,
              player := p\<lparr>weapons := (weapons p)
                           \<lparr>weapons.fireRate := max 0.05 (weapons.fireRate (weapons p) * 0.95)\<rparr>\<rparr>\<rparr>
         else if i = 2 then
           e1\<lparr>upgradeSystem := us\<lparr>upgrades := u\<lparr>upgrades.health := upgrades.health u + 1\<rparr>\<rparr>,
              player := heal (p\<lparr>Spaceship.maxHealth := Spaceship.maxHealth p + 10\<rparr>) 10\<rparr>
         else if i = 3 then
           e1\<lparr>upgradeSystem := us\<lparr>upgrades := u\<lparr>upgrades.speed := upgrades.speed u + 1\<rparr>\<rparr>,
              player := p\<lparr>maxSpeed := maxSpeed p + 20\<rparr>\<rparr>
         else if i = 4 then
           e1\<lparr>upgradeSystem := us\<lparr>upgrades := u\<lparr>upgrades.shield := upgrades.shield u + 1\<rparr>\<rparr>,
              player := p\<lparr>Spaceship.shield := (Spaceship.shield p)
                           \<lparr>maxStrength := maxStrength (Spaceship.shield p) + 20\<rparr>\<rparr>\<rparr>
         else e1)"

text \<open>
  The while loop of \<open>addExperience\<close>; it need not end (when \<open>experienceToNext\<close> is not
  positive), and \<open>None\<close> is the loop that runs forever.
\<close>

partial_function (option) levelUpLoop :: "GameEngine \<Rightarrow> GameEngine option" where
  "levelUpLoop e =
     (if experience (upgradeSystem e) \<ge> experienceToNext (upgradeSystem e) then
        levelUpLoop
          (autoUpgrade
             (e\<lparr>upgradeSystem := (upgradeSystem e)
                   \<lparr>experience := experience (upgradeSystem e) - experienceToNext (upgradeSystem e),
                    level := level (upgradeSystem e) + 1,
                    skillPoints := skillPoints (upgradeSystem e) + 1,
                    experienceToNext :=
                      real_of_int \<lfloor>experienceToNext (upgradeSystem e) * 1.5\<rfloor>\<rparr>\<rparr>))
      else Some e)"

definition addExperience :: "GameEngine \<Rightarrow> real \<Rightarrow> GameEngine option" where
  "addExperience e amount =
     levelUpLoop
       (e\<lparr>upgradeSystem := (upgradeSystem e)
             \<lparr>experience := experience (upgradeSystem e) + amount\<rparr>\<rparr>)"

text \<open>
  \<open>spawnPowerUp(x, y)\<close>. The type is \<open>types[Math.floor(Math.random() * 4)]\<close>; for an index
  outside the list the constructor's default \<open>'health'\<close> applies.
\<close>

definition powerUpTypes :: "PowerUpType list" where
  "powerUpTypes = [Health, Shield, Weapon, Speed]"

definition spawnPowerUp :: "GameEngine \<Rightarrow> real \<Rightarrow> real \<Rightarrow> GameEngine" where
  "spawnPowerUp e x y =
     (let r = random e;
          t = (case at_index powerUpTypes \<lfloor>r 0 * real (length powerUpTypes)\<rfloor> of
                 Some t' \<Rightarrow> t' | None \<Rightarrow> Health);
          (pu, r1) = new_PowerUp x y t (rest r)
      in if mode (config e) = ''lane-shooter'' then
           (let pu1 = (if y > 0 \<and> y < height e
                       then pu\<lparr>position := \<lparr>vx = x, vy = - 30\<rparr>\<rparr> else pu);
                fallSpeed = scrollSpeed (config e) * 1.8;
                drift = (r1 0 - 0.5) * 30;
                pu2 = pu1\<lparr>velocity := \<lparr>vx = drift, vy = fallSpeed\<rparr>\<rparr>
            in e\<lparr>powerUps := powerUps e @ [pu2], random := rest r1\<rparr>)
         else
           (let angle' = r1 0 * pi * 2;
                speed' = 30 + rest r1 0 * 50;
                pu1 = pu\<lparr>velocity := \<lparr>vx = cos angle' * speed', vy = sin angle' * speed'\<rparr>\<rparr>
            in e\<lparr>powerUps := powerUps e @ [pu1], random := rest (rest r1)\<rparr>))"

text \<open>
  \<open>collectPowerUp(powerUp)\<close>, with its switch as \<open>applyPowerUp\<close>. The weapon is \<open>weapons[Math.floor(Math.random() * 3)]\<close>; for an
  index outside the list the read of its duration throws, which is \<open>None\<close>.
\<close>

definition specialWeapons :: "WeaponType list" where
  "specialWeapons = [Laser, Missile, Shotgun]"

definition applyPowerUp :: "GameEngine \<Rightarrow> PowerUp \<Rightarrow> GameEngine option" where
  "applyPowerUp e powerUp =
     (case PowerUp.type powerUp of
        Health \<Rightarrow> Some (e\<lparr>player := heal (player e) 30\<rparr>)
      | Shield \<Rightarrow>
          (let p = player e;
               p1 = p\<lparr>Spaceship.shield := (Spaceship.shield p)
                       \<lparr>powerUpActive := True, powerUpTimer := 10\<rparr>\<rparr>;
               p2 = activateShield p1;
               p3 = p2\<lparr>Spaceship.shield := (Spaceship.shield p2)
                       \<lparr>shield.strength := maxStrength (Spaceship.shield p2)\<rparr>\<rparr>
           in Some (e\<lparr>player := p3\<rparr>))
      | Weapon \<Rightarrow>
          (case at_index specialWeapons \<lfloor>random e 0 * real (length specialWeapons)\<rfloor> of
             None \<Rightarrow> None
           | Some randomWeapon \<Rightarrow>
               Some (e\<lparr>random := rest (random e),
                       weaponSystem := (weaponSystem e)
                         \<lparr>currentWeapon := randomWeapon,
                          activeWeaponTimer := weapon.duration (weapons_table randomWeapon)\<rparr>\<rparr>))
      | Speed \<Rightarrow>
          Some (e\<lparr>config := (config e)\<lparr>maxSpeedX := maxSpeedX (config e) * 1.2\<rparr>\<rparr>))"

definition collectPowerUp :: "GameEngine \<Rightarrow> PowerUp \<Rightarrow> GameEngine option" where
  "collectPowerUp e powerUp =
     (case applyPowerUp e powerUp of
        None \<Rightarrow> None
      | Some e1 \<Rightarrow>
          addExperience
            (e1\<lparr>score := score e1 + \<lfloor>50 * multiplier (comboSystem e1)\<rfloor>\<rparr>) 5)"

section \<open>GameEngine: the update step\<close>

text \<open>
  The loops of \<open>update\<close> run over an array by a falling index while the body removes the
  current element and appends new ones. \<open>removeAt i xs\<close> is \<open>xs.splice(i, 1)\<close>. A loop
  function with the argument \<open>Suc i\<close> runs the iteration for the index \<open>i\<close> and goes on
  below it. An option result is \<open>None\<close> when the call does not return a state: a number has
  stopped being finite, a read of \<open>undefined\<close> throws, or a loop does not end.
\<close>

definition removeAt :: "nat \<Rightarrow> 'a list \<Rightarrow> 'a list" where
  "removeAt i xs = take i xs @ drop (Suc i) xs"

definition isOnScreen :: "GameEngine \<Rightarrow> Vector2D \<Rightarrow> real \<Rightarrow> bool" where
  "isOnScreen e pos margin =
     (vx pos \<ge> - margin \<and> vx pos \<le> width e + margin \<and>
      vy pos \<ge> - margin \<and> vy pos \<le> height e + margin)"

text \<open>\<open>findNearestAsteroid(position)\<close>; the minimum so far is \<open>None\<close> for \<open>Infinity\<close>.\<close>

fun nearestLoop :: "Asteroid list \<Rightarrow> Vector2D \<Rightarrow> Asteroid option \<Rightarrow> real option \<Rightarrow> Asteroid option" where
  "nearestLoop [] pos nearest minDist = nearest"
| "nearestLoop (a # as) pos nearest minDist =
     (let dist = distanceTo pos (position a)
      in if (case minDist of None \<Rightarrow> True | Some m \<Rightarrow> dist < m)
         then nearestLoop as pos (Some a) (Some dist)
         else nearestLoop as pos nearest minDist)"

definition findNearestAsteroid :: "GameEngine \<Rightarrow> Vector2D \<Rightarrow> Asteroid option" where
  "findNearestAsteroid e pos = nearestLoop (asteroids e) pos None None"

text \<open>
  The two score tables: of a projectile kill (the default of \<open>scoreMap[size] || 10\<close> never
  applies) and of a chain kill.
\<close>

fun scoreMap :: "Size \<Rightarrow> real" where
  "scoreMap Small = 100"
| "scoreMap Medium = 50"
| "scoreMap Large = 25"
| "scoreMap Huge = 10"

fun chainScoreMap :: "Size \<Rightarrow> real" where
  "chainScoreMap Small = 50"
| "chainScoreMap Medium = 25"
| "chainScoreMap Large = 15"
| "chainScoreMap Huge = 5"

text \<open>
  \<open>checkChainReaction(position, radius)\<close>: one iteration, the loop, and the call. The
  recursive call is left to \<open>setTimeout\<close>: it is queued.
\<close>

definition chainStep :: "nat \<Rightarrow> Vector2D \<Rightarrow> real \<Rightarrow> GameEngine \<Rightarrow> GameEngine option" where
  "chainStep i pos rad e =
     (if i \<ge> length (asteroids e) then None
      else
        let a = asteroids e ! i;
            dist = distanceTo pos (position a)
        in if dist < rad then
             (let ((a1, damaged), r) = Asteroid_takeDamage a 20 (random e);
                  e1 = e\<lparr>asteroids := (asteroids e)[i := a1], random := r\<rparr>
              in if damaged then
                   (let e2 = e1\<lparr>score := score e1
                                  + \<lfloor>chainScoreMap (size_name a1) * multiplier (comboSystem e1)\<rfloor>,
                                kills := kills e1 + 1\<rparr>;
                        (fragments, r') = Asteroid_split a1 (random e2)
                    in Some (e2\<lparr>asteroids := removeAt i (asteroids e2) @ fragments,
                                random := r',
                                pendingChainReactions :=
                                  pendingChainReactions e2 @ [(position a1, rad * 0.7)]\<rparr>))
                 else Some e1)
           else Some e)"

fun chainLoop :: "nat \<Rightarrow> Vector2D \<Rightarrow> real \<Rightarrow> GameEngine \<Rightarrow> GameEngine option" where
  "chainLoop 0 pos rad e = Some e"
| "chainLoop (Suc i) pos rad e =
     (case chainStep i pos rad e of None \<Rightarrow> None | Some e' \<Rightarrow> chainLoop i pos rad e')"

definition checkChainReaction :: "GameEngine \<Rightarrow> Vector2D \<Rightarrow> real \<Rightarrow> GameEngine option" where
  "checkChainReaction e pos rad = chainLoop (length (asteroids e)) pos rad e"

text \<open>
  The asteroid loop of \<open>update\<close>. The flag of the result says that \<open>update\<close> has returned
  (the player was destroyed).
\<close>

definition asteroidStep :: "nat \<Rightarrow> real \<Rightarrow> GameEngine \<Rightarrow> (GameEngine \<times> bool) option" where
  "asteroidStep i deltaTime e =
     (if i \<ge> length (asteroids e) then None
      else
        case PhysicsBody_update (asteroids e ! i) deltaTime of
          None \<Rightarrow> None
        | Some a \<Rightarrow>
            let e1 = e\<lparr>asteroids := (asteroids e)[i := a]\<rparr>
            in if vy (position a) > height e1 + 100 then
                 (let e2 = (if isBoss a
                            then e1\<lparr>bossSystem := (bossSystem e1)\<lparr>active := False, boss := None\<rparr>\<rparr>
                            else e1)
                  in Some (e2\<lparr>asteroids := removeAt i (asteroids e2)\<rparr>, False))
               else if checkCircleCollision (player e1) a
                         (max (Spaceship.width (player e1)) (Spaceship.height (player e1)) / 2)
                         (Asteroid.radius a) then
                 (let (p, destroyed) =
                        Spaceship_takeDamage (player e1)
                          (if Asteroid.damage a = 0 then 20 else Asteroid.damage a);
                      (fragments, r) = Asteroid_split a (random e1);
                      e2 = e1\<lparr>player := p, random := r,
                              asteroids := removeAt i (asteroids e1) @ fragments\<rparr>
                  in if destroyed then Some (gameOver e2, True) else Some (e2, False))
               else Some (e1, False))"

fun asteroidLoop :: "nat \<Rightarrow> real \<Rightarrow> GameEngine \<Rightarrow> (GameEngine \<times> bool) option" where
  "asteroidLoop 0 deltaTime e = Some (e, False)"
| "asteroidLoop (Suc i) deltaTime e =
     (case asteroidStep i deltaTime e of
        None \<Rightarrow> None
      | Some (e', returned) \<Rightarrow> if returned then Some (e', True) else asteroidLoop i deltaTime e')"

text \<open>
  The projectile loop. \<open>killed\<close> is the block for a destroyed asteroid and \<open>scoreKill\<close> its
  first part, the combo and the score (it also gives the base score, which the experience
  uses; a boss without \<open>scoreValue\<close> has the base score undefined, which is \<open>None\<close>).
  \<open>hitLoop\<close> is the inner loop over the asteroids, which stops at the first hit.
\<close>

fun bossPowerUps :: "nat \<Rightarrow> Asteroid \<Rightarrow> GameEngine \<Rightarrow> GameEngine" where
  "bossPowerUps 0 a e = e"
| "bossPowerUps (Suc n) a e =
     (let r = random e;
          x = vx (position a) + (r 0 - 0.5) * 100;
          y = vy (position a) + (rest r 0 - 0.5) * 100
      in bossPowerUps n a (spawnPowerUp (e\<lparr>random := rest (rest r)\<rparr>) x y))"

definition scoreKill :: "Asteroid \<Rightarrow> GameEngine \<Rightarrow> (GameEngine \<times> real) option" where
  "scoreKill a e =
     (let e1 = increaseCombo e
      in case (if isBoss a then scoreValue a else Some (scoreMap (size_name a))) of
           None \<Rightarrow> None
         | Some baseScore \<Rightarrow>
             let finalScore = \<lfloor>baseScore * multiplier (comboSystem e1)\<rfloor>
             in Some (e1\<lparr>score := score e1 + finalScore, kills := kills e1 + 1\<rparr>, baseScore))"

definition killed :: "nat \<Rightarrow> Asteroid \<Rightarrow> GameEngine \<Rightarrow> GameEngine option" where
  "killed j a e =
     (case scoreKill a e of
        None \<Rightarrow> None
      | Some (e2, baseScore) \<Rightarrow>
          (case addExperience e2 (baseScore / 10) of
             None \<Rightarrow> None
           | Some e3 \<Rightarrow>
               let e4 = (if isBoss a
                         then bossPowerUps 3 a
                                (e3\<lparr>bossSystem := (bossSystem e3)
                                       \<lparr>active := False, boss := None\<rparr>\<rparr>)
                         else e3);
                   e5 = (if \<not> isBoss a then
                           (let (fragments, r) = Asteroid_split a (random e4);
                                e' = e4\<lparr>asteroids := removeAt j (asteroids e4) @ fragments,
                                        random := rest r\<rparr>
                            in if r 0 < powerUpChance (config e') * multiplier (comboSystem e')
                               then spawnPowerUp e' (vx (position a)) (vy (position a))
                               else e')
                         else e4\<lparr>asteroids := removeAt j (asteroids e4)\<rparr>)
               in checkChainReaction e5 (position a) (Asteroid.radius a * 2)))"

definition hit :: "nat \<Rightarrow> nat \<Rightarrow> GameEngine \<Rightarrow> GameEngine option" where
  "hit i j e =
     (let ((a, destroyed), r) =
            Asteroid_takeDamage (asteroids e ! j) (Projectile.damage (projectiles e ! i)) (random e);
          e1 = e\<lparr>asteroids := (asteroids e)[j := a], random := r,
                  projectiles := removeAt i (projectiles e)\<rparr>
      in if destroyed then killed j a e1 else Some e1)"

fun hitLoop :: "nat \<Rightarrow> nat \<Rightarrow> GameEngine \<Rightarrow> GameEngine option" where
  "hitLoop 0 i e = Some e"
| "hitLoop (Suc j) i e =
     (if j \<ge> length (asteroids e) \<or> i \<ge> length (projectiles e) then None
      else if checkCircleCollision (projectiles e ! i) (asteroids e ! j)
                (Projectile.width (projectiles e ! i) / 2) (Asteroid.radius (asteroids e ! j))
      then hit i j e
      else hitLoop j i e)"

definition steer :: "GameEngine \<Rightarrow> Projectile \<Rightarrow> real \<Rightarrow> Projectile" where
  "steer e proj deltaTime =
     (if Projectile.homing proj \<and> length (asteroids e) > 0 then
        (case findNearestAsteroid e (position proj) of
           None \<Rightarrow> proj
         | Some target \<Rightarrow>
             let toTarget = Vector2D_subtract (position target) (position proj);
                 desiredVelocity =
                   Vector2D_multiply (Vector2D_normalize toTarget) (magnitude (velocity proj));
                 steering =
                   Vector2D_multiply (Vector2D_subtract desiredVelocity (velocity proj))
                     (homingStrength proj * deltaTime);
                 v = Vector2D_add (velocity proj) steering
             in proj\<lparr>velocity := v, angle := Math_atan2 (vy v) (vx v)\<rparr>)
      else proj)"

definition projectileStep :: "nat \<Rightarrow> real \<Rightarrow> GameEngine \<Rightarrow> GameEngine option" where
  "projectileStep i deltaTime e =
     (if i \<ge> length (projectiles e) then None
      else
        case Projectile_update (projectiles e ! i) deltaTime of
          None \<Rightarrow> None
        | Some proj0 \<Rightarrow>
            let proj = steer e proj0 deltaTime;
                e1 = e\<lparr>projectiles := (projectiles e)[i := proj]\<rparr>
            in if Projectile_isExpired proj \<or> \<not> isOnScreen e1 (position proj) 50
               then Some (e1\<lparr>projectiles := removeAt i (projectiles e1)\<rparr>)
               else hitLoop (length (asteroids e1)) i e1)"

fun projectileLoop :: "nat \<Rightarrow> real \<Rightarrow> GameEngine \<Rightarrow> GameEngine option" where
  "projectileLoop 0 deltaTime e = Some e"
| "projectileLoop (Suc i) deltaTime e =
     (case projectileStep i deltaTime e of
        None \<Rightarrow> None
      | Some e' \<Rightarrow> projectileLoop i deltaTime e')"

text \<open>The power-up loop.\<close>

definition magnet :: "GameEngine \<Rightarrow> PowerUp \<Rightarrow> real \<Rightarrow> PowerUp" where
  "magnet e powerUp deltaTime =
     (let dx = vx (position (player e)) - vx (position powerUp);
          dy = vy (position (player e)) - vy (position powerUp);
          distSq = dx * dx + dy * dy;
          magnetRange = 120;
          magnetRangeSq = magnetRange * magnetRange
      in if distSq < magnetRangeSq \<and> distSq > 1 then
           (let dist = sqrt distSq;
                magnetStrength = 200 * (1 - dist / magnetRange);
                pullX = (dx / dist) * magnetStrength * deltaTime;
                pullY = (dy / dist) * magnetStrength * deltaTime
            in powerUp\<lparr>velocity := \<lparr>vx = vx (velocity powerUp) + pullX,
                                      vy = vy (velocity powerUp) + pullY\<rparr>\<rparr>)
         else powerUp)"

definition powerUpStep :: "nat \<Rightarrow> real \<Rightarrow> GameEngine \<Rightarrow> GameEngine option" where
  "powerUpStep i deltaTime e =
     (if i \<ge> length (powerUps e) then None
      else
        case PowerUp_update (powerUps e ! i) deltaTime of
          None \<Rightarrow> None
        | Some pu0 \<Rightarrow>
            let e1 = e\<lparr>powerUps := (powerUps e)[i := pu0]\<rparr>
            in if PowerUp_isExpired pu0 then Some (e1\<lparr>powerUps := removeAt i (powerUps e1)\<rparr>)
               else if mode (config e1) = ''lane-shooter'' \<and>
                       (vy (position pu0) > height e1 + 50 \<or> vx (position pu0) < - 50 \<or>
                        vx (position pu0) > width e1 + 50)
               then Some (e1\<lparr>powerUps := removeAt i (powerUps e1)\<rparr>)
               else
                 let pu = magnet e1 pu0 deltaTime;
                     e2 = e1\<lparr>powerUps := (powerUps e1)[i := pu]\<rparr>;
                     playerRadius =
                       max (Spaceship.width (player e2)) (Spaceship.height (player e2)) / 2
                 in if checkCircleCollision (player e2) pu playerRadius (PowerUp.radius pu) then
                      (case (if \<not> collected pu then collectPowerUp e2 pu else Some e2) of
                         None \<Rightarrow> None
                       | Some e3 \<Rightarrow> Some (e3\<lparr>powerUps := removeAt i (powerUps e3)\<rparr>))
                    else Some e2)"

fun powerUpLoop :: "nat \<Rightarrow> real \<Rightarrow> GameEngine \<Rightarrow> GameEngine option" where
  "powerUpLoop 0 deltaTime e = Some e"
| "powerUpLoop (Suc i) deltaTime e =
     (case powerUpStep i deltaTime e of
        None \<Rightarrow> None
      | Some e' \<Rightarrow> powerUpLoop i deltaTime e')"

text \<open>The combo timer and the weapon timer.\<close>

definition updateComboTimer :: "GameEngine \<Rightarrow> real \<Rightarrow> GameEngine" where
  "updateComboTimer e deltaTime =
     (if count (comboSystem e) > 0 then
        (let e1 = e\<lparr>comboSystem := (comboSystem e)
                       \<lparr>comboSystem.timer := comboSystem.timer (comboSystem e) + deltaTime\<rparr>\<rparr>
         in if comboSystem.timer (comboSystem e1) \<ge> maxTime (comboSystem e1)
            then resetCombo e1 else e1)
      else e)"

definition updateWeaponTimer :: "GameEngine \<Rightarrow> real \<Rightarrow> GameEngine" where
  "updateWeaponTimer e deltaTime =
     (let ws = weaponSystem e
      in if currentWeapon ws \<noteq> Default \<and> activeWeaponTimer ws > 0 then
           (let t = activeWeaponTimer ws - deltaTime;
                ws1 = ws\<lparr>activeWeaponTimer := t\<rparr>
            in e\<lparr>weaponSystem := (if t \<le> 0 then ws1\<lparr>currentWeapon := Default\<rparr> else ws1)\<rparr>)
         else e)"

text \<open>The hazards: \<open>spawnHazard\<close>, \<open>updateHazard\<close> on the hazard of index \<open>i\<close>, and the loop.\<close>

definition hazardTypes :: "HazardType list" where
  "hazardTypes = [Blackhole, Nebula, Meteor_shower]"

text \<open>
  In the space-sim branch the type is \<open>types[Math.floor(Math.random() * 3)]\<close>; an index
  outside the list (which no value of \<open>Math.random\<close> gives) would make a hazard of type
  undefined, which \<open>updateHazard\<close> ignores: the model gives \<open>None\<close>.
\<close>

definition spawnHazard :: "GameEngine \<Rightarrow> GameEngine option" where
  "spawnHazard e =
     (if mode (config e) = ''lane-shooter'' then
        Some (e\<lparr>hazards := hazards e @
                [\<lparr>hazard.type = Blackhole,
                  position = \<lparr>vx = vx (position (player e)) + 200,
                              vy = vy (position (player e)) + 100\<rparr>,
                  velocity = Some \<lparr>vx = 0, vy = 0\<rparr>,
                  radius = 80, strength = 250, duration = 15, timer = 0, active = True,
                  telegraph = True, telegraphTimer = 2.0, spawnTimer = 0, spawnRate = 0\<rparr>]\<rparr>)
      else
        (let r = random e
         in case at_index hazardTypes \<lfloor>r 0 * real (length hazardTypes)\<rfloor> of
              None \<Rightarrow> None
            | Some t \<Rightarrow>
                Some (e\<lparr>random := rest (rest (rest (rest r))),
                        hazards := hazards e @
                          [\<lparr>hazard.type = t,
                            position = \<lparr>vx = rest r 0 * width e,
                                        vy = rest (rest r) 0 * height e\<rparr>,
                            velocity = None,
                            radius = (if t = Blackhole then 80 else 150),
                            strength = (if t = Blackhole then 200 else 0.5),
                            duration = 10 + rest (rest (rest r)) 0 * 10,
                            timer = 0, active = True, telegraph = False, telegraphTimer = 0,
                            spawnTimer = 0, spawnRate = (if t = Meteor_shower then 0.1 else 0)\<rparr>]\<rparr>)))"

definition pullAsteroid :: "hazard \<Rightarrow> real \<Rightarrow> Asteroid \<Rightarrow> Asteroid" where
  "pullAsteroid h deltaTime a =
     (let toHazard = Vector2D_subtract (hazard.position h) (position a);
          dist = magnitude toHazard
      in if dist < hazard.radius h * 3 then
           (let force' = Vector2D_multiply (Vector2D_normalize toHazard) (hazard.strength h * 0.005)
            in a\<lparr>velocity := Vector2D_add (velocity a) (Vector2D_multiply force' deltaTime)\<rparr>)
         else a)"

definition pullProjectile :: "hazard \<Rightarrow> real \<Rightarrow> Projectile \<Rightarrow> Projectile" where
  "pullProjectile h deltaTime proj =
     (let toHazard = Vector2D_subtract (hazard.position h) (position proj);
          dist = magnitude toHazard
      in if dist < hazard.radius h * 2 then
           (let force' = Vector2D_multiply (Vector2D_normalize toHazard)
                           (hazard.strength h * 0.5 / (dist + 1))
            in proj\<lparr>velocity := Vector2D_add (velocity proj) (Vector2D_multiply force' deltaTime)\<rparr>)
         else proj)"

definition updateBlackhole :: "nat \<Rightarrow> real \<Rightarrow> GameEngine \<Rightarrow> GameEngine" where
  "updateBlackhole i deltaTime e =
     (let h = hazards e ! i;
          h1 = (case hazard.velocity h of
                  Some v \<Rightarrow>
                    h\<lparr>hazard.position :=
                        \<lparr>vx = vx (hazard.position h) + vx v * deltaTime,
                         vy = vy (hazard.position h) + vy v * deltaTime\<rparr>\<rparr>
                | None \<Rightarrow> h);
          h2 = (if telegraph h1 \<and> telegraphTimer h1 > 0 then
                  (let t = telegraphTimer h1 - deltaTime;
                       h' = h1\<lparr>telegraphTimer := t\<rparr>
                   in if t \<le> 0 then h'\<lparr>telegraph := False\<rparr> else h')
                else h1);
          isActive = (\<not> telegraph h2 \<or> telegraphTimer h2 \<le> 0);
          e1 = e\<lparr>hazards := (hazards e)[i := h2]\<rparr>
      in if isActive then
           e1\<lparr>asteroids := map (pullAsteroid h2 deltaTime) (asteroids e1),
              projectiles := map (pullProjectile h2 deltaTime) (projectiles e1)\<rparr>
         else e1)"

definition updateNebula :: "nat \<Rightarrow> GameEngine \<Rightarrow> GameEngine" where
  "updateNebula i e =
     (let h = hazards e ! i;
          dist = distanceTo (hazard.position h) (position (player e))
      in if dist < hazard.radius h
         then e\<lparr>player := (player e)\<lparr>velocity := Vector2D_multiply (velocity (player e)) 0.98\<rparr>\<rparr>
         else e)"

definition updateMeteorShower :: "nat \<Rightarrow> real \<Rightarrow> GameEngine \<Rightarrow> GameEngine" where
  "updateMeteorShower i deltaTime e =
     (let h = hazards e ! i;
          h1 = h\<lparr>spawnTimer := spawnTimer h + deltaTime\<rparr>
      in if spawnTimer h1 \<ge> spawnRate h1 then
           (let h2 = h1\<lparr>spawnTimer := 0\<rparr>;
                r = random e;
                x = vx (hazard.position h2) + (r 0 - 0.5) * hazard.radius h2;
                y = - 50;
                velocity' = \<lparr>vx = (rest r 0 - 0.5) * 100, vy = 200 + rest (rest r) 0 * 200\<rparr>;
                (a, r') = new_Asteroid x y Small (Some velocity') (rest (rest (rest r)))
            in e\<lparr>hazards := (hazards e)[i := h2], asteroids := asteroids e @ [a],
                 random := r'\<rparr>)
         else e\<lparr>hazards := (hazards e)[i := h1]\<rparr>)"

definition updateHazard :: "nat \<Rightarrow> real \<Rightarrow> GameEngine \<Rightarrow> GameEngine" where
  "updateHazard i deltaTime e =
     (case hazard.type (hazards e ! i) of
        Blackhole \<Rightarrow> updateBlackhole i deltaTime e
      | Nebula \<Rightarrow> updateNebula i e
      | Meteor_shower \<Rightarrow> updateMeteorShower i deltaTime e)"

definition hazardStep :: "nat \<Rightarrow> real \<Rightarrow> GameEngine \<Rightarrow> GameEngine option" where
  "hazardStep i deltaTime e =
     (if i \<ge> length (hazards e) then None
      else
        let h = (hazards e ! i)\<lparr>hazard.timer := hazard.timer (hazards e ! i) + deltaTime\<rparr>;
            e1 = e\<lparr>hazards := (hazards e)[i := h]\<rparr>
        in if hazard.timer h \<ge> hazard.duration h
           then Some (e1\<lparr>hazards := removeAt i (hazards e1)\<rparr>)
           else if mode (config e1) = ''lane-shooter'' \<and> vy (hazard.position h) > height e1 + 150
           then Some (e1\<lparr>hazards := removeAt i (hazards e1)\<rparr>)
           else Some (updateHazard i deltaTime e1))"

fun hazardLoop :: "nat \<Rightarrow> real \<Rightarrow> GameEngine \<Rightarrow> GameEngine option" where
  "hazardLoop 0 deltaTime e = Some e"
| "hazardLoop (Suc i) deltaTime e =
     (case hazardStep i deltaTime e of
        None \<Rightarrow> None
      | Some e' \<Rightarrow> hazardLoop i deltaTime e')"

text \<open>
  The three timers at the end of the step: asteroid spawning, hazard spawning and the
  wave progression. \<open>js_mod\<close> is the remainder operator \<open>%\<close>, \<open>None\<close> for NaN.
\<close>

definition js_mod :: "real \<Rightarrow> real \<Rightarrow> real option" where
  "js_mod a b =
     (if b = 0 then None
      else Some (a - b * real_of_int (if a / b \<ge> 0 then \<lfloor>a / b\<rfloor> else \<lceil>a / b\<rceil>)))"

definition asteroidSpawnTick :: "GameEngine \<Rightarrow> real \<Rightarrow> GameEngine" where
  "asteroidSpawnTick e deltaTime =
     (let e1 = e\<lparr>asteroidSpawnTimer := asteroidSpawnTimer e + deltaTime\<rparr>
      in if asteroidSpawnTimer e1 \<ge> asteroidSpawnRate (config e1)
         then spawnAsteroid (e1\<lparr>asteroidSpawnTimer := 0\<rparr>)
         else e1)"

definition hazardSpawnTick :: "GameEngine \<Rightarrow> real \<Rightarrow> GameEngine option" where
  "hazardSpawnTick e deltaTime =
     (let e1 = e\<lparr>hazardSpawnTimer := hazardSpawnTimer e + deltaTime\<rparr>
      in if hazardSpawnTimer e1 \<ge> hazardSpawnInterval e1 \<and> wave e1 > 2
         then spawnHazard (e1\<lparr>hazardSpawnTimer := 0\<rparr>)
         else Some e1)"

definition waveProgression :: "GameEngine \<Rightarrow> real \<Rightarrow> GameEngine" where
  "waveProgression e deltaTime =
     (let e1 = e\<lparr>waveTimer := waveTimer e + deltaTime\<rparr>
      in if waveTimer e1 \<ge> waveInterval e1 then
           (let e2 = e1\<lparr>waveTimer := 0,
                        wave := wave e1 + 1,
                        config := (config e1)
                          \<lparr>asteroidSpawnRate :=
                             asteroidSpawnRate (config e1) * asteroidSpawnIncrease (config e1),
                           maxAsteroids := maxAsteroids (config e1) + 2,
                           difficultyMultiplier := difficultyMultiplier (config e1) + 0.1\<rparr>\<rparr>
            in if js_mod (real_of_int (wave e2)) (bossWaveInterval (config e2)) = Some 0
               then spawnBoss e2 else e2)
         else e1)"

text \<open>The horizontal clamp of the lane-shooter mode after the ship's own update.\<close>

definition laneClamp :: "GameEngine \<Rightarrow> GameEngine" where
  "laneClamp e =
     (let p = player e;
          margin = 50;
          p1 = (if vx (position p) < margin then
                  p\<lparr>position := (position p)\<lparr>vx := margin\<rparr>,
                    velocity := (velocity p)\<lparr>vx := 0\<rparr>\<rparr>
                else p);
          p2 = (if vx (position p1) > width e - margin then
                  p1\<lparr>position := (position p1)\<lparr>vx := width e - margin\<rparr>,
                     velocity := (velocity p1)\<lparr>vx := 0\<rparr>\<rparr>
                else p1)
      in e\<lparr>player := p2\<rparr>)"

text \<open>
  The part of \<open>update\<close> on the player: the ship's update and the bounds. Then the rest of
  the step after the asteroid loop, and \<open>update(deltaTime)\<close> itself.
\<close>

definition updatePlayer :: "GameEngine \<Rightarrow> real \<Rightarrow> GameEngine option" where
  "updatePlayer e deltaTime =
     (case Spaceship_update (player e) deltaTime of
        None \<Rightarrow> None
      | Some p \<Rightarrow>
          let e1 = e\<lparr>player := p\<rparr>
          in if mode (config e1) = ''lane-shooter'' then Some (laneClamp e1)
             else Some (e1\<lparr>player :=
                          bounceOffBounds p (Spaceship.width p) (Spaceship.height p)
                            (width e1) (height e1) 0.5\<rparr>))"

definition updateRest :: "GameEngine \<Rightarrow> real \<Rightarrow> GameEngine option" where
  "updateRest e deltaTime =
     (case projectileLoop (length (projectiles e)) deltaTime e of
        None \<Rightarrow> None
      | Some e1 \<Rightarrow>
          (case powerUpLoop (length (powerUps e1)) deltaTime e1 of
             None \<Rightarrow> None
           | Some e2 \<Rightarrow>
               let e3 = updateWeaponTimer (updateComboTimer e2 deltaTime) deltaTime
               in case hazardLoop (length (hazards e3)) deltaTime e3 of
                    None \<Rightarrow> None
                  | Some e4 \<Rightarrow>
                      (case hazardSpawnTick (asteroidSpawnTick e4 deltaTime) deltaTime of
                         None \<Rightarrow> None
                       | Some e5 \<Rightarrow> Some (waveProgression e5 deltaTime))))"

definition GameEngine_update :: "GameEngine \<Rightarrow> real \<Rightarrow> GameEngine option" where
  "GameEngine_update e deltaTime0 =
     (if state e \<noteq> Playing then Some e
      else
        let deltaTime = min deltaTime0 0.1;
            e1 = e\<lparr>time := time e + deltaTime\<rparr>;
            e2 = handleInput e1 deltaTime
        in case updatePlayer e2 deltaTime of
             None \<Rightarrow> None
           | Some e3 \<Rightarrow>
               if isDestroyed (player e3) then Some (gameOver e3)
               else
                 (case asteroidLoop (length (asteroids e3)) deltaTime e3 of
                    None \<Rightarrow> None
                  | Some (e4, returned) \<Rightarrow>
                      if returned then Some e4 else updateRest e4 deltaTime))"

text \<open>
  The other entry points: a chain reaction that \<open>setTimeout\<close> runs, the input listeners of
  \<open>bindInput\<close>, and \<open>resize\<close>.
\<close>

definition runChainReaction :: "GameEngine \<Rightarrow> GameEngine option" where
  "runChainReaction e =
     (case pendingChainReactions e of
        [] \<Rightarrow> Some e
      | (pos, rad) # pending \<Rightarrow> checkChainReaction (e\<lparr>pendingChainReactions := pending\<rparr>) pos rad)"

definition keydown :: "GameEngine \<Rightarrow> string \<Rightarrow> GameEngine" where
  "keydown e k = e\<lparr>keys := (keys e)(k := True)\<rparr>"

definition keyup :: "GameEngine \<Rightarrow> string \<Rightarrow> GameEngine" where
  "keyup e k = e\<lparr>keys := (keys e)(k := False)\<rparr>"

definition mousemove :: "GameEngine \<Rightarrow> real \<Rightarrow> real \<Rightarrow> GameEngine" where
  "mousemove e x y = e\<lparr>mouse := (mouse e)\<lparr>mouse_x := x, mouse_y := y\<rparr>\<rparr>"

definition mousedown :: "GameEngine \<Rightarrow> GameEngine" where
  "mousedown e =
     (let e1 = e\<lparr>mouse := (mouse e)\<lparr>down := True\<rparr>\<rparr>
      in if state e1 = Playing then playerFire e1 else e1)"

definition mouseup :: "GameEngine \<Rightarrow> GameEngine" where
  "mouseup e = e\<lparr>mouse := (mouse e)\<lparr>down := False\<rparr>\<rparr>"

definition resize :: "GameEngine \<Rightarrow> real \<Rightarrow> real \<Rightarrow> GameEngine" where
  "resize e w h = e\<lparr>width := w, height := h\<rparr>"

section \<open>The engine as a transition system\<close>

text \<open>
  The calls that reach the engine from outside: the commands \<open>start\<close>, \<open>pause\<close> and \<open>resume\<close>,
  the frame callback \<open>update(dt)\<close>, a chain reaction run by a timer, the input listeners
  and \<open>resize\<close>. \<open>run\<close> is the effect of one call and \<open>updates\<close> is a run of frames.
\<close>

datatype command =
    Start | Pause | Resume | Update real | RunChainReaction
  | Keydown string | Keyup string | Mousemove real real | Mousedown | Mouseup
  | Resize real real

fun run :: "command \<Rightarrow> GameEngine \<Rightarrow> GameEngine option" where
  "run Start e = Some (start e)"
| "run Pause e = Some (pause e)"
| "run Resume e = Some (resume e)"
| "run (Update dt) e = GameEngine_update e dt"
| "run RunChainReaction e = runChainReaction e"
| "run (Keydown k) e = Some (keydown e k)"
| "run (Keyup k) e = Some (keyup e k)"
| "run (Mousemove x y) e = Some (mousemove e x y)"
| "run Mousedown e = Some (mousedown e)"
| "run Mouseup e = Some (mouseup e)"
| "run (Resize w h) e = Some (resize e w h)"

fun updates :: "GameEngine \<Rightarrow> real list \<Rightarrow> GameEngine option" where
  "updates e [] = Some e"
| "updates e (dt # dts) =
     (case GameEngine_update e dt of None \<Rightarrow> None | Some e' \<Rightarrow> updates e' dts)"

section \<open>Notions used by the properties\<close>

text \<open>
  The number of boss asteroids in a list, and relations between the engine before and
  after a step: what the step keeps, and how the boss flag and the number of bosses on the
  field may move (\<open>bossRel\<close>: no boss is added, the flag is not set, and it is cleared only
  when a boss leaves the list).
\<close>

definition bossCount :: "Asteroid list \<Rightarrow> nat" where
  "bossCount xs = length (filter isBoss xs)"

definition bossRel :: "GameEngine \<Rightarrow> GameEngine \<Rightarrow> bool" where
  "bossRel e e' =
     (bossCount (asteroids e') \<le> bossCount (asteroids e)
      \<and> (bossSystem.active (bossSystem e') \<longrightarrow> bossSystem.active (bossSystem e))
      \<and> (bossSystem.active (bossSystem e) \<and> \<not> bossSystem.active (bossSystem e')
           \<longrightarrow> bossCount (asteroids e') < bossCount (asteroids e)))"

definition keep :: "GameEngine \<Rightarrow> GameEngine \<Rightarrow> bool" where
  "keep e e' =
     (state e' = state e \<and> width e' = width e \<and> height e' = height e
      \<and> mode (config e') = mode (config e)
      \<and> position (player e') = position (player e))"

definition frame :: "GameEngine \<Rightarrow> GameEngine \<Rightarrow> bool" where
  "frame e e' = (keep e e' \<and> bossRel e e')"

definition frame0 :: "GameEngine \<Rightarrow> GameEngine \<Rightarrow> bool" where
  "frame0 e e' = (keep e e' \<and> asteroids e' = asteroids e \<and> bossSystem e' = bossSystem e)"

definition frame1 :: "GameEngine \<Rightarrow> GameEngine \<Rightarrow> bool" where
  "frame1 e e' =
     (keep e e' \<and> bossSystem e' = bossSystem e
      \<and> bossCount (asteroids e') \<le> bossCount (asteroids e))"

definition stepRel :: "GameEngine \<Rightarrow> GameEngine \<Rightarrow> bool \<Rightarrow> bool" where
  "stepRel e e' returned =
     (width e' = width e \<and> height e' = height e \<and> mode (config e') = mode (config e)
      \<and> position (player e') = position (player e) \<and> bossRel e e'
      \<and> (if returned then state e' = Gameover else state e' = state e))"

definition base :: "GameEngine \<Rightarrow> GameEngine \<Rightarrow> bool" where
  "base e e' =
     (state e' = state e \<and> width e' = width e \<and> height e' = height e
      \<and> mode (config e') = mode (config e)
      \<and> asteroids e' = asteroids e \<and> bossSystem e' = bossSystem e)"

text \<open>
  The kill counter, the combo and the score: a step that touches none of them (\<open>still\<close>), a
  step that may collect pickups, each of which adds \<open>floor(50 * multiplier)\<close> to the score
  (\<open>picked\<close>, with \<open>k\<close> the number of pickups collected), and a step that may count kills
  and leaves the combo and the score as they are when it counts none (\<open>killsRel\<close>).
\<close>

definition still :: "GameEngine \<Rightarrow> GameEngine \<Rightarrow> bool" where
  "still e e' = (kills e' = kills e \<and> comboSystem e' = comboSystem e \<and> score e' = score e)"


definition killsRel :: "GameEngine \<Rightarrow> GameEngine \<Rightarrow> bool" where
  "killsRel e e' =
     (kills e \<le> kills e'
      \<and> (kills e' = kills e \<longrightarrow> comboSystem e' = comboSystem e \<and> score e' = score e))"

text \<open>
  A body whose two damping coefficients are positive, as the constructor sets them, and an
  engine in which every body is such a body, every boss has its \<open>scoreValue\<close>, the
  experience needed for the next level is at least 1 and \<open>Math.random\<close> is in \<open>[0, 1)\<close>.
\<close>

definition bodyOk :: "'a PhysicsBody_scheme \<Rightarrow> bool" where
  "bodyOk b = (0 < linearDamping b \<and> 0 < angularDamping b)"

definition astOk :: "Asteroid \<Rightarrow> bool" where
  "astOk a = (bodyOk a \<and> (isBoss a \<longrightarrow> scoreValue a \<noteq> None))"

definition wellFormed :: "GameEngine \<Rightarrow> bool" where
  "wellFormed e =
     (bodyOk (player e)
      \<and> (\<forall>a \<in> set (asteroids e). astOk a)
      \<and> (\<forall>p \<in> set (projectiles e). bodyOk p)
      \<and> (\<forall>u \<in> set (powerUps e). bodyOk u)
      \<and> 1 \<le> experienceToNext (upgradeSystem e)
      \<and> valid_random (random e))"

section \<open>Properties of the ship\<close>

lemma Math_pow_pos: "0 < b \<Longrightarrow> \<exists>p. Math_pow b e = Some p"
  by (simp add: Math_pow_def)

lemma PhysicsBody_update_total:
  assumes "0 < linearDamping b" "0 < angularDamping b"
  shows "\<exists>b'. PhysicsBody_update b dt = Some b' \<and> PhysicsBody.more b' = PhysicsBody.more b
           \<and> linearDamping b' = linearDamping b \<and> angularDamping b' = angularDamping b"
proof -
  obtain p where p: "Math_pow (linearDamping b) (dt * 60) = Some p"
    using Math_pow_pos[OF assms(1)] by blast
  obtain q where q: "Math_pow (angularDamping b) (dt * 60) = Some q"
    using Math_pow_pos[OF assms(2)] by blast
  show ?thesis
    by (simp add: PhysicsBody_update_def p q Let_def)
qed

lemma updateShield_frame:
  "invulnerable (updateShield s dt) = invulnerable s \<and>
   invulnerabilityTimer (updateShield s dt) = invulnerabilityTimer s \<and>
   linearDamping (updateShield s dt) = linearDamping s \<and>
   angularDamping (updateShield s dt) = angularDamping s"
  by (simp add: updateShield_def deactivateShield_def Let_def)

lemma updateCooldown_frame:
  "invulnerable (updateCooldown s dt) = invulnerable s \<and>
   invulnerabilityTimer (updateCooldown s dt) = invulnerabilityTimer s \<and>
   linearDamping (updateCooldown s dt) = linearDamping s \<and>
   angularDamping (updateCooldown s dt) = angularDamping s"
  by (simp add: updateCooldown_def)

lemma updateTrail_frame:
  "invulnerable (updateTrail s dt) = invulnerable s \<and>
   invulnerabilityTimer (updateTrail s dt) = invulnerabilityTimer s \<and>
   linearDamping (updateTrail s dt) = linearDamping s \<and>
   angularDamping (updateTrail s dt) = angularDamping s"
  by (simp add: updateTrail_def Let_def)

lemma updateInvulnerability_effect:
  "invulnerable (updateInvulnerability s dt) = (invulnerable s \<and> 0 < invulnerabilityTimer s - dt) \<and>
   invulnerabilityTimer (updateInvulnerability s dt) =
     (if invulnerable s then max 0 (invulnerabilityTimer s - dt) else invulnerabilityTimer s) \<and>
   linearDamping (updateInvulnerability s dt) = linearDamping s \<and>
   angularDamping (updateInvulnerability s dt) = angularDamping s"
  by (auto simp add: updateInvulnerability_def Let_def max_def)

lemma Spaceship_update_invulnerability:
  assumes "0 < linearDamping s" "0 < angularDamping s"
  shows "\<exists>s'. Spaceship_update s dt = Some s'
           \<and> linearDamping s' = linearDamping s \<and> angularDamping s' = angularDamping s
           \<and> invulnerable s' = (invulnerable s \<and> 0 < invulnerabilityTimer s - dt)
           \<and> invulnerabilityTimer s' =
               (if invulnerable s then max 0 (invulnerabilityTimer s - dt) else invulnerabilityTimer s)"
proof -
  obtain p where p: "Math_pow (linearDamping s) (dt * 60) = Some p"
    using Math_pow_pos[OF assms(1)] by blast
  obtain q where q: "Math_pow (angularDamping s) (dt * 60) = Some q"
    using Math_pow_pos[OF assms(2)] by blast
  have "\<exists>s1. PhysicsBody_update s dt = Some s1 \<and>
     linearDamping s1 = linearDamping s \<and> angularDamping s1 = angularDamping s \<and>
     invulnerable s1 = invulnerable s \<and> invulnerabilityTimer s1 = invulnerabilityTimer s"
    by (simp add: PhysicsBody_update_def p q Let_def)
  then obtain s1 where s1: "PhysicsBody_update s dt = Some s1"
     "linearDamping s1 = linearDamping s" "angularDamping s1 = angularDamping s"
    and inv: "invulnerable s1 = invulnerable s" "invulnerabilityTimer s1 = invulnerabilityTimer s"
    by blast
  show ?thesis
    by (simp add: Spaceship_update_def s1 inv Let_def updateTrail_frame updateInvulnerability_effect
        updateCooldown_frame updateShield_frame limitVelocity_def)
qed


lemmas ship_defs = setupPlayer_ship_def PhysicsBody.extend_def Spaceship.fields_def
  new_PhysicsBody_def activateShield_def

text \<open>
  Claim C1. For a ship whose shield is active with strength above 0, \<open>takeDamage(amount)\<close>
  returns false, leaves the health as it is and changes nothing but the shield's strength
  and active flag; unless the ship is invulnerable the new strength is
  \<open>max 0 (strength - amount)\<close>. Once such a hit has brought the strength to 0, the next
  \<open>takeDamage(amount')\<close> lowers the health to \<open>max 0 (health - amount')\<close>.
\<close>

theorem shield_precedence:
  assumes "shield.active (shield s)" and "0 < shield.strength (shield s)"
  shows "snd (Spaceship_takeDamage s amount) = False
       \<and> Spaceship.health (fst (Spaceship_takeDamage s amount)) = Spaceship.health s
       \<and> (\<exists>st ac. fst (Spaceship_takeDamage s amount) =
                     s\<lparr>shield := (shield s)\<lparr>shield.strength := st, shield.active := ac\<rparr>\<rparr>)
       \<and> (\<not> invulnerable s \<longrightarrow>
            shield.strength (shield (fst (Spaceship_takeDamage s amount))) =
              max 0 (shield.strength (shield s) - amount))
       \<and> (shield.strength (shield (fst (Spaceship_takeDamage s amount))) = 0 \<longrightarrow>
            Spaceship.health (fst (Spaceship_takeDamage (fst (Spaceship_takeDamage s amount)) amount')) =
              max 0 (Spaceship.health s - amount'))"
proof (cases "invulnerable s")
  case True
  have "s = s\<lparr>shield := (shield s)\<lparr>shield.strength := shield.strength (shield s), shield.active := shield.active (shield s)\<rparr>\<rparr>"
    by simp
  then have "\<exists>st ac. s = s\<lparr>shield := (shield s)\<lparr>shield.strength := st, shield.active := ac\<rparr>\<rparr>"
    by blast
  with True assms show ?thesis
    by (simp add: Spaceship_takeDamage_def)
next
  case False
  let ?st = "max 0 (shield.strength (shield s) - amount)"
  have eq: "fst (Spaceship_takeDamage s amount) =
        s\<lparr>shield := (shield s)\<lparr>shield.strength := ?st, shield.active := (?st \<noteq> 0)\<rparr>\<rparr>"
    using False assms by (simp add: Spaceship_takeDamage_def Let_def)
  have ex: "\<exists>st ac. fst (Spaceship_takeDamage s amount) =
                     s\<lparr>shield := (shield s)\<lparr>shield.strength := st, shield.active := ac\<rparr>\<rparr>"
    using eq by blast
  have r: "snd (Spaceship_takeDamage s amount) = False"
    using False assms by (simp add: Spaceship_takeDamage_def Let_def)
  have nxt: "?st = 0 \<longrightarrow>
      Spaceship.health (fst (Spaceship_takeDamage (fst (Spaceship_takeDamage s amount)) amount')) =
              max 0 (Spaceship.health s - amount')"
    using False assms by (simp add: eq Spaceship_takeDamage_def Let_def)
  show ?thesis using ex r nxt False by (simp add: eq)
qed

theorem shield_precedence_witness:
  "shield.active (shield (activateShield (setupPlayer_ship 800 600)))
   \<and> 0 < shield.strength (shield (activateShield (setupPlayer_ship 800 600)))
   \<and> snd (Spaceship_takeDamage (activateShield (setupPlayer_ship 800 600)) 100) = False
   \<and> Spaceship.health (fst (Spaceship_takeDamage (activateShield (setupPlayer_ship 800 600)) 100)) = 100
   \<and> shield.strength (shield (fst (Spaceship_takeDamage (activateShield (setupPlayer_ship 800 600)) 100))) = 0
   \<and> Spaceship.health (fst (Spaceship_takeDamage
        (fst (Spaceship_takeDamage (activateShield (setupPlayer_ship 800 600)) 100)) 30)) = 70"
  using shield_precedence [of "activateShield (setupPlayer_ship 800 600)" 100 30]
  by (simp add: ship_defs Spaceship_takeDamage_def)

text \<open>
  Claim C10. On an invulnerable ship \<open>takeDamage\<close> returns false and changes nothing,
  whatever the amount. A ship that is not invulnerable becomes invulnerable through
  \<open>takeDamage\<close> exactly when the hit is not absorbed by the shield, and the timer is then
  1.0; the \<open>update\<close> of the next frame leaves the ship invulnerable exactly when the frame
  is shorter than that second. The \<open>update\<close> of any frame takes the frame's time off the
  timer of an invulnerable ship, not below 0, and leaves the ship invulnerable exactly when
  the frame is shorter than what was left on the timer.
\<close>

theorem invulnerability_frame:
  "(invulnerable s \<longrightarrow> Spaceship_takeDamage s amount = (s, False))
   \<and> (\<not> invulnerable s \<longrightarrow>
        (invulnerable (fst (Spaceship_takeDamage s amount)) \<longleftrightarrow>
           \<not> (shield.active (shield s) \<and> 0 < shield.strength (shield s)))
        \<and> (invulnerable (fst (Spaceship_takeDamage s amount)) \<longrightarrow>
             invulnerabilityTimer (fst (Spaceship_takeDamage s amount)) = 1))
   \<and> (\<not> invulnerable s \<and> \<not> (shield.active (shield s) \<and> 0 < shield.strength (shield s))
        \<and> 0 < linearDamping s \<and> 0 < angularDamping s \<longrightarrow>
        (\<exists>s'. Spaceship_update (fst (Spaceship_takeDamage s amount)) dt = Some s'
             \<and> (invulnerable s' \<longleftrightarrow> dt < 1)))
   \<and> (invulnerable s \<and> 0 < linearDamping s \<and> 0 < angularDamping s \<longrightarrow>
        (\<exists>s'. Spaceship_update s dt = Some s'
             \<and> invulnerabilityTimer s' = max 0 (invulnerabilityTimer s - dt)
             \<and> (invulnerable s' \<longleftrightarrow> dt < invulnerabilityTimer s)))"
proof (intro conjI impI)
  assume "invulnerable s"
  then show "Spaceship_takeDamage s amount = (s, False)"
    by (simp add: Spaceship_takeDamage_def)
next
  assume "\<not> invulnerable s"
  then show "invulnerable (fst (Spaceship_takeDamage s amount)) \<longleftrightarrow>
           \<not> (shield.active (shield s) \<and> 0 < shield.strength (shield s))"
    by (simp add: Spaceship_takeDamage_def Let_def)
next
  assume "\<not> invulnerable s" "invulnerable (fst (Spaceship_takeDamage s amount))"
  then show "invulnerabilityTimer (fst (Spaceship_takeDamage s amount)) = 1"
    by (auto simp add: Spaceship_takeDamage_def Let_def split: if_splits)
next
  assume a: "\<not> invulnerable s \<and> \<not> (shield.active (shield s) \<and> 0 < shield.strength (shield s))
        \<and> 0 < linearDamping s \<and> 0 < angularDamping s"
  let ?h = "fst (Spaceship_takeDamage s amount)"
  have h: "invulnerable ?h" "invulnerabilityTimer ?h = 1"
     "0 < linearDamping ?h" "0 < angularDamping ?h"
    using a by (auto simp add: Spaceship_takeDamage_def Let_def)
  obtain s' where "Spaceship_update ?h dt = Some s'"
    "invulnerable s' = (invulnerable ?h \<and> 0 < invulnerabilityTimer ?h - dt)"
    using Spaceship_update_invulnerability[OF h(3,4), of dt] by blast
  then show "\<exists>s'. Spaceship_update ?h dt = Some s' \<and> (invulnerable s' \<longleftrightarrow> dt < 1)"
    using h by auto
next
  assume a: "invulnerable s \<and> 0 < linearDamping s \<and> 0 < angularDamping s"
  obtain s' where "Spaceship_update s dt = Some s'"
    "invulnerable s' = (invulnerable s \<and> 0 < invulnerabilityTimer s - dt)"
    "invulnerabilityTimer s' =
       (if invulnerable s then max 0 (invulnerabilityTimer s - dt) else invulnerabilityTimer s)"
    using Spaceship_update_invulnerability[of s dt] a by blast
  then show "\<exists>s'. Spaceship_update s dt = Some s'
             \<and> invulnerabilityTimer s' = max 0 (invulnerabilityTimer s - dt)
             \<and> (invulnerable s' \<longleftrightarrow> dt < invulnerabilityTimer s)"
    using a by auto
qed

text \<open>
  The ship of a new game is hit with its shield down: it is invulnerable with the timer at
  1.0 and a second hit changes nothing. A frame of half a second leaves it invulnerable; a
  frame of one second does not. A frame of a quarter of a second leaves it invulnerable
  with 0.75 on the timer.
\<close>

theorem invulnerability_frame_witness:
  "\<not> invulnerable (setupPlayer_ship 800 600)
   \<and> \<not> (shield.active (shield (setupPlayer_ship 800 600)) \<and> 0 < shield.strength (shield (setupPlayer_ship 800 600)))
   \<and> 0 < linearDamping (setupPlayer_ship 800 600) \<and> 0 < angularDamping (setupPlayer_ship 800 600)
   \<and> invulnerable (fst (Spaceship_takeDamage (setupPlayer_ship 800 600) 20))
   \<and> invulnerabilityTimer (fst (Spaceship_takeDamage (setupPlayer_ship 800 600) 20)) = 1
   \<and> Spaceship_takeDamage (fst (Spaceship_takeDamage (setupPlayer_ship 800 600) 20)) 20 =
        (fst (Spaceship_takeDamage (setupPlayer_ship 800 600) 20), False)
   \<and> (\<exists>s'. Spaceship_update (fst (Spaceship_takeDamage (setupPlayer_ship 800 600) 20)) 0.5
              = Some s' \<and> invulnerable s')
   \<and> (\<exists>s'. Spaceship_update (fst (Spaceship_takeDamage (setupPlayer_ship 800 600) 20)) 1
              = Some s' \<and> \<not> invulnerable s')
   \<and> (\<exists>s'. Spaceship_update (fst (Spaceship_takeDamage (setupPlayer_ship 800 600) 20)) 0.25
              = Some s' \<and> invulnerable s' \<and> invulnerabilityTimer s' = 0.75)"
proof -
  let ?s = "setupPlayer_ship 800 600"
  let ?h = "fst (Spaceship_takeDamage ?s 20)"
  have s: "\<not> invulnerable ?s"
    "\<not> (shield.active (shield ?s) \<and> 0 < shield.strength (shield ?s))"
    "0 < linearDamping ?s" "0 < angularDamping ?s"
    by (simp_all add: ship_defs)
  have h: "invulnerable ?h" "invulnerabilityTimer ?h = 1"
    "0 < linearDamping ?h" "0 < angularDamping ?h"
    using s by (auto simp add: Spaceship_takeDamage_def Let_def)
  have 1: "\<exists>s'. Spaceship_update ?h 0.5 = Some s' \<and> invulnerable s'"
    using invulnerability_frame [of ?s 20 "0.5"] s by simp
  have 2: "\<exists>s'. Spaceship_update ?h 1 = Some s' \<and> \<not> invulnerable s'"
    using invulnerability_frame [of ?s 20 1] s by simp
  have 3: "Spaceship_takeDamage ?h 20 = (?h, False)"
    using invulnerability_frame [of ?h 20 1] h(1) by simp
  have 4: "\<exists>s'. Spaceship_update ?h 0.25 = Some s' \<and> invulnerable s'
              \<and> invulnerabilityTimer s' = 0.75"
    using invulnerability_frame [of ?h 20 "0.25"] h by auto
  show ?thesis using s h(1,2) 1 2 3 4 by blast
qed

section \<open>Properties of the physics body and of collisions\<close>

lemma Math_pow_powr: "0 < b \<Longrightarrow> Math_pow b e = Some (b powr e)"
  by (simp add: Math_pow_def)

text \<open>
  Claim C2. \<open>update(dt)\<close> leaves a static body as it is. On a body that is not static,
  with \<open>p\<close> and \<open>q\<close> the values of \<open>Math.pow(linearDamping, dt * 60)\<close> and
  \<open>Math.pow(angularDamping, dt * 60)\<close>, it sets the acceleration to force times inverse mass,
  adds acceleration times \<open>dt\<close> to the velocity and scales it by \<open>p\<close>, adds the new velocity
  times \<open>dt\<close> to the position, does the same for the angular terms with \<open>q\<close>, and leaves
  force and torque at zero. For a positive damping coefficient the power is the real
  power, for every \<open>dt\<close>.
\<close>

theorem update_semi_implicit_euler:
  "(isStatic b \<longrightarrow> PhysicsBody_update b dt = Some b)
   \<and> (\<not> isStatic b \<and> Math_pow (linearDamping b) (dt * 60) = Some p
        \<and> Math_pow (angularDamping b) (dt * 60) = Some q \<longrightarrow>
        (\<exists>b'. PhysicsBody_update b dt = Some b'
           \<and> acceleration b' = Vector2D_multiply (force b) (inverseMass b)
           \<and> velocity b' =
               Vector2D_multiply
                 (Vector2D_add (velocity b) (Vector2D_multiply (acceleration b') dt)) p
           \<and> position b' = Vector2D_add (position b) (Vector2D_multiply (velocity b') dt)
           \<and> angularAcceleration b' = torque b * inverseMass b
           \<and> angularVelocity b' = (angularVelocity b + angularAcceleration b' * dt) * q
           \<and> angle b' = angle b + angularVelocity b' * dt
           \<and> force b' = \<lparr>vx = 0, vy = 0\<rparr>
           \<and> torque b' = 0))
   \<and> (0 < linearDamping b \<longrightarrow>
        Math_pow (linearDamping b) (dt * 60) = Some (linearDamping b powr (dt * 60)))
   \<and> (0 < angularDamping b \<longrightarrow>
        Math_pow (angularDamping b) (dt * 60) = Some (angularDamping b powr (dt * 60)))"
  by (simp add: PhysicsBody_update_def Let_def Math_pow_powr)

theorem update_semi_implicit_euler_witness:
  "\<not> isStatic ((new_PhysicsBody 0 0 2)\<lparr>force := \<lparr>vx = 120, vy = 0\<rparr>\<rparr>)
   \<and> Math_pow (linearDamping ((new_PhysicsBody 0 0 2)\<lparr>force := \<lparr>vx = 120, vy = 0\<rparr>\<rparr>)) (1 / 60 * 60)
        = Some 0.999
   \<and> Math_pow (angularDamping ((new_PhysicsBody 0 0 2)\<lparr>force := \<lparr>vx = 120, vy = 0\<rparr>\<rparr>)) (1 / 60 * 60)
        = Some 0.995
   \<and> (\<exists>b'. PhysicsBody_update ((new_PhysicsBody 0 0 2)\<lparr>force := \<lparr>vx = 120, vy = 0\<rparr>\<rparr>) (1 / 60) = Some b'
         \<and> acceleration b' = \<lparr>vx = 60, vy = 0\<rparr>
         \<and> velocity b' = \<lparr>vx = 0.999, vy = 0\<rparr>
         \<and> force b' = \<lparr>vx = 0, vy = 0\<rparr> \<and> torque b' = 0)"
proof -
  let ?b = "(new_PhysicsBody 0 0 2)\<lparr>force := \<lparr>vx = 120, vy = 0\<rparr>\<rparr>"
  have h: "\<not> isStatic ?b" "Math_pow (linearDamping ?b) (1 / 60 * 60) = Some 0.999"
    "Math_pow (angularDamping ?b) (1 / 60 * 60) = Some 0.995"
    by (simp_all add: new_PhysicsBody_def Math_pow_def)
  from update_semi_implicit_euler [of ?b "1 / 60" "0.999" "0.995"] h
  obtain b' where b': "PhysicsBody_update ?b (1 / 60) = Some b'"
    "acceleration b' = Vector2D_multiply (force ?b) (inverseMass ?b)"
    "velocity b' = Vector2D_multiply
                 (Vector2D_add (velocity ?b) (Vector2D_multiply (acceleration b') (1 / 60))) 0.999"
    "force b' = \<lparr>vx = 0, vy = 0\<rparr>" "torque b' = 0"
    by blast
  have "acceleration b' = \<lparr>vx = 60, vy = 0\<rparr>"
    using b'(2) by (simp add: new_PhysicsBody_def Vector2D_multiply_def)
  moreover from this have "velocity b' = \<lparr>vx = 0.999, vy = 0\<rparr>"
    using b'(3) by (simp add: new_PhysicsBody_def Vector2D_multiply_def Vector2D_add_def)
  ultimately show ?thesis using h b' by blast
qed

lemma impulse_cancels:
  fixes m1 m2 :: real
  assumes "m1 * i1 = 1" "m2 * i2 = 1"
  shows "(v1 - n * j * i1) * m1 + (v2 + n * j * i2) * m2 = v1 * m1 + v2 * m2"
proof -
  have "(v1 - n * j * i1) * m1 + (v2 + n * j * i2) * m2
      = v1 * m1 + v2 * m2 - n * j * (m1 * i1) + n * j * (m2 * i2)"
    by (simp add: algebra_simps)
  then show ?thesis using assms by simp
qed

lemma momentum_conserved:
  assumes "\<not> isStatic a" "\<not> isStatic b" "0 < mass a" "0 < mass b"
    "inverseMass a = 1 / mass a" "inverseMass b = 1 / mass b"
  shows "\<exists>a' b'. resolveCollision a b r = (Some a', Some b')
           \<and> Vector2D_add (getMomentum a') (getMomentum b') =
               Vector2D_add (getMomentum a) (getMomentum b)"
proof -
  have pos: "inverseMass a + inverseMass b \<noteq> 0"
    using assms by (simp add: add_pos_pos less_imp_neq[symmetric])
  have ma: "mass a * inverseMass a = 1" and mb: "mass b * inverseMass b = 1"
    using assms by simp_all
  define n where "n = Vector2D_normalize (Vector2D_subtract (position b) (position a))"
  define van where "van = dot (Vector2D_subtract (velocity b) (velocity a)) n"
  show ?thesis
  proof (cases "van > 0")
    case True
    then show ?thesis by (simp add: resolveCollision_def Let_def n_def van_def)
  next
    case False
    define j where "j = - (1 + min (restitution a) (restitution b) * r) * van
                          / (inverseMass a + inverseMass b)"
    have "resolveCollision a b r =
       (Some (a\<lparr>velocity := Vector2D_add (velocity a)
                 (Vector2D_multiply (Vector2D_multiply n j) (- inverseMass a))\<rparr>),
        Some (b\<lparr>velocity := Vector2D_add (velocity b)
                 (Vector2D_multiply (Vector2D_multiply n j) (inverseMass b))\<rparr>))"
      using False assms(1,2) pos
      by (simp add: resolveCollision_def Let_def n_def van_def j_def)
    moreover have "Vector2D_add
        (getMomentum (a\<lparr>velocity := Vector2D_add (velocity a)
                 (Vector2D_multiply (Vector2D_multiply n j) (- inverseMass a))\<rparr>))
        (getMomentum (b\<lparr>velocity := Vector2D_add (velocity b)
                 (Vector2D_multiply (Vector2D_multiply n j) (inverseMass b))\<rparr>))
      = Vector2D_add (getMomentum a) (getMomentum b)"
      by (simp add: getMomentum_def Vector2D_add_def Vector2D_multiply_def
          impulse_cancels[OF ma mb])
    ultimately show ?thesis by simp
  qed
qed


text \<open>
  Claim C3, amended. \<open>resolveCollision\<close> never changes a static body, and changes neither body
  when the relative velocity along the normal is positive (the bodies separate). For two
  bodies that are not static, have positive mass and the inverse mass \<open>1 / mass\<close> the
  constructor gives them, it returns finite velocities and the total momentum
  \<open>mass * velocity\<close> is the same before and after, whatever the restitutions.
\<close>

theorem resolveCollision_momentum:
  "(isStatic a \<longrightarrow> fst (resolveCollision a b r) = Some a)
   \<and> (isStatic b \<longrightarrow> snd (resolveCollision a b r) = Some b)
   \<and> (0 < dot (Vector2D_subtract (velocity b) (velocity a))
              (Vector2D_normalize (Vector2D_subtract (position b) (position a))) \<longrightarrow>
        resolveCollision a b r = (Some a, Some b))
   \<and> (\<not> isStatic a \<and> \<not> isStatic b \<and> 0 < mass a \<and> 0 < mass b
        \<and> inverseMass a = 1 / mass a \<and> inverseMass b = 1 / mass b \<longrightarrow>
        (\<exists>a' b'. resolveCollision a b r = (Some a', Some b')
           \<and> Vector2D_add (getMomentum a') (getMomentum b') =
               Vector2D_add (getMomentum a) (getMomentum b)))"
proof (intro conjI impI)
  assume "isStatic a"
  then show "fst (resolveCollision a b r) = Some a"
    by (simp add: resolveCollision_def Let_def)
next
  assume "isStatic b"
  then show "snd (resolveCollision a b r) = Some b"
    by (simp add: resolveCollision_def Let_def)
next
  assume "0 < dot (Vector2D_subtract (velocity b) (velocity a))
              (Vector2D_normalize (Vector2D_subtract (position b) (position a)))"
  then show "resolveCollision a b r = (Some a, Some b)"
    by (simp add: resolveCollision_def Let_def)
next
  assume "\<not> isStatic a \<and> \<not> isStatic b \<and> 0 < mass a \<and> 0 < mass b
        \<and> inverseMass a = 1 / mass a \<and> inverseMass b = 1 / mass b"
  then show "\<exists>a' b'. resolveCollision a b r = (Some a', Some b')
           \<and> Vector2D_add (getMomentum a') (getMomentum b') =
               Vector2D_add (getMomentum a) (getMomentum b)"
    using momentum_conserved by blast
qed

theorem resolveCollision_momentum_witness:
  "\<not> isStatic ((new_PhysicsBody 0 0 2)\<lparr>velocity := \<lparr>vx = 1, vy = 0\<rparr>\<rparr>)
   \<and> \<not> isStatic (new_PhysicsBody 1 0 1)
   \<and> 0 < mass ((new_PhysicsBody 0 0 2)\<lparr>velocity := \<lparr>vx = 1, vy = 0\<rparr>\<rparr>)
   \<and> inverseMass ((new_PhysicsBody 0 0 2)\<lparr>velocity := \<lparr>vx = 1, vy = 0\<rparr>\<rparr>) = 1 / 2
   \<and> (\<exists>a' b'. resolveCollision ((new_PhysicsBody 0 0 2)\<lparr>velocity := \<lparr>vx = 1, vy = 0\<rparr>\<rparr>)
                  (new_PhysicsBody 1 0 1) 0.8 = (Some a', Some b')
         \<and> Vector2D_add (getMomentum a') (getMomentum b') = \<lparr>vx = 2, vy = 0\<rparr>)"
  using resolveCollision_momentum
    [of "(new_PhysicsBody 0 0 2)\<lparr>velocity := \<lparr>vx = 1, vy = 0\<rparr>\<rparr>" "new_PhysicsBody 1 0 1" "0.8"]
  by (simp add: new_PhysicsBody_def getMomentum_def Vector2D_add_def Vector2D_multiply_def)

text \<open>
  The claim as stated fails for a body of mass 0, which the constructor gives the inverse
  mass 0: it moves at \<open>(1, 0)\<close> into a resting body of mass 1 with the same restitution;
  neither is static, and the total momentum goes from \<open>(0, 0)\<close> to \<open>(1.64, 0)\<close>.
\<close>

theorem resolveCollision_momentum_counterexample:
  "\<not> isStatic ((new_PhysicsBody 0 0 0)\<lparr>velocity := \<lparr>vx = 1, vy = 0\<rparr>\<rparr>)
   \<and> \<not> isStatic (new_PhysicsBody 1 0 1)
   \<and> restitution ((new_PhysicsBody 0 0 0)\<lparr>velocity := \<lparr>vx = 1, vy = 0\<rparr>\<rparr>)
       = restitution (new_PhysicsBody 1 0 1)
   \<and> resolveCollision ((new_PhysicsBody 0 0 0)\<lparr>velocity := \<lparr>vx = 1, vy = 0\<rparr>\<rparr>)
          (new_PhysicsBody 1 0 1) 0.8
       = (Some ((new_PhysicsBody 0 0 0)\<lparr>velocity := \<lparr>vx = 1, vy = 0\<rparr>\<rparr>),
          Some ((new_PhysicsBody 1 0 1)\<lparr>velocity := \<lparr>vx = 1.64, vy = 0\<rparr>\<rparr>))
   \<and> Vector2D_add (getMomentum ((new_PhysicsBody 0 0 0)\<lparr>velocity := \<lparr>vx = 1, vy = 0\<rparr>\<rparr>))
         (getMomentum (new_PhysicsBody 1 0 1)) = \<lparr>vx = 0, vy = 0\<rparr>
   \<and> Vector2D_add (getMomentum ((new_PhysicsBody 0 0 0)\<lparr>velocity := \<lparr>vx = 1, vy = 0\<rparr>\<rparr>))
         (getMomentum ((new_PhysicsBody 1 0 1)\<lparr>velocity := \<lparr>vx = 1.64, vy = 0\<rparr>\<rparr>))
       = \<lparr>vx = 1.64, vy = 0\<rparr>"
  by (simp add: new_PhysicsBody_def getMomentum_def Vector2D_add_def Vector2D_multiply_def
      resolveCollision_def Let_def Vector2D_normalize_def Vector2D_subtract_def magnitude_def
      Vector2D_divide_def dot_def)

section \<open>Properties of the asteroid\<close>

lemma valid_random_rest: "valid_random r \<Longrightarrow> valid_random (rest r)"
  by (simp add: valid_random_def rest_def)

lemma valid_random_0: "valid_random r \<Longrightarrow> 0 \<le> r 0 \<and> r 0 < 1"
  by (simp add: valid_random_def)

lemma shapeLoop_valid: "valid_random r \<Longrightarrow> valid_random (snd (shapeLoop rad seg n i r))"
proof (induction n arbitrary: i r)
  case 0
  then show ?case by simp
next
  case (Suc n)
  have "valid_random (snd (shapeLoop rad seg n (Suc i) (rest r)))"
    using Suc.prems by (intro Suc.IH valid_random_rest)
  then show ?case by (auto simp add: Let_def split: prod.splits)
qed

lemma new_Asteroid_fields:
  assumes "valid_random r" "new_Asteroid x y sz (Some v) r = (f, r')"
  shows "valid_random r' \<and> size_name f = sz \<and> velocity f = v \<and> position f = \<lparr>vx = x, vy = y\<rparr>"
proof -
  obtain col r2 where c: "getRandomColor (rest r) = (col, r2)" by force
  obtain verts r3 where g: "generateShape (sizeMap sz) r2 = (verts, r3)" by force
  have v2: "valid_random r2"
    using c assms(1) by (auto simp add: getRandomColor_def Let_def valid_random_rest)
  have v3: "valid_random r3"
    using g v2 shapeLoop_valid[of "rest r2"] by (auto simp add: generateShape_def Let_def valid_random_rest dest: sndI)
  show ?thesis
    using assms(2) v3
    by (auto simp add: new_Asteroid_def Let_def c g valid_random_rest PhysicsBody.extend_def
        new_PhysicsBody_def)
qed


lemma splitLoop_fragments:
  assumes "valid_random r"
  shows "length (fst (splitLoop a ns c n i r)) = n
       \<and> valid_random (snd (splitLoop a ns c n i r))
       \<and> (\<forall>k<n. \<exists>jitter speed. - 0.5 \<le> jitter \<and> jitter < 0.5 \<and> 50 \<le> speed \<and> speed < 150
             \<and> size_name (fst (splitLoop a ns c n i r) ! k) = ns
             \<and> velocity (fst (splitLoop a ns c n i r) ! k) =
                 Vector2D_add (fromAngle (pi * 2 * real (i + k) / real_of_int c + jitter) speed)
                   (velocity a)
             \<and> position (fst (splitLoop a ns c n i r) ! k) =
                 Vector2D_add (position a)
                   (fromAngle (pi * 2 * real (i + k) / real_of_int c + jitter) (Asteroid.radius a * 0.5)))"
  using assms
proof (induction n arbitrary: i r)
  case 0
  then show ?case by simp
next
  case (Suc n)
  let ?angle = "(pi * 2 * real i) / real_of_int c + (r 0 - 0.5)"
  let ?speed = "50 + rest r 0 * 100"
  let ?vel = "Vector2D_add (fromAngle ?angle ?speed) (velocity a)"
  let ?pos = "Vector2D_add (position a) (fromAngle ?angle (Asteroid.radius a * 0.5))"
  obtain f r1 where f: "new_Asteroid (vx ?pos) (vy ?pos) ns (Some ?vel) (rest (rest r)) = (f, r1)"
    by force
  obtain fs r2 where fs: "splitLoop a ns c n (Suc i) r1 = (fs, r2)" by force
  have vrr: "valid_random (rest (rest r))" using Suc.prems by (simp add: valid_random_rest)
  have ff: "valid_random r1" "size_name f = ns" "velocity f = ?vel" "position f = ?pos"
    using new_Asteroid_fields[OF vrr f] by simp_all
  have ih: "length fs = n" "valid_random r2"
    "\<forall>k<n. \<exists>jitter speed. - 0.5 \<le> jitter \<and> jitter < 0.5 \<and> 50 \<le> speed \<and> speed < 150
             \<and> size_name (fs ! k) = ns
             \<and> velocity (fs ! k) =
                 Vector2D_add (fromAngle (pi * 2 * real (Suc i + k) / real_of_int c + jitter) speed)
                   (velocity a)
             \<and> position (fs ! k) =
                 Vector2D_add (position a)
                   (fromAngle (pi * 2 * real (Suc i + k) / real_of_int c + jitter) (Asteroid.radius a * 0.5))"
    using Suc.IH[OF ff(1), of "Suc i"] fs by simp_all
  have res: "splitLoop a ns c (Suc n) i r = (f # fs, r2)"
    unfolding splitLoop.simps Let_def f prod.case fs by (rule refl)
  have r0: "0 \<le> r 0" "r 0 < 1" "0 \<le> rest r 0" "rest r 0 < 1"
    using Suc.prems valid_random_0 valid_random_rest by blast+
  have head: "\<exists>jitter speed. - 0.5 \<le> jitter \<and> jitter < 0.5 \<and> 50 \<le> speed \<and> speed < 150
             \<and> size_name f = ns
             \<and> velocity f =
                 Vector2D_add (fromAngle (pi * 2 * real (i + 0) / real_of_int c + jitter) speed)
                   (velocity a)
             \<and> position f =
                 Vector2D_add (position a)
                   (fromAngle (pi * 2 * real (i + 0) / real_of_int c + jitter) (Asteroid.radius a * 0.5))"
    apply (rule exI[of _ "r 0 - 0.5"])
    apply (rule exI[of _ ?speed])
    using r0 ff by simp
  show ?case
  proof (intro conjI allI impI)
    show "length (fst (splitLoop a ns c (Suc n) i r)) = Suc n" using res ih by simp
    show "valid_random (snd (splitLoop a ns c (Suc n) i r))" using res ih by simp
  next
    fix k assume k: "k < Suc n"
    show "\<exists>jitter speed. - 0.5 \<le> jitter \<and> jitter < 0.5 \<and> 50 \<le> speed \<and> speed < 150
             \<and> size_name (fst (splitLoop a ns c (Suc n) i r) ! k) = ns
             \<and> velocity (fst (splitLoop a ns c (Suc n) i r) ! k) =
                 Vector2D_add (fromAngle (pi * 2 * real (i + k) / real_of_int c + jitter) speed)
                   (velocity a)
             \<and> position (fst (splitLoop a ns c (Suc n) i r) ! k) =
                 Vector2D_add (position a)
                   (fromAngle (pi * 2 * real (i + k) / real_of_int c + jitter) (Asteroid.radius a * 0.5))"
    proof (cases k)
      case 0
      then show ?thesis using head res by simp
    next
      case (Suc k')
      then have "k' < n" using k by simp
      then show ?thesis using ih(3) res Suc by simp
    qed
  qed
qed


lemma indexOf_sizes:
  "indexOf sizeHierarchy Huge = 0" "indexOf sizeHierarchy Large = 1"
  "indexOf sizeHierarchy Medium = 2" "indexOf sizeHierarchy Small = 3"
  by (simp_all add: sizeHierarchy_def)

lemma next_sizes:
  "at_index sizeHierarchy 1 = Some Large" "at_index sizeHierarchy 2 = Some Medium"
  "at_index sizeHierarchy 3 = Some Small" "length sizeHierarchy = 4"
  by (simp_all add: sizeHierarchy_def at_index_def)

lemma count_range:
  assumes "valid_random r"
  shows "nat (2 + \<lfloor>r 0 * 2\<rfloor>) = 2 \<or> nat (2 + \<lfloor>r 0 * 2\<rfloor>) = 3"
proof -
  have "0 \<le> r 0" "r 0 < 1" using assms valid_random_0 by blast+
  then have "0 \<le> \<lfloor>r 0 * 2\<rfloor>" "\<lfloor>r 0 * 2\<rfloor> < 2" by (simp_all add: floor_less_iff)
  then show ?thesis by linarith
qed

lemma split_next:
  assumes "valid_random r" "indexOf sizeHierarchy (size_name a) = i"
    "at_index sizeHierarchy (i + 1) = Some ns" "i < 3"
  shows "(length (fst (Asteroid_split a r)) = 2 \<or> length (fst (Asteroid_split a r)) = 3)
       \<and> (\<forall>k<length (fst (Asteroid_split a r)).
             \<exists>jitter speed. - 0.5 \<le> jitter \<and> jitter < 0.5 \<and> 50 \<le> speed \<and> speed < 150
             \<and> size_name (fst (Asteroid_split a r) ! k) = ns
             \<and> velocity (fst (Asteroid_split a r) ! k) =
                 Vector2D_add
                   (fromAngle (pi * 2 * real k / real (length (fst (Asteroid_split a r))) + jitter)
                      speed)
                   (velocity a)
             \<and> position (fst (Asteroid_split a r) ! k) =
                 Vector2D_add (position a)
                   (fromAngle (pi * 2 * real k / real (length (fst (Asteroid_split a r))) + jitter)
                      (Asteroid.radius a * 0.5)))"
proof -
  let ?c = "2 + \<lfloor>r 0 * 2\<rfloor>"
  have sp: "Asteroid_split a r = splitLoop a ns ?c (nat ?c) 0 (rest r)"
    using assms(2,3,4) by (simp add: Asteroid_split_def Let_def next_sizes)
  have c: "nat ?c = 2 \<or> nat ?c = 3" using count_range[OF assms(1)] .
  have cr: "real_of_int ?c = real (nat ?c)" using c by linarith
  have L: "length (fst (splitLoop a ns ?c (nat ?c) 0 (rest r))) = nat ?c
       \<and> valid_random (snd (splitLoop a ns ?c (nat ?c) 0 (rest r)))
       \<and> (\<forall>k<nat ?c. \<exists>jitter speed. - 0.5 \<le> jitter \<and> jitter < 0.5 \<and> 50 \<le> speed \<and> speed < 150
             \<and> size_name (fst (splitLoop a ns ?c (nat ?c) 0 (rest r)) ! k) = ns
             \<and> velocity (fst (splitLoop a ns ?c (nat ?c) 0 (rest r)) ! k) =
                 Vector2D_add (fromAngle (pi * 2 * real (0 + k) / real_of_int ?c + jitter) speed)
                   (velocity a)
             \<and> position (fst (splitLoop a ns ?c (nat ?c) 0 (rest r)) ! k) =
                 Vector2D_add (position a)
                   (fromAngle (pi * 2 * real (0 + k) / real_of_int ?c + jitter) (Asteroid.radius a * 0.5)))"
    using splitLoop_fragments[OF valid_random_rest[OF assms(1)]] by blast
  have len: "length (fst (Asteroid_split a r)) = nat ?c" using L sp by simp
  show ?thesis
    unfolding len using L c unfolding sp cr by simp
qed

lemma split_fragments_vectors:
  assumes "valid_random r"
  shows "(size_name a = Small \<longrightarrow> fst (Asteroid_split a r) = [])
   \<and> (size_name a = Medium \<or> size_name a = Large \<or> size_name a = Huge \<longrightarrow>
        (length (fst (Asteroid_split a r)) = 2 \<or> length (fst (Asteroid_split a r)) = 3)
        \<and> (\<forall>k<length (fst (Asteroid_split a r)).
             \<exists>jitter speed. - 0.5 \<le> jitter \<and> jitter < 0.5 \<and> 50 \<le> speed \<and> speed < 150
             \<and> size_name (fst (Asteroid_split a r) ! k) =
                 (if size_name a = Medium then Small
                  else if size_name a = Large then Medium else Large)
             \<and> velocity (fst (Asteroid_split a r) ! k) =
                 Vector2D_add
                   (fromAngle (pi * 2 * real k / real (length (fst (Asteroid_split a r))) + jitter)
                      speed)
                   (velocity a)
             \<and> position (fst (Asteroid_split a r) ! k) =
                 Vector2D_add (position a)
                   (fromAngle (pi * 2 * real k / real (length (fst (Asteroid_split a r))) + jitter)
                      (Asteroid.radius a * 0.5))))"
proof (intro conjI impI)
  assume "size_name a = Small"
  then show "fst (Asteroid_split a r) = []"
    by (simp add: Asteroid_split_def indexOf_sizes next_sizes)
next
  assume s: "size_name a = Medium \<or> size_name a = Large \<or> size_name a = Huge"
  then show "length (fst (Asteroid_split a r)) = 2 \<or> length (fst (Asteroid_split a r)) = 3"
    using split_next[OF assms, of a] indexOf_sizes next_sizes by fastforce
next
  assume s: "size_name a = Medium \<or> size_name a = Large \<or> size_name a = Huge"
  consider "size_name a = Medium" | "size_name a = Large" | "size_name a = Huge"
    using s by blast
  then show "\<forall>k<length (fst (Asteroid_split a r)).
             \<exists>jitter speed. - 0.5 \<le> jitter \<and> jitter < 0.5 \<and> 50 \<le> speed \<and> speed < 150
             \<and> size_name (fst (Asteroid_split a r) ! k) =
                 (if size_name a = Medium then Small
                  else if size_name a = Large then Medium else Large)
             \<and> velocity (fst (Asteroid_split a r) ! k) =
                 Vector2D_add
                   (fromAngle (pi * 2 * real k / real (length (fst (Asteroid_split a r))) + jitter)
                      speed)
                   (velocity a)
             \<and> position (fst (Asteroid_split a r) ! k) =
                 Vector2D_add (position a)
                   (fromAngle (pi * 2 * real k / real (length (fst (Asteroid_split a r))) + jitter)
                      (Asteroid.radius a * 0.5))"
  proof cases
    case 1
    then show ?thesis
      using split_next[OF assms, of a 2 "Small"] by (simp add: indexOf_sizes next_sizes)
  next
    case 2
    then show ?thesis
      using split_next[OF assms, of a 1 "Medium"] by (simp add: indexOf_sizes next_sizes)
  next
    case 3
    then show ?thesis
      using split_next[OF assms, of a 0 "Large"] by (simp add: indexOf_sizes next_sizes)
  qed
qed

lemma new_Asteroid_size: "size_name (fst (new_Asteroid x y sz vel r)) = sz"
  by (simp add: new_Asteroid_def Let_def PhysicsBody.extend_def split: prod.splits)

lemma new_Asteroid_radius: "Asteroid.radius (fst (new_Asteroid x y sz vel r)) = sizeMap sz"
  by (simp add: new_Asteroid_def Let_def PhysicsBody.extend_def split: prod.splits)

lemma split_first:
  assumes "valid_random r" "indexOf sizeHierarchy (size_name a) = i"
    "at_index sizeHierarchy (i + 1) = Some ns" "i < 3"
  shows "velocity (fst (Asteroid_split a r) ! 0) =
           \<lparr>vx = cos (rest r 0 - 0.5) * (50 + rest (rest r) 0 * 100) + vx (velocity a),
            vy = sin (rest r 0 - 0.5) * (50 + rest (rest r) 0 * 100) + vy (velocity a)\<rparr>
       \<and> position (fst (Asteroid_split a r) ! 0) =
           \<lparr>vx = vx (position a) + cos (rest r 0 - 0.5) * (Asteroid.radius a * 0.5),
            vy = vy (position a) + sin (rest r 0 - 0.5) * (Asteroid.radius a * 0.5)\<rparr>"
proof -
  let ?c = "2 + \<lfloor>r 0 * 2\<rfloor>"
  let ?r = "rest r"
  have sp: "Asteroid_split a r = splitLoop a ns ?c (nat ?c) 0 ?r"
    using assms(2,3,4) by (simp add: Asteroid_split_def Let_def next_sizes)
  obtain n where n: "nat ?c = Suc n"
    using count_range[OF assms(1)] by (metis numeral_2_eq_2 numeral_3_eq_3)
  let ?angle = "(pi * 2 * real (0::nat)) / real_of_int ?c + (?r 0 - 0.5)"
  let ?speed = "50 + rest ?r 0 * 100"
  let ?vel = "Vector2D_add (fromAngle ?angle ?speed) (velocity a)"
  let ?pos = "Vector2D_add (position a) (fromAngle ?angle (Asteroid.radius a * 0.5))"
  obtain f r1 where f: "new_Asteroid (vx ?pos) (vy ?pos) ns (Some ?vel) (rest (rest ?r)) = (f, r1)"
    by force
  obtain fs r2 where fs: "splitLoop a ns ?c n (Suc 0) r1 = (fs, r2)" by force
  have vrr: "valid_random (rest (rest ?r))" using assms(1) by (simp add: valid_random_rest)
  have ff: "velocity f = ?vel" "position f = ?pos"
    using new_Asteroid_fields[OF vrr f] by simp_all
  have res: "splitLoop a ns ?c (Suc n) 0 ?r = (f # fs, r2)"
    unfolding splitLoop.simps Let_def f prod.case fs by (rule refl)
  show ?thesis
    unfolding sp n res using ff by (simp add: fromAngle_def Vector2D_add_def)
qed

text \<open>
  Claim C4. With \<open>Math.random\<close> in \<open>[0, 1)\<close>: \<open>split()\<close> of a small asteroid is empty; of a
  medium, large or huge asteroid it is 2 or 3 fragments of the next smaller class, the
  \<open>k\<close>-th launched at the angle \<open>t = 2 pi k / count + jitter\<close> with the jitter in
  \<open>[-0.5, 0.5)\<close>: its velocity is the parent's plus the kick \<open>(cos t, sin t) * speed\<close> with the
  speed in \<open>[50, 150)\<close>, and its position is the parent's plus
  \<open>(cos t, sin t) * radius / 2\<close>. For the first fragment the jitter is the second random
  number less 0.5 and the speed is 50 plus 100 times the third.
\<close>

theorem split_fragments:
  assumes "valid_random r"
  shows "(size_name a = Small \<longrightarrow> fst (Asteroid_split a r) = [])
   \<and> (size_name a = Medium \<or> size_name a = Large \<or> size_name a = Huge \<longrightarrow>
        (length (fst (Asteroid_split a r)) = 2 \<or> length (fst (Asteroid_split a r)) = 3)
        \<and> (\<forall>k<length (fst (Asteroid_split a r)).
             \<exists>jitter speed. - 0.5 \<le> jitter \<and> jitter < 0.5 \<and> 50 \<le> speed \<and> speed < 150
             \<and> size_name (fst (Asteroid_split a r) ! k) =
                 (if size_name a = Medium then Small
                  else if size_name a = Large then Medium else Large)
             \<and> velocity (fst (Asteroid_split a r) ! k) =
                 \<lparr>vx = vx (velocity a)
                     + cos (pi * 2 * real k / real (length (fst (Asteroid_split a r))) + jitter)
                       * speed,
                  vy = vy (velocity a)
                     + sin (pi * 2 * real k / real (length (fst (Asteroid_split a r))) + jitter)
                       * speed\<rparr>
             \<and> position (fst (Asteroid_split a r) ! k) =
                 \<lparr>vx = vx (position a)
                     + cos (pi * 2 * real k / real (length (fst (Asteroid_split a r))) + jitter)
                       * (Asteroid.radius a * 0.5),
                  vy = vy (position a)
                     + sin (pi * 2 * real k / real (length (fst (Asteroid_split a r))) + jitter)
                       * (Asteroid.radius a * 0.5)\<rparr>)
        \<and> velocity (fst (Asteroid_split a r) ! 0) =
            \<lparr>vx = vx (velocity a) + cos (rest r 0 - 0.5) * (50 + rest (rest r) 0 * 100),
             vy = vy (velocity a) + sin (rest r 0 - 0.5) * (50 + rest (rest r) 0 * 100)\<rparr>
        \<and> position (fst (Asteroid_split a r) ! 0) =
            \<lparr>vx = vx (position a) + cos (rest r 0 - 0.5) * (Asteroid.radius a * 0.5),
             vy = vy (position a) + sin (rest r 0 - 0.5) * (Asteroid.radius a * 0.5)\<rparr>)"
proof -
  have v: "\<And>t m w. Vector2D_add (fromAngle t m) w = \<lparr>vx = vx w + cos t * m, vy = vy w + sin t * m\<rparr>"
    "\<And>t m w. Vector2D_add w (fromAngle t m) = \<lparr>vx = vx w + cos t * m, vy = vy w + sin t * m\<rparr>"
    by (simp_all add: fromAngle_def Vector2D_add_def)
  have first: "size_name a = Medium \<or> size_name a = Large \<or> size_name a = Huge \<Longrightarrow>
      velocity (fst (Asteroid_split a r) ! 0) =
            \<lparr>vx = vx (velocity a) + cos (rest r 0 - 0.5) * (50 + rest (rest r) 0 * 100),
             vy = vy (velocity a) + sin (rest r 0 - 0.5) * (50 + rest (rest r) 0 * 100)\<rparr>
        \<and> position (fst (Asteroid_split a r) ! 0) =
            \<lparr>vx = vx (position a) + cos (rest r 0 - 0.5) * (Asteroid.radius a * 0.5),
             vy = vy (position a) + sin (rest r 0 - 0.5) * (Asteroid.radius a * 0.5)\<rparr>"
    using split_first[OF assms, of a 2 Small] split_first[OF assms, of a 1 Medium]
      split_first[OF assms, of a 0 Large]
    by (auto simp add: indexOf_sizes next_sizes add.commute)
  show ?thesis
    using split_fragments_vectors[OF assms, of a] first unfolding v by blast
qed

text \<open>
  A medium asteroid at \<open>(100, 200)\<close> with the velocity \<open>(10, 20)\<close> and every random number
  0.5: three small fragments, the first launched at the angle 0 with the speed 100, so with
  the velocity \<open>(110, 20)\<close>, at \<open>(117.5, 200)\<close> (the radius of a medium asteroid is 35). A
  small asteroid gives none.
\<close>

theorem split_fragments_witness:
  "valid_random (\<lambda>_. 1 / 2)
   \<and> size_name (fst (new_Asteroid 100 200 Medium (Some \<lparr>vx = 10, vy = 20\<rparr>) (\<lambda>_. 1 / 2))) = Medium
   \<and> length (fst (Asteroid_split
        (fst (new_Asteroid 100 200 Medium (Some \<lparr>vx = 10, vy = 20\<rparr>) (\<lambda>_. 1 / 2))) (\<lambda>_. 1 / 2))) = 3
   \<and> size_name (fst (Asteroid_split
        (fst (new_Asteroid 100 200 Medium (Some \<lparr>vx = 10, vy = 20\<rparr>) (\<lambda>_. 1 / 2))) (\<lambda>_. 1 / 2)) ! 0)
       = Small
   \<and> velocity (fst (Asteroid_split
        (fst (new_Asteroid 100 200 Medium (Some \<lparr>vx = 10, vy = 20\<rparr>) (\<lambda>_. 1 / 2))) (\<lambda>_. 1 / 2)) ! 0)
       = \<lparr>vx = 110, vy = 20\<rparr>
   \<and> position (fst (Asteroid_split
        (fst (new_Asteroid 100 200 Medium (Some \<lparr>vx = 10, vy = 20\<rparr>) (\<lambda>_. 1 / 2))) (\<lambda>_. 1 / 2)) ! 0)
       = \<lparr>vx = 117.5, vy = 200\<rparr>
   \<and> fst (Asteroid_split (fst (new_Asteroid 0 0 Small None (\<lambda>_. 1 / 2))) (\<lambda>_. 1 / 2)) = []"
proof -
  let ?r = "\<lambda>_::nat. 1 / 2 :: real"
  let ?a = "fst (new_Asteroid 100 200 Medium (Some \<lparr>vx = 10, vy = 20\<rparr>) ?r)"
  let ?s = "fst (new_Asteroid 0 0 Small None ?r)"
  have v: "valid_random ?r" by (simp add: valid_random_def)
  have sz: "size_name ?a = Medium" "size_name ?s = Small"
    by (simp_all add: new_Asteroid_size)
  have a: "velocity ?a = \<lparr>vx = 10, vy = 20\<rparr>" "position ?a = \<lparr>vx = 100, vy = 200\<rparr>"
    "Asteroid.radius ?a = 35"
    using new_Asteroid_fields[OF v, of 100 200 Medium "\<lparr>vx = 10, vy = 20\<rparr>" ?a
        "snd (new_Asteroid 100 200 Medium (Some \<lparr>vx = 10, vy = 20\<rparr>) ?r)"]
    by (simp_all add: new_Asteroid_radius)
  have len: "length (fst (Asteroid_split ?a ?r)) = 3"
    using splitLoop_fragments[OF valid_random_rest[OF v], of ?a "Small" 3 3 0]
    by (simp add: Asteroid_split_def Let_def sz indexOf_sizes next_sizes)
  from split_fragments[OF v, of ?a] sz(1)
  have m: "(\<forall>k<length (fst (Asteroid_split ?a ?r)).
             \<exists>jitter speed. size_name (fst (Asteroid_split ?a ?r) ! k) = Small)"
    "velocity (fst (Asteroid_split ?a ?r) ! 0) =
            \<lparr>vx = vx (velocity ?a) + cos (rest ?r 0 - 0.5) * (50 + rest (rest ?r) 0 * 100),
             vy = vy (velocity ?a) + sin (rest ?r 0 - 0.5) * (50 + rest (rest ?r) 0 * 100)\<rparr>"
    "position (fst (Asteroid_split ?a ?r) ! 0) =
            \<lparr>vx = vx (position ?a) + cos (rest ?r 0 - 0.5) * (Asteroid.radius ?a * 0.5),
             vy = vy (position ?a) + sin (rest ?r 0 - 0.5) * (Asteroid.radius ?a * 0.5)\<rparr>"
    by auto
  have "size_name (fst (Asteroid_split ?a ?r) ! 0) = Small" using m(1) len by auto
  moreover have "velocity (fst (Asteroid_split ?a ?r) ! 0) = \<lparr>vx = 110, vy = 20\<rparr>"
    using m(2) a by (simp add: rest_def)
  moreover have "position (fst (Asteroid_split ?a ?r) ! 0) = \<lparr>vx = 117.5, vy = 200\<rparr>"
    using m(3) a by (simp add: rest_def)
  moreover from split_fragments[OF v, of ?s] sz
  have "fst (Asteroid_split ?s ?r) = []" by simp
  ultimately show ?thesis using v sz len by simp
qed

section \<open>What the parts of an update step keep\<close>

lemma bossRel_refl: "bossRel e e"
  by (simp add: bossRel_def)

lemma bossRel_trans: "bossRel e e1 \<Longrightarrow> bossRel e1 e2 \<Longrightarrow> bossRel e e2"
  by (auto simp add: bossRel_def)

lemma keep_refl: "keep e e"
  by (simp add: keep_def)

lemma keep_trans: "keep e e1 \<Longrightarrow> keep e1 e2 \<Longrightarrow> keep e e2"
  by (simp add: keep_def)

lemma frame_refl: "frame e e"
  by (simp add: frame_def bossRel_refl keep_refl)

lemma frame_trans: "frame e e1 \<Longrightarrow> frame e1 e2 \<Longrightarrow> frame e e2"
  using bossRel_trans keep_trans by (auto simp add: frame_def)

lemma frame0_refl: "frame0 e e"
  by (simp add: frame0_def keep_refl)

lemma frame0_trans: "frame0 e e1 \<Longrightarrow> frame0 e1 e2 \<Longrightarrow> frame0 e e2"
  using keep_trans by (auto simp add: frame0_def)

lemma bossRel_same:
  "asteroids e' = asteroids e \<Longrightarrow> bossSystem e' = bossSystem e \<Longrightarrow> bossRel e e'"
  by (simp add: bossRel_def)

lemma bossCount_append: "bossCount (xs @ ys) = bossCount xs + bossCount ys"
  by (simp add: bossCount_def)

lemma bossCount_update:
  "i < length xs \<Longrightarrow> isBoss a = isBoss (xs ! i) \<Longrightarrow> bossCount (xs[i := a]) = bossCount xs"
proof (induction xs arbitrary: i)
  case Nil
  then show ?case by simp
next
  case (Cons x xs)
  then show ?case by (cases i) (auto simp add: bossCount_def)
qed

lemma bossCount_removeAt:
  "i < length xs \<Longrightarrow>
   bossCount (removeAt i xs) + (if isBoss (xs ! i) then 1 else 0) = bossCount xs"
proof (induction xs arbitrary: i)
  case Nil
  then show ?case by simp
next
  case (Cons x xs)
  show ?case
  proof (cases i)
    case 0
    then show ?thesis by (simp add: bossCount_def removeAt_def)
  next
    case (Suc k)
    then have "k < length xs" using Cons.prems by simp
    from Cons.IH[OF this] Suc show ?thesis
      by (simp add: bossCount_def removeAt_def)
  qed
qed

lemma bossCount_none: "\<forall>a\<in>set xs. \<not> isBoss a \<Longrightarrow> bossCount xs = 0"
  by (simp add: bossCount_def)

lemma bossCount_map: "(\<And>a. isBoss (f a) = isBoss a) \<Longrightarrow> bossCount (map f xs) = bossCount xs"
  by (induction xs) (auto simp add: bossCount_def)

lemma new_Asteroid_not_boss: "\<not> isBoss (fst (new_Asteroid x y sz vel r))"
  by (simp add: new_Asteroid_def Let_def PhysicsBody.extend_def split: prod.splits)

lemma new_Asteroid_not_boss': "new_Asteroid x y sz vel r = (f, r') \<Longrightarrow> \<not> isBoss f"
  using new_Asteroid_not_boss[of x y sz vel r] by simp

lemma splitLoop_not_boss: "\<forall>f\<in>set (fst (splitLoop a ns c n i r)). \<not> isBoss f"
proof (induction n arbitrary: i r)
  case 0
  then show ?case by simp
next
  case (Suc n)
  let ?angle = "(pi * 2 * real i) / real_of_int c + (r 0 - 0.5)"
  let ?speed = "50 + rest r 0 * 100"
  let ?vel = "Vector2D_add (fromAngle ?angle ?speed) (velocity a)"
  let ?pos = "Vector2D_add (position a) (fromAngle ?angle (Asteroid.radius a * 0.5))"
  obtain f r1 where f: "new_Asteroid (vx ?pos) (vy ?pos) ns (Some ?vel) (rest (rest r)) = (f, r1)"
    by force
  obtain fs r2 where fs: "splitLoop a ns c n (Suc i) r1 = (fs, r2)" by force
  have res: "splitLoop a ns c (Suc n) i r = (f # fs, r2)"
    unfolding splitLoop.simps Let_def f prod.case fs by (rule refl)
  have "\<not> isBoss f" using new_Asteroid_not_boss'[OF f] .
  moreover have "\<forall>f\<in>set fs. \<not> isBoss f" using Suc.IH[of "Suc i" r1] fs by simp
  ultimately show ?case using res by simp
qed

lemma split_not_boss: "\<forall>f\<in>set (fst (Asteroid_split a r)). \<not> isBoss f"
  using splitLoop_not_boss
  by (simp add: Asteroid_split_def Let_def split: option.splits)

lemma split_bossCount: "Asteroid_split a r = (fs, r') \<Longrightarrow> bossCount fs = 0"
  using split_not_boss[of a r] by (simp add: bossCount_none)

lemma takeDamage_isBoss:
  "Asteroid_takeDamage a amount r = ((a', d), r') \<Longrightarrow> isBoss a' = isBoss a"
  by (auto simp add: Asteroid_takeDamage_def Let_def split: if_splits)

lemma PhysicsBody_update_more:
  "PhysicsBody_update b dt = Some b' \<Longrightarrow> PhysicsBody.more b' = PhysicsBody.more b"
  by (auto simp add: PhysicsBody_update_def Let_def split: if_splits option.splits)

lemma Asteroid_update_isBoss:
  fixes a :: Asteroid
  shows "PhysicsBody_update a dt = Some a' \<Longrightarrow> isBoss a' = isBoss a"
  by (auto simp add: PhysicsBody_update_def Let_def split: if_splits option.splits)

lemma frame0_frame: "frame0 e e' \<Longrightarrow> frame e e'"
  by (simp add: frame0_def frame_def bossRel_same)

lemma spawnPowerUp_frame0: "frame0 e (spawnPowerUp e x y)"
  by (simp add: spawnPowerUp_def Let_def frame0_def keep_def split: prod.splits)

lemma bossPowerUps_frame0: "frame0 e (bossPowerUps n a e)"
proof (induction n arbitrary: e)
  case 0
  then show ?case by (simp add: frame0_refl)
next
  case (Suc n)
  let ?e1 = "e\<lparr>random := rest (rest (random e))\<rparr>"
  have 1: "frame0 e ?e1" by (simp add: frame0_def keep_def)
  show ?case
    by (simp add: Let_def) (blast intro: frame0_trans 1 spawnPowerUp_frame0 Suc.IH)
qed

lemma heal_position: "position (heal p amount) = position p"
  by (simp add: heal_def)

lemma autoUpgrade_frame0: "frame0 e (autoUpgrade e)"
  by (simp add: autoUpgrade_def Let_def frame0_def keep_def heal_position)

lemma levelUpLoop_frame0: "levelUpLoop e = Some e' \<Longrightarrow> frame0 e e'"
proof (induction rule: levelUpLoop.raw_induct[rotated 1, consumes 1])
  case (1 f e e')
  show ?case
  proof (cases "experience (upgradeSystem e) \<ge> experienceToNext (upgradeSystem e)")
    case True
    let ?e1 = "e\<lparr>upgradeSystem := (upgradeSystem e)
                   \<lparr>experience := experience (upgradeSystem e) - experienceToNext (upgradeSystem e),
                    level := level (upgradeSystem e) + 1,
                    skillPoints := skillPoints (upgradeSystem e) + 1,
                    experienceToNext :=
                      real_of_int \<lfloor>experienceToNext (upgradeSystem e) * 1.5\<rfloor>\<rparr>\<rparr>"
    have a: "frame0 e ?e1" by (simp add: frame0_def keep_def)
    have b: "frame0 ?e1 (autoUpgrade ?e1)" by (rule autoUpgrade_frame0)
    have "f (autoUpgrade ?e1) = Some e'" using 1(2) True by simp
    then have c: "frame0 (autoUpgrade ?e1) e'" by (rule 1(1))
    show ?thesis using a b c frame0_trans by blast
  next
    case False
    then show ?thesis using 1(2) by (simp add: frame0_refl)
  qed
qed

lemma addExperience_frame0: "addExperience e amount = Some e' \<Longrightarrow> frame0 e e'"
proof -
  assume a: "addExperience e amount = Some e'"
  let ?e1 = "e\<lparr>upgradeSystem := (upgradeSystem e)
             \<lparr>experience := experience (upgradeSystem e) + amount\<rparr>\<rparr>"
  have "frame0 e ?e1" by (simp add: frame0_def keep_def)
  moreover have "frame0 ?e1 e'" using a levelUpLoop_frame0 by (simp add: addExperience_def)
  ultimately show ?thesis by (rule frame0_trans)
qed

lemma activateShield_position: "position (activateShield p) = position p"
  by (simp add: activateShield_def)

lemma applyPowerUp_frame0: "applyPowerUp e pu = Some e' \<Longrightarrow> frame0 e e'"
  by (cases "PowerUp.type pu")
     (auto simp add: applyPowerUp_def Let_def frame0_def keep_def heal_position
        activateShield_position split: option.splits)

lemma collectPowerUp_frame0: "collectPowerUp e pu = Some e' \<Longrightarrow> frame0 e e'"
proof -
  assume a: "collectPowerUp e pu = Some e'"
  then obtain e1 where e1: "applyPowerUp e pu = Some e1"
    and ax: "addExperience (e1\<lparr>score := score e1 + \<lfloor>50 * multiplier (comboSystem e1)\<rfloor>\<rparr>) 5 = Some e'"
    by (auto simp add: collectPowerUp_def split: option.splits)
  have "frame0 e1 (e1\<lparr>score := score e1 + \<lfloor>50 * multiplier (comboSystem e1)\<rfloor>\<rparr>)"
    by (simp add: frame0_def keep_def)
  then show ?thesis
    using applyPowerUp_frame0[OF e1] addExperience_frame0[OF ax] frame0_trans by blast
qed

lemma frame1_refl: "frame1 e e"
  by (simp add: frame1_def keep_refl)

lemma frame1_trans: "frame1 e e1 \<Longrightarrow> frame1 e1 e2 \<Longrightarrow> frame1 e e2"
  using keep_trans by (auto simp add: frame1_def)

lemma frame0_frame1: "frame0 e e' \<Longrightarrow> frame1 e e'"
  by (simp add: frame0_def frame1_def)

lemma frame1_frame: "frame1 e e' \<Longrightarrow> frame e e'"
  by (simp add: frame1_def frame_def bossRel_def)

lemma bossCount_removeAt_le: "i < length xs \<Longrightarrow> bossCount (removeAt i xs) \<le> bossCount xs"
  using bossCount_removeAt[of i xs] by (simp split: if_splits)

lemma chainStep_frame1:
  assumes "chainStep i pos rad e = Some e'"
  shows "frame1 e e'"
proof -
  have i: "i < length (asteroids e)"
    using assms by (simp add: chainStep_def split: if_splits)
  let ?a = "asteroids e ! i"
  obtain a1 damaged r where td: "Asteroid_takeDamage ?a 20 (random e) = ((a1, damaged), r)"
    by (metis surj_pair)
  have b1: "isBoss a1 = isBoss ?a" using takeDamage_isBoss[OF td] .
  let ?e1 = "e\<lparr>asteroids := (asteroids e)[i := a1], random := r\<rparr>"
  have f1: "frame1 e ?e1"
    using i b1 by (simp add: frame1_def keep_def bossCount_update)
  let ?e2 = "?e1\<lparr>score := score ?e1
                    + \<lfloor>chainScoreMap (size_name a1) * multiplier (comboSystem ?e1)\<rfloor>,
                  kills := kills ?e1 + 1\<rparr>"
  obtain fragments r' where sp: "Asteroid_split a1 (random ?e2) = (fragments, r')"
    by force
  let ?e3 = "?e2\<lparr>asteroids := removeAt i (asteroids ?e2) @ fragments, random := r',
                  pendingChainReactions :=
                    pendingChainReactions ?e2 @ [(position a1, rad * 0.7)]\<rparr>"
  have f3: "frame1 ?e1 ?e3"
    using i split_bossCount[OF sp] bossCount_removeAt_le[of i "(asteroids e)[i := a1]"]
    by (simp add: frame1_def keep_def bossCount_append)
  consider (far) "\<not> distanceTo pos (position ?a) < rad"
    | (hurt) "distanceTo pos (position ?a) < rad" "\<not> damaged"
    | (dead) "distanceTo pos (position ?a) < rad" "damaged" by blast
  then show ?thesis
  proof cases
    case far
    then have "e' = e" using assms i by (simp add: chainStep_def Let_def)
    then show ?thesis by (simp add: frame1_refl)
  next
    case hurt
    then have "e' = ?e1" using assms i td by (simp add: chainStep_def Let_def)
    then show ?thesis using f1 by simp
  next
    case dead
    then have "e' = ?e3" using assms i td sp by (simp add: chainStep_def Let_def)
    then show ?thesis using f1 f3 frame1_trans by blast
  qed
qed

lemma chainLoop_frame1: "chainLoop n pos rad e = Some e' \<Longrightarrow> frame1 e e'"
proof (induction n arbitrary: e)
  case 0
  then show ?case by (simp add: frame1_refl)
next
  case (Suc n)
  then obtain e1 where e1: "chainStep n pos rad e = Some e1" "chainLoop n pos rad e1 = Some e'"
    by (auto split: option.splits)
  show ?case using chainStep_frame1[OF e1(1)] Suc.IH[OF e1(2)] frame1_trans by blast
qed

lemma checkChainReaction_frame1: "checkChainReaction e pos rad = Some e' \<Longrightarrow> frame1 e e'"
  using chainLoop_frame1 by (simp add: checkChainReaction_def)

lemma increaseCombo_frame0: "frame0 e (increaseCombo e)"
  by (simp add: increaseCombo_def Let_def frame0_def keep_def)

lemma scoreKill_frame0: "scoreKill a e = Some (e', b) \<Longrightarrow> frame0 e e'"
  using increaseCombo_frame0[of e]
  by (auto simp add: scoreKill_def Let_def frame0_def keep_def split: option.splits if_splits)

lemma killed_frame:
  assumes "killed j a e = Some e'" "j < length (asteroids e)" "asteroids e ! j = a"
  shows "frame e e'"
proof -
  obtain e2 baseScore e3 where
    sk: "scoreKill a e = Some (e2, baseScore)" and
    ax: "addExperience e2 (baseScore / 10) = Some e3"
    using assms(1) by (auto simp add: killed_def split: option.splits)
  have f3: "frame0 e e3"
    using scoreKill_frame0[OF sk] addExperience_frame0[OF ax] frame0_trans by blast
  then have as3: "asteroids e3 = asteroids e" "bossSystem e3 = bossSystem e" "keep e e3"
    by (simp_all add: frame0_def)
  show ?thesis
  proof (cases "isBoss a")
    case True
    let ?e3' = "e3\<lparr>bossSystem := (bossSystem e3)\<lparr>active := False, boss := None\<rparr>\<rparr>"
    let ?e4 = "bossPowerUps 3 a ?e3'"
    let ?e5 = "?e4\<lparr>asteroids := removeAt j (asteroids ?e4)\<rparr>"
    have k4: "frame0 ?e3' ?e4" by (rule bossPowerUps_frame0)
    then have as4: "asteroids ?e4 = asteroids e" "\<not> bossSystem.active (bossSystem ?e4)"
      "keep e ?e4"
      using as3 keep_trans[of e ?e3' ?e4] by (simp_all add: frame0_def keep_def)
    have ch: "checkChainReaction ?e5 (position a) (Asteroid.radius a * 2) = Some e'"
      using assms(1) True by (simp add: killed_def sk ax Let_def)
    have f5: "frame1 ?e5 e'" using checkChainReaction_frame1[OF ch] .
    have cnt: "bossCount (asteroids ?e5) < bossCount (asteroids e)"
      using bossCount_removeAt[OF assms(2)] assms(3) True as4(1) by simp
    have k5: "keep e ?e5" using as4(3) by (simp add: keep_def)
    have "\<not> bossSystem.active (bossSystem ?e5)" using as4(2) by simp
    then show ?thesis
      using f5 cnt k5 keep_trans[of e ?e5 e']
      by (auto simp add: frame_def frame1_def bossRel_def)
  next
    case False
    obtain fragments r where sp: "Asteroid_split a (random e3) = (fragments, r)" by force
    let ?e' = "e3\<lparr>asteroids := removeAt j (asteroids e3) @ fragments, random := rest r\<rparr>"
    let ?e5 = "if r 0 < powerUpChance (config ?e') * multiplier (comboSystem ?e')
               then spawnPowerUp ?e' (vx (position a)) (vy (position a)) else ?e'"
    have ch: "checkChainReaction ?e5 (position a) (Asteroid.radius a * 2) = Some e'"
      using assms(1) False by (simp add: killed_def sk ax Let_def sp)
    have f': "frame1 e3 ?e'"
      using split_bossCount[OF sp] bossCount_removeAt_le[of j "asteroids e3"] assms(2) as3(1)
      by (simp add: frame1_def keep_def bossCount_append)
    have "frame1 ?e' ?e5"
      using spawnPowerUp_frame0[of ?e'] frame0_frame1 by (auto simp add: frame1_refl)
    then have "frame1 e e'"
      using f' frame0_frame1[OF f3] checkChainReaction_frame1[OF ch] frame1_trans by blast
    then show ?thesis by (rule frame1_frame)
  qed
qed

lemma hit_frame:
  assumes "hit i j e = Some e'" "j < length (asteroids e)"
  shows "frame e e'"
proof -
  obtain a destroyed r where
    td: "Asteroid_takeDamage (asteroids e ! j) (Projectile.damage (projectiles e ! i)) (random e)
           = ((a, destroyed), r)"
    by (metis surj_pair)
  let ?e1 = "e\<lparr>asteroids := (asteroids e)[j := a], random := r,
                 projectiles := removeAt i (projectiles e)\<rparr>"
  have f1: "frame1 e ?e1"
    using assms(2) takeDamage_isBoss[OF td]
    by (simp add: frame1_def keep_def bossCount_update)
  show ?thesis
  proof (cases destroyed)
    case True
    then have k: "killed j a ?e1 = Some e'" using assms(1) td by (simp add: hit_def Let_def)
    have "frame ?e1 e'" using assms(2) by (intro killed_frame[OF k]) simp_all
    then show ?thesis using frame1_frame[OF f1] frame_trans by blast
  next
    case False
    then have "e' = ?e1" using assms(1) td by (simp add: hit_def Let_def)
    then show ?thesis using frame1_frame[OF f1] by simp
  qed
qed

lemma hitLoop_frame: "hitLoop n i e = Some e' \<Longrightarrow> frame e e'"
proof (induction n)
  case 0
  then show ?case by (simp add: frame_refl)
next
  case (Suc j)
  then show ?case
    using hit_frame[of i j e e'] by (auto split: if_splits)
qed

lemma projectileStep_frame:
  assumes "projectileStep i dt e = Some e'"
  shows "frame e e'"
proof -
  obtain proj0 where p0: "Projectile_update (projectiles e ! i) dt = Some proj0"
    using assms by (auto simp add: projectileStep_def split: if_splits option.splits)
  let ?e1 = "e\<lparr>projectiles := (projectiles e)[i := steer e proj0 dt]\<rparr>"
  have f1: "frame0 e ?e1" by (simp add: frame0_def keep_def)
  have "frame ?e1 e'"
    using assms p0 hitLoop_frame[of "length (asteroids ?e1)" i ?e1 e']
    by (auto simp add: projectileStep_def Let_def frame_def keep_def bossRel_def
        split: if_splits)
  then show ?thesis using frame0_frame[OF f1] frame_trans by blast
qed

lemma projectileLoop_frame: "projectileLoop n dt e = Some e' \<Longrightarrow> frame e e'"
proof (induction n arbitrary: e)
  case 0
  then show ?case by (simp add: frame_refl)
next
  case (Suc n)
  then obtain e1 where e1: "projectileStep n dt e = Some e1" "projectileLoop n dt e1 = Some e'"
    by (auto split: option.splits)
  show ?case using projectileStep_frame[OF e1(1)] Suc.IH[OF e1(2)] frame_trans by blast
qed

lemma powerUpStep_frame0:
  assumes "powerUpStep i dt e = Some e'"
  shows "frame0 e e'"
proof -
  obtain pu0 where p0: "PowerUp_update (powerUps e ! i) dt = Some pu0"
    using assms by (auto simp add: powerUpStep_def split: if_splits option.splits)
  let ?e1 = "e\<lparr>powerUps := (powerUps e)[i := pu0]\<rparr>"
  let ?e2 = "?e1\<lparr>powerUps := (powerUps ?e1)[i := magnet ?e1 pu0 dt]\<rparr>"
  have f2: "frame0 e ?e2" by (simp add: frame0_def keep_def)
  have c: "\<And>e3. collectPowerUp ?e2 (magnet ?e1 pu0 dt) = Some e3 \<Longrightarrow>
                frame0 e (e3\<lparr>powerUps := removeAt i (powerUps e3)\<rparr>)"
  proof -
    fix e3 assume "collectPowerUp ?e2 (magnet ?e1 pu0 dt) = Some e3"
    from collectPowerUp_frame0[OF this] have "frame0 ?e2 e3" .
    moreover have "frame0 e3 (e3\<lparr>powerUps := removeAt i (powerUps e3)\<rparr>)"
      by (simp add: frame0_def keep_def)
    ultimately show "frame0 e (e3\<lparr>powerUps := removeAt i (powerUps e3)\<rparr>)"
      using f2 frame0_trans by blast
  qed
  show ?thesis
    using assms p0 c
    by (auto simp add: powerUpStep_def Let_def split: if_splits option.splits)
       (simp_all add: frame0_def keep_def)
qed

lemma powerUpLoop_frame0: "powerUpLoop n dt e = Some e' \<Longrightarrow> frame0 e e'"
proof (induction n arbitrary: e)
  case 0
  then show ?case by (simp add: frame0_refl)
next
  case (Suc n)
  then obtain e1 where e1: "powerUpStep n dt e = Some e1" "powerUpLoop n dt e1 = Some e'"
    by (auto split: option.splits)
  show ?case using powerUpStep_frame0[OF e1(1)] Suc.IH[OF e1(2)] frame0_trans by blast
qed

lemma resetCombo_frame0: "frame0 e (resetCombo e)"
  by (simp add: resetCombo_def Let_def frame0_def keep_def)

lemma updateComboTimer_frame0: "frame0 e (updateComboTimer e dt)"
  using resetCombo_frame0
  by (auto simp add: updateComboTimer_def Let_def frame0_def keep_def)

lemma updateWeaponTimer_frame0: "frame0 e (updateWeaponTimer e dt)"
  by (simp add: updateWeaponTimer_def Let_def frame0_def keep_def)

lemma pullAsteroid_isBoss: "isBoss (pullAsteroid h dt a) = isBoss a"
  by (simp add: pullAsteroid_def Let_def)

lemma updateBlackhole_frame1: "frame1 e (updateBlackhole i dt e)"
  by (simp add: updateBlackhole_def Let_def frame1_def keep_def bossCount_map pullAsteroid_isBoss
      split: option.splits)

lemma updateNebula_frame1: "frame1 e (updateNebula i e)"
  by (simp add: updateNebula_def Let_def frame1_def keep_def)

lemma updateMeteorShower_frame1: "frame1 e (updateMeteorShower i dt e)"
proof -
  let ?h2 = "(hazards e ! i)\<lparr>spawnTimer := 0\<rparr>"
  let ?r = "random e"
  obtain a r' where a: "new_Asteroid
      (vx (hazard.position ?h2) + (?r 0 - 0.5) * hazard.radius ?h2) (- 50) Small
      (Some \<lparr>vx = (rest ?r 0 - 0.5) * 100, vy = 200 + rest (rest ?r) 0 * 200\<rparr>)
      (rest (rest (rest ?r))) = (a, r')" by force
  have nb: "\<not> isBoss a" using new_Asteroid_not_boss'[OF a] .
  show ?thesis
    using nb a
    by (simp add: updateMeteorShower_def Let_def frame1_def keep_def bossCount_append
        bossCount_def)
qed

lemma updateHazard_frame1: "frame1 e (updateHazard i dt e)"
  by (simp add: updateHazard_def updateBlackhole_frame1 updateNebula_frame1
      updateMeteorShower_frame1 split: HazardType.splits)

lemma hazardStep_frame1:
  assumes "hazardStep i dt e = Some e'"
  shows "frame1 e e'"
proof -
  let ?h = "(hazards e ! i)\<lparr>hazard.timer := hazard.timer (hazards e ! i) + dt\<rparr>"
  let ?e1 = "e\<lparr>hazards := (hazards e)[i := ?h]\<rparr>"
  have f1: "frame1 e ?e1" by (simp add: frame1_def keep_def)
  have f2: "frame1 ?e1 (?e1\<lparr>hazards := removeAt i (hazards ?e1)\<rparr>)"
    by (simp add: frame1_def keep_def)
  have f3: "frame1 ?e1 (updateHazard i dt ?e1)" by (rule updateHazard_frame1)
  have i: "i < length (hazards e)"
    using assms by (simp add: hazardStep_def split: if_splits)
  show ?thesis
  proof (cases "hazard.timer ?h \<ge> hazard.duration ?h \<or>
                (mode (config ?e1) = ''lane-shooter'' \<and> vy (hazard.position ?h) > height ?e1 + 150)")
    case True
    then have "e' = ?e1\<lparr>hazards := removeAt i (hazards ?e1)\<rparr>"
      using assms i unfolding hazardStep_def Let_def by (simp split: if_splits)
    then show ?thesis using frame1_trans[OF f1 f2] by simp
  next
    case False
    then have "e' = updateHazard i dt ?e1"
      using assms i unfolding hazardStep_def Let_def by (simp split: if_splits)
    then show ?thesis using frame1_trans[OF f1 f3] by simp
  qed
qed

lemma hazardLoop_frame1: "hazardLoop n dt e = Some e' \<Longrightarrow> frame1 e e'"
proof (induction n arbitrary: e)
  case 0
  then show ?case by (simp add: frame1_refl)
next
  case (Suc n)
  then obtain e1 where e1: "hazardStep n dt e = Some e1" "hazardLoop n dt e1 = Some e'"
    by (auto split: option.splits)
  show ?case using hazardStep_frame1[OF e1(1)] Suc.IH[OF e1(2)] frame1_trans by blast
qed

lemma spawnHazard_frame0: "spawnHazard e = Some e' \<Longrightarrow> frame0 e e'"
proof -
  assume a: "spawnHazard e = Some e'"
  then obtain hs r where "e' = e\<lparr>hazards := hs\<rparr> \<or> e' = e\<lparr>random := r, hazards := hs\<rparr>"
    unfolding spawnHazard_def Let_def
    by (cases "mode (config e) = ''lane-shooter''") (auto split: option.splits)
  then show ?thesis by (auto simp add: frame0_def keep_def)
qed

lemma hazardSpawnTick_frame0: "hazardSpawnTick e dt = Some e' \<Longrightarrow> frame0 e e'"
proof -
  assume a: "hazardSpawnTick e dt = Some e'"
  let ?e1 = "e\<lparr>hazardSpawnTimer := hazardSpawnTimer e + dt\<rparr>"
  have 1: "frame0 e ?e1" "frame0 ?e1 (?e1\<lparr>hazardSpawnTimer := 0\<rparr>)"
    by (simp_all add: frame0_def keep_def)
  have "e' = ?e1 \<or> spawnHazard (?e1\<lparr>hazardSpawnTimer := 0\<rparr>) = Some e'"
    using a unfolding hazardSpawnTick_def Let_def by (simp split: if_splits)
  then show ?thesis
  proof
    assume "e' = ?e1" then show ?thesis using 1(1) by simp
  next
    assume "spawnHazard (?e1\<lparr>hazardSpawnTimer := 0\<rparr>) = Some e'"
    from spawnHazard_frame0[OF this] show ?thesis using 1 frame0_trans by blast
  qed
qed

lemma safetyShift_isBoss: "isBoss (safetyShift e a) = isBoss a"
  by (simp add: safetyShift_def Let_def)

lemma spawnAsteroid_frame1: "frame1 e (spawnAsteroid e)"
proof (cases "real (length (asteroids e)) \<ge> maxAsteroids (config e) \<or> bossSystem.active (bossSystem e)")
  case True
  then have "spawnAsteroid e = e" by (auto simp add: spawnAsteroid_def)
  then show ?thesis by (simp add: frame1_refl)
next
  case False
  obtain x r2 where x: "spawnX e = (x, r2)" by force
  let ?sz = "pickSize (spawnWeights (wave e)) (r2 0) 0 Small"
  let ?r3 = "rest r2"
  let ?vel = "fromAngle (pi / 2 + (?r3 0 - 0.5) * 0.5)
               ((80 + rest ?r3 0 * 120) * (1 + difficultyMultiplier (config e) * 0.3))"
  obtain a r5 where a: "new_Asteroid x (- 50) ?sz (Some ?vel) (rest (rest ?r3)) = (a, r5)"
    by force
  let ?wf = "1 + (real_of_int (wave e) - 1) * 0.1"
  let ?a1 = "a\<lparr>Asteroid.health := Asteroid.health a * ?wf,
                   maxHealth := maxHealth a * ?wf,
                   Asteroid.damage := (sizeMap ?sz / 2) * ?wf,
                   angularVelocity := (r5 0 - 0.5) * 3\<rparr>"
  have eq: "spawnAsteroid e = e\<lparr>asteroids := asteroids e @ [safetyShift e ?a1], random := rest r5\<rparr>"
    using False unfolding spawnAsteroid_def Let_def x prod.case a by simp
  have "\<not> isBoss (safetyShift e ?a1)"
    using new_Asteroid_not_boss'[OF a] by (simp add: safetyShift_isBoss)
  then show ?thesis
    unfolding eq by (simp add: frame1_def keep_def bossCount_append bossCount_def)
qed

lemma asteroidSpawnTick_frame1: "frame1 e (asteroidSpawnTick e dt)"
proof -
  let ?e1 = "e\<lparr>asteroidSpawnTimer := asteroidSpawnTimer e + dt\<rparr>"
  have 1: "frame1 e ?e1" "frame1 ?e1 (?e1\<lparr>asteroidSpawnTimer := 0\<rparr>)"
    by (simp_all add: frame1_def keep_def)
  have "asteroidSpawnTick e dt = ?e1 \<or>
        asteroidSpawnTick e dt = spawnAsteroid (?e1\<lparr>asteroidSpawnTimer := 0\<rparr>)"
    unfolding asteroidSpawnTick_def Let_def by simp
  then show ?thesis
  proof
    assume "asteroidSpawnTick e dt = ?e1" then show ?thesis using 1(1) by simp
  next
    assume "asteroidSpawnTick e dt = spawnAsteroid (?e1\<lparr>asteroidSpawnTimer := 0\<rparr>)"
    then show ?thesis
      using 1 spawnAsteroid_frame1[of "?e1\<lparr>asteroidSpawnTimer := 0\<rparr>"] frame1_trans by metis
  qed
qed

lemma frame_stepRel: "frame e e' \<Longrightarrow> stepRel e e' False"
  by (simp add: frame_def keep_def stepRel_def)

lemma stepRel_trans: "stepRel e e1 False \<Longrightarrow> stepRel e1 e2 b \<Longrightarrow> stepRel e e2 b"
  using bossRel_trans by (auto simp add: stepRel_def)

lemma takeDamage_position: "position (fst (Spaceship_takeDamage p amount)) = position p"
  by (simp add: Spaceship_takeDamage_def Let_def)

lemma asteroidStep_stepRel:
  assumes "asteroidStep i dt e = Some (e', returned)"
  shows "stepRel e e' returned"
proof -
  have i: "i < length (asteroids e)"
    using assms by (simp add: asteroidStep_def split: if_splits)
  obtain a where a: "PhysicsBody_update (asteroids e ! i) dt = Some a"
    using assms i by (auto simp add: asteroidStep_def split: option.splits)
  have ba: "isBoss a = isBoss (asteroids e ! i)" using Asteroid_update_isBoss[OF a] .
  let ?e1 = "e\<lparr>asteroids := (asteroids e)[i := a]\<rparr>"
  have c1: "bossCount (asteroids ?e1) = bossCount (asteroids e)"
    using i ba by (simp add: bossCount_update)
  have rm: "bossCount (removeAt i (asteroids ?e1)) + (if isBoss a then 1 else 0)
              = bossCount (asteroids e)"
    using bossCount_removeAt[of i "asteroids ?e1"] i c1 by simp
  let ?off = "vy (position a) > height ?e1 + 100"
  let ?coll = "checkCircleCollision (player ?e1) a
                 (max (Spaceship.width (player ?e1)) (Spaceship.height (player ?e1)) / 2)
                 (Asteroid.radius a)"
  consider (off) ?off | (coll) "\<not> ?off" ?coll | (none) "\<not> ?off" "\<not> ?coll" by blast
  then show ?thesis
  proof cases
    case off
    let ?e2 = "if isBoss a
               then ?e1\<lparr>bossSystem := (bossSystem ?e1)\<lparr>active := False, boss := None\<rparr>\<rparr>
               else ?e1"
    have "e' = ?e2\<lparr>asteroids := removeAt i (asteroids ?e2)\<rparr> \<and> \<not> returned"
      using assms i a off unfolding asteroidStep_def Let_def by (simp split: if_splits)
    then show ?thesis
      using rm by (auto simp add: stepRel_def bossRel_def split: if_splits)
  next
    case coll
    obtain p destroyed where td: "Spaceship_takeDamage (player ?e1)
        (if Asteroid.damage a = 0 then 20 else Asteroid.damage a) = (p, destroyed)" by force
    obtain fragments r where sp: "Asteroid_split a (random ?e1) = (fragments, r)" by force
    let ?e2 = "?e1\<lparr>player := p, random := r, asteroids := removeAt i (asteroids ?e1) @ fragments\<rparr>"
    have pp: "position p = position (player e)"
      using takeDamage_position[of "player ?e1"
          "if Asteroid.damage a = 0 then 20 else Asteroid.damage a"] td by simp
    have cnt: "bossCount (asteroids ?e2) \<le> bossCount (asteroids e)"
      using rm split_bossCount[OF sp] by (simp add: bossCount_append split: if_splits)
    have "e' = (if destroyed then gameOver ?e2 else ?e2) \<and> returned = destroyed"
      using assms i a coll td sp unfolding asteroidStep_def Let_def by (simp split: if_splits)
    then show ?thesis
      using pp cnt by (auto simp add: stepRel_def bossRel_def gameOver_def)
  next
    case none
    have "e' = ?e1 \<and> \<not> returned"
      using assms i a none unfolding asteroidStep_def Let_def by (simp split: if_splits)
    then show ?thesis using c1 by (simp add: stepRel_def bossRel_def)
  qed
qed

lemma asteroidLoop_stepRel: "asteroidLoop n dt e = Some (e', returned) \<Longrightarrow> stepRel e e' returned"
proof (induction n arbitrary: e)
  case 0
  then show ?case by (simp add: stepRel_def bossRel_refl)
next
  case (Suc n)
  then obtain e1 r1 where s: "asteroidStep n dt e = Some (e1, r1)"
    by (auto split: option.splits)
  show ?case
  proof (cases r1)
    case True
    then have "e' = e1 \<and> returned" using Suc.prems s by simp
    then show ?thesis using asteroidStep_stepRel[OF s] True by simp
  next
    case False
    then have "asteroidLoop n dt e1 = Some (e', returned)" using Suc.prems s by simp
    from Suc.IH[OF this] have 2: "stepRel e1 e' returned" .
    have 1: "stepRel e e1 False" using asteroidStep_stepRel[OF s] False by simp
    show ?thesis using stepRel_trans[OF 1 2] .
  qed
qed

lemma base_refl: "base e e"
  by (simp add: base_def)

lemma base_trans: "base e e1 \<Longrightarrow> base e1 e2 \<Longrightarrow> base e e2"
  by (simp add: base_def)

lemma shotgunLoop_base: "base e (shotgunLoop d w bd n i e)"
proof (induction n arbitrary: i e)
  case 0
  then show ?case by (simp add: base_refl)
next
  case (Suc n)
  let ?off = "(real i - real_of_int \<lfloor>real (spread w) / 2\<rfloor>) * 0.15"
  obtain proj r where p: "new_Projectile (pd_position d)
       (fromAngle (pd_angle d + ?off) (weapon.projectileSpeed w)) (pd_angle d + ?off) bd
       ''#00f0ff'' (random e) = (proj, r)" by force
  let ?e1 = "e\<lparr>projectiles := projectiles e @ [proj\<lparr>Projectile.color := weapon.color w\<rparr>],
               random := r\<rparr>"
  have eq: "shotgunLoop d w bd (Suc n) i e = shotgunLoop d w bd n (Suc i) ?e1"
    unfolding shotgunLoop.simps Let_def p prod.case by (rule refl)
  have "base e ?e1" by (simp add: base_def)
  then show ?case unfolding eq using Suc.IH[of ?e1 "Suc i"] base_trans by blast
qed

lemma playerFire_base: "base e (playerFire e)"
proof -
  let ?w = "weapons_table (currentWeapon (weaponSystem e))"
  let ?p1 = "(player e)\<lparr>weapons := (weapons (player e))\<lparr>weapons.fireRate := weapon.fireRate ?w\<rparr>\<rparr>"
  obtain p2 pd where f: "fire ?p1 = (p2, pd)" by force
  let ?e1 = "e\<lparr>player := p2\<rparr>"
  have b1: "base e ?e1" by (simp add: base_def)
  show ?thesis
  proof (cases pd)
    case None
    then have "playerFire e = ?e1"
      unfolding playerFire_def Let_def f prod.case by simp
    then show ?thesis using b1 by simp
  next
    case (Some d)
    let ?bd = "weapon.damage ?w
                 * (1 + real_of_int (upgrades.damage (upgrades (upgradeSystem ?e1))) * 0.1)"
    obtain proj r where p: "new_Projectile (pd_position d) (pd_velocity d) (pd_angle d) ?bd
                     ''#00f0ff'' (random ?e1) = (proj, r)" by force
    have "base ?e1 (playerFire e)"
      unfolding playerFire_def Let_def f prod.case Some option.case p
      using shotgunLoop_base[of ?e1 d ?w ?bd "spread ?w" 0]
      by (cases "currentWeapon (weaponSystem e)") (simp_all add: base_def)
    then show ?thesis using b1 base_trans by blast
  qed
qed

lemma laneVelocity_shape:
  "\<exists>lm v. laneVelocity e dt =
     e\<lparr>laneMovement := lm, player := (player e)\<lparr>velocity := (velocity (player e))\<lparr>vx := v\<rparr>\<rparr>\<rparr>"
  unfolding laneVelocity_def Let_def by blast

lemma laneVelocity_base: "base e (laneVelocity e dt)"
proof -
  obtain lm v where "laneVelocity e dt =
     e\<lparr>laneMovement := lm, player := (player e)\<lparr>velocity := (velocity (player e))\<lparr>vx := v\<rparr>\<rparr>\<rparr>"
    using laneVelocity_shape by blast
  then show ?thesis by (simp add: base_def)
qed

lemma fireAndShield_base: "base e (fireAndShield e)"
proof -
  let ?e1 = "if keys e '' '' \<or> down (mouse e) then playerFire e else e"
  have 1: "base e ?e1" using playerFire_base by (simp add: base_refl)
  have "base ?e1 (fireAndShield e)"
    unfolding fireAndShield_def Let_def by (simp add: base_def)
  then show ?thesis using 1 base_trans by blast
qed

lemma laneLocks_base: "base e (laneLocks e)"
  by (simp add: laneLocks_def Let_def base_def)

lemma spaceSimInput_base: "base e (spaceSimInput e dt)"
proof -
  obtain p where "spaceSimInput e dt = fireAndShield (e\<lparr>player := p\<rparr>)"
    unfolding spaceSimInput_def Let_def by blast
  moreover have "base e (e\<lparr>player := p\<rparr>)" by (simp add: base_def)
  ultimately show ?thesis using fireAndShield_base base_trans by metis
qed

lemma handleInput_base: "base e (handleInput e dt)"
proof -
  have lane: "base e (laneLocks (fireAndShield (laneVelocity e dt)))"
    using base_trans[OF base_trans[OF laneVelocity_base fireAndShield_base] laneLocks_base] .
  show ?thesis
    unfolding handleInput_def using lane spaceSimInput_base[of e dt] base_refl[of e] by simp
qed

lemma laneClamp_base: "base e (laneClamp e)"
  by (simp add: laneClamp_def Let_def base_def)

lemma laneClamp_bounds:
  "vx (position (player (laneClamp e))) \<le> width e - 50
   \<and> (100 \<le> width e \<longrightarrow> 50 \<le> vx (position (player (laneClamp e))))
   \<and> (width e < 100 \<longrightarrow> vx (position (player (laneClamp e))) = width e - 50)"
  by (simp add: laneClamp_def Let_def)

lemma updatePlayer_base: "updatePlayer e dt = Some e' \<Longrightarrow> base e e'"
proof -
  assume a: "updatePlayer e dt = Some e'"
  then obtain p where p: "Spaceship_update (player e) dt = Some p"
    by (auto simp add: updatePlayer_def split: option.splits)
  let ?e1 = "e\<lparr>player := p\<rparr>"
  have 1: "base e ?e1" by (simp add: base_def)
  have "e' = laneClamp ?e1 \<or> (\<exists>q. e' = ?e1\<lparr>player := q\<rparr>)"
    using a unfolding updatePlayer_def p option.case Let_def by (auto split: if_splits)
  then show ?thesis
  proof
    assume "e' = laneClamp ?e1"
    then show ?thesis using 1 laneClamp_base[of ?e1] base_trans by blast
  next
    assume "\<exists>q. e' = ?e1\<lparr>player := q\<rparr>"
    then show ?thesis by (auto simp add: base_def)
  qed
qed

lemma updatePlayer_bounds:
  assumes "updatePlayer e dt = Some e'" "mode (config e) = ''lane-shooter''"
  shows "vx (position (player e')) \<le> width e - 50
   \<and> (100 \<le> width e \<longrightarrow> 50 \<le> vx (position (player e')))
   \<and> (width e < 100 \<longrightarrow> vx (position (player e')) = width e - 50)"
proof -
  obtain p where p: "Spaceship_update (player e) dt = Some p"
    using assms(1) by (auto simp add: updatePlayer_def split: option.splits)
  have "e' = laneClamp (e\<lparr>player := p\<rparr>)"
    using assms unfolding updatePlayer_def p option.case Let_def by simp
  then show ?thesis using laneClamp_bounds[of "e\<lparr>player := p\<rparr>"] by simp
qed

lemma spawnBoss_shape:
  "\<exists>b r. spawnBoss e =
      e\<lparr>random := r,
        bossSystem := (bossSystem e)\<lparr>boss := Some b, bossSystem.active := True, phase := 1\<rparr>,
        asteroids := asteroids e @ [b]\<rparr> \<and> isBoss b"
proof -
  obtain boss0 r1 where b: "new_Asteroid (width e / 2) (- 100) Huge (Some \<lparr>vx = 0, vy = 50\<rparr>)
     (random e) = (boss0, r1)" by force
  show ?thesis
    unfolding spawnBoss_def Let_def b prod.case
    by (intro exI conjI) (rule refl, simp)
qed

lemma waveProgression_rel:
  "keep e (waveProgression e dt)
   \<and> (bossRel e (waveProgression e dt) \<or> bossSystem.active (bossSystem (waveProgression e dt)))"
proof -
  let ?e1 = "e\<lparr>waveTimer := waveTimer e + dt\<rparr>"
  let ?e2 = "?e1\<lparr>waveTimer := 0,
                        wave := wave ?e1 + 1,
                        config := (config ?e1)
                          \<lparr>asteroidSpawnRate :=
                             asteroidSpawnRate (config ?e1) * asteroidSpawnIncrease (config ?e1),
                           maxAsteroids := maxAsteroids (config ?e1) + 2,
                           difficultyMultiplier := difficultyMultiplier (config ?e1) + 0.1\<rparr>\<rparr>"
  have k1: "keep e ?e1" "bossRel e ?e1" by (simp_all add: keep_def bossRel_def)
  have k2: "keep e ?e2" "bossRel e ?e2" by (simp_all add: keep_def bossRel_def)
  obtain b r where sb: "spawnBoss ?e2 =
      ?e2\<lparr>random := r,
        bossSystem := (bossSystem ?e2)\<lparr>boss := Some b, bossSystem.active := True, phase := 1\<rparr>,
        asteroids := asteroids ?e2 @ [b]\<rparr>"
    using spawnBoss_shape[of ?e2] by blast
  have k3: "keep e (spawnBoss ?e2)" "bossSystem.active (bossSystem (spawnBoss ?e2))"
    unfolding sb by (simp_all add: keep_def)
  have "waveProgression e dt = ?e1 \<or> waveProgression e dt = ?e2
        \<or> waveProgression e dt = spawnBoss ?e2"
    unfolding waveProgression_def Let_def by simp
  then show ?thesis using k1 k2 k3 by metis
qed

lemma updateRest_rel:
  assumes "updateRest e dt = Some e'"
  shows "keep e e' \<and> (bossRel e e' \<or> bossSystem.active (bossSystem e'))"
proof -
  obtain e1 e2 e4 e5 where
    1: "projectileLoop (length (projectiles e)) dt e = Some e1" and
    2: "powerUpLoop (length (powerUps e1)) dt e1 = Some e2" and
    4: "hazardLoop (length (hazards (updateWeaponTimer (updateComboTimer e2 dt) dt))) dt
          (updateWeaponTimer (updateComboTimer e2 dt) dt) = Some e4" and
    5: "hazardSpawnTick (asteroidSpawnTick e4 dt) dt = Some e5" and
    6: "e' = waveProgression e5 dt"
    using assms unfolding updateRest_def Let_def by (auto split: option.splits)
  let ?e3 = "updateWeaponTimer (updateComboTimer e2 dt) dt"
  have f1: "frame e e1" using projectileLoop_frame[OF 1] .
  have f2: "frame e1 e2" using powerUpLoop_frame0[OF 2] frame0_frame by blast
  have f3: "frame e2 ?e3"
    using frame0_trans[OF updateComboTimer_frame0 updateWeaponTimer_frame0] frame0_frame by blast
  have f4: "frame ?e3 e4" using hazardLoop_frame1[OF 4] frame1_frame by blast
  have f5: "frame e4 e5"
    using frame_trans[OF frame1_frame[OF asteroidSpawnTick_frame1]
        frame0_frame[OF hazardSpawnTick_frame0[OF 5]]] .
  have f: "frame e e5"
    using frame_trans[OF frame_trans[OF frame_trans[OF frame_trans[OF f1 f2] f3] f4] f5] .
  have w: "keep e5 e'" "bossRel e5 e' \<or> bossSystem.active (bossSystem e')"
    using waveProgression_rel[of e5 dt] 6 by simp_all
  show ?thesis
    using f w keep_trans bossRel_trans unfolding frame_def by blast
qed

lemma gameOver_rel: "stepRel e (gameOver e) True"
  by (simp add: stepRel_def gameOver_def bossRel_def)

lemma update_not_playing: "state e \<noteq> Playing \<Longrightarrow> GameEngine_update e dt = Some e"
  by (simp add: GameEngine_update_def)

lemma update_playing:
  assumes "state e = Playing" "GameEngine_update e dt = Some e'"
  shows "(state e' = Playing \<or> state e' = Gameover)
       \<and> width e' = width e \<and> mode (config e') = mode (config e)
       \<and> (bossSystem.active (bossSystem e) \<and> \<not> bossSystem.active (bossSystem e')
            \<longrightarrow> bossCount (asteroids e') < bossCount (asteroids e))
       \<and> (mode (config e) = ''lane-shooter'' \<longrightarrow>
            vx (position (player e')) \<le> width e - 50
            \<and> (100 \<le> width e \<longrightarrow> 50 \<le> vx (position (player e')))
            \<and> (width e < 100 \<longrightarrow> vx (position (player e')) = width e - 50))"
proof -
  let ?dt = "min dt 0.1"
  let ?e1 = "e\<lparr>time := time e + ?dt\<rparr>"
  let ?e2 = "handleInput ?e1 ?dt"
  obtain e3 where 3: "updatePlayer ?e2 ?dt = Some e3"
    using assms unfolding GameEngine_update_def Let_def by (auto split: option.splits)
  have b1: "base e ?e1" by (simp add: base_def)
  have b3: "base e e3"
    using base_trans[OF base_trans[OF b1 handleInput_base] updatePlayer_base[OF 3]] .
  have pos3: "mode (config e) = ''lane-shooter'' \<longrightarrow>
            vx (position (player e3)) \<le> width e - 50
            \<and> (100 \<le> width e \<longrightarrow> 50 \<le> vx (position (player e3)))
            \<and> (width e < 100 \<longrightarrow> vx (position (player e3)) = width e - 50)"
  proof
    assume m: "mode (config e) = ''lane-shooter''"
    have b2: "base e ?e2" using base_trans[OF b1 handleInput_base] .
    then have "mode (config ?e2) = ''lane-shooter''" "width ?e2 = width e"
      using m by (simp_all add: base_def)
    then show "vx (position (player e3)) \<le> width e - 50
            \<and> (100 \<le> width e \<longrightarrow> 50 \<le> vx (position (player e3)))
            \<and> (width e < 100 \<longrightarrow> vx (position (player e3)) = width e - 50)"
      using updatePlayer_bounds[OF 3] by simp
  qed
  let ?T = ?thesis
  have goal_from: "\<And>b. stepRel e3 e' b \<Longrightarrow> ?T"
  proof -
    fix b assume s: "stepRel e3 e' b"
    show ?T
      using assms(1) pos3 s b3 by (auto simp add: stepRel_def bossRel_def base_def split: if_splits)
  qed
  show ?thesis
  proof (cases "isDestroyed (player e3)")
    case True
    then have "e' = gameOver e3"
      using assms 3 unfolding GameEngine_update_def Let_def by simp
    then have "stepRel e3 e' True" using gameOver_rel[of e3] by simp
    then show ?thesis by (rule goal_from)
  next
    case False
    then obtain e4 returned where 4: "asteroidLoop (length (asteroids e3)) ?dt e3 = Some (e4, returned)"
      using assms 3 unfolding GameEngine_update_def Let_def by (auto split: option.splits)
    have s4: "stepRel e3 e4 returned" using asteroidLoop_stepRel[OF 4] .
    show ?thesis
    proof (cases returned)
      case True
      then have "e' = e4"
        using assms 3 4 False unfolding GameEngine_update_def Let_def by simp
      then show ?thesis using goal_from s4 by blast
    next
      case f: False
      then have ur: "updateRest e4 ?dt = Some e'"
        using assms 3 4 False unfolding GameEngine_update_def Let_def by simp
      have k: "keep e4 e'" "bossRel e4 e' \<or> bossSystem.active (bossSystem e')"
        using updateRest_rel[OF ur] by simp_all
      have s4': "stepRel e3 e4 False" using s4 f by simp
      have br: "bossRel e3 e' \<or> bossSystem.active (bossSystem e')"
        using k(2) s4' bossRel_trans[of e3 e4 e'] by (auto simp add: stepRel_def)
      show ?thesis
        using k(1) s4' br b3 pos3 assms(1)
        by (auto simp add: stepRel_def keep_def bossRel_def base_def)
    qed
  qed
qed

section \<open>The state machine\<close>

lemma runChainReaction_frame1: "runChainReaction e = Some e' \<Longrightarrow> frame1 e e'"
proof -
  assume a: "runChainReaction e = Some e'"
  show ?thesis
  proof (cases "pendingChainReactions e")
    case Nil
    then show ?thesis using a by (simp add: runChainReaction_def frame1_refl)
  next
    case (Cons pr pending)
    obtain pos rad where pr: "pr = (pos, rad)" by force
    let ?e1 = "e\<lparr>pendingChainReactions := pending\<rparr>"
    have "checkChainReaction ?e1 pos rad = Some e'"
      using a Cons pr by (simp add: runChainReaction_def)
    from checkChainReaction_frame1[OF this] have "frame1 ?e1 e'" .
    moreover have "frame1 e ?e1" by (simp add: frame1_def keep_def)
    ultimately show ?thesis using frame1_trans by blast
  qed
qed

lemma mousedown_base: "base e (mousedown e)"
proof -
  let ?e1 = "e\<lparr>mouse := (mouse e)\<lparr>down := True\<rparr>\<rparr>"
  have 1: "base e ?e1" by (simp add: base_def)
  have "mousedown e = ?e1 \<or> mousedown e = playerFire ?e1"
    unfolding mousedown_def Let_def by simp
  then show ?thesis using 1 playerFire_base[of ?e1] base_trans by metis
qed

lemma run_state:
  assumes "run c e = Some e'"
  shows "state e' = state e
       \<or> (c = Start \<and> state e' = Playing)
       \<or> (c = Pause \<and> state e = Playing \<and> state e' = Paused)
       \<or> (c = Resume \<and> state e = Paused \<and> state e' = Playing)
       \<or> ((\<exists>dt. c = Update dt) \<and> state e = Playing \<and> state e' = Gameover)"
proof (cases c)
  case Start
  then show ?thesis using assms by (auto simp add: start_def Let_def)
next
  case Pause
  then show ?thesis using assms by (cases "state e = Playing") (auto simp add: pause_def)
next
  case Resume
  then show ?thesis using assms by (cases "state e = Paused") (auto simp add: resume_def)
next
  case (Update dt)
  show ?thesis
  proof (cases "state e = Playing")
    case True
    then show ?thesis using update_playing[of e dt e'] assms Update by auto
  next
    case False
    then show ?thesis using update_not_playing[of e dt] assms Update by auto
  qed
next
  case RunChainReaction
  then show ?thesis
    using assms runChainReaction_frame1[of e e'] by (simp add: frame1_def keep_def)
next
  case (Keydown k)
  then show ?thesis using assms by (auto simp add: keydown_def)
next
  case (Keyup k)
  then show ?thesis using assms by (auto simp add: keyup_def)
next
  case (Mousemove x y)
  then show ?thesis using assms by (auto simp add: mousemove_def)
next
  case Mousedown
  then show ?thesis using assms mousedown_base[of e] by (auto simp add: base_def)
next
  case Mouseup
  then show ?thesis using assms by (auto simp add: mouseup_def)
next
  case (Resize w h)
  then show ?thesis using assms by (auto simp add: resize_def)
qed

text \<open>
  Claim C8. \<open>pause\<close> changes the state only from \<open>playing\<close> (to \<open>paused\<close>) and \<open>resume\<close> only
  from \<open>paused\<close> (to \<open>playing\<close>); in any other state each returns the engine as it is. Every
  call that reaches the engine either keeps the state or makes one of the moves menu to
  playing, playing to paused, paused to playing, playing to gameover, or, by \<open>start\<close> alone,
  gameover to playing: the state \<open>gameover\<close> stays under every call but \<open>start\<close>. An
  \<open>update\<close> outside \<open>playing\<close> changes nothing.
\<close>

theorem state_machine:
  "pause e = (if state e = Playing then e\<lparr>state := Paused\<rparr> else e)
   \<and> resume e = (if state e = Paused then e\<lparr>state := Playing\<rparr> else e)
   \<and> state (start e) = Playing
   \<and> (run c e = Some e' \<longrightarrow>
        state e' = state e
        \<or> (state e = Menu \<and> state e' = Playing)
        \<or> (state e = Playing \<and> state e' = Paused)
        \<or> (state e = Paused \<and> state e' = Playing)
        \<or> (state e = Playing \<and> state e' = Gameover)
        \<or> (state e = Gameover \<and> state e' = Playing \<and> c = Start))
   \<and> (run c e = Some e' \<and> state e = Gameover \<and> c \<noteq> Start \<longrightarrow> state e' = Gameover)
   \<and> (state e \<noteq> Playing \<longrightarrow> run (Update dt) e = Some e)"
proof -
  have 1: "run c e = Some e' \<longrightarrow>
        state e' = state e
        \<or> (state e = Menu \<and> state e' = Playing)
        \<or> (state e = Playing \<and> state e' = Paused)
        \<or> (state e = Paused \<and> state e' = Playing)
        \<or> (state e = Playing \<and> state e' = Gameover)
        \<or> (state e = Gameover \<and> state e' = Playing \<and> c = Start)"
  proof
    assume r: "run c e = Some e'"
    from run_state[OF r] show "state e' = state e
        \<or> (state e = Menu \<and> state e' = Playing)
        \<or> (state e = Playing \<and> state e' = Paused)
        \<or> (state e = Paused \<and> state e' = Playing)
        \<or> (state e = Playing \<and> state e' = Gameover)
        \<or> (state e = Gameover \<and> state e' = Playing \<and> c = Start)"
      by (cases "state e") auto
  qed
  have 2: "run c e = Some e' \<and> state e = Gameover \<and> c \<noteq> Start \<longrightarrow> state e' = Gameover"
    using run_state[of c e e'] by auto
  show ?thesis
    using 1 2 by (simp add: pause_def resume_def start_def Let_def update_not_playing)
qed


text \<open>
  A new engine (in the menu) ignores \<open>pause\<close> and \<open>resume\<close>; started, it is paused and
  resumed; after a game over, \<open>update\<close> and \<open>pause\<close> leave it as it is.
\<close>

theorem state_machine_witness:
  "state (new_GameEngine 800 600 (\<lambda>_. 1 / 2)) = Menu
   \<and> pause (new_GameEngine 800 600 (\<lambda>_. 1 / 2)) = new_GameEngine 800 600 (\<lambda>_. 1 / 2)
   \<and> resume (new_GameEngine 800 600 (\<lambda>_. 1 / 2)) = new_GameEngine 800 600 (\<lambda>_. 1 / 2)
   \<and> state (start (new_GameEngine 800 600 (\<lambda>_. 1 / 2))) = Playing
   \<and> state (pause (start (new_GameEngine 800 600 (\<lambda>_. 1 / 2)))) = Paused
   \<and> state (resume (pause (start (new_GameEngine 800 600 (\<lambda>_. 1 / 2))))) = Playing
   \<and> state (gameOver (start (new_GameEngine 800 600 (\<lambda>_. 1 / 2)))) = Gameover
   \<and> run (Update 1) (gameOver (start (new_GameEngine 800 600 (\<lambda>_. 1 / 2))))
        = Some (gameOver (start (new_GameEngine 800 600 (\<lambda>_. 1 / 2))))
   \<and> run Pause (gameOver (start (new_GameEngine 800 600 (\<lambda>_. 1 / 2))))
        = Some (gameOver (start (new_GameEngine 800 600 (\<lambda>_. 1 / 2))))"
proof -
  let ?e0 = "new_GameEngine 800 600 (\<lambda>_. 1 / 2)"
  let ?g = "gameOver (start ?e0)"
  have m: "state ?e0 = Menu" by (simp add: new_GameEngine_def Let_def)
  have g: "state ?g = Gameover" by (simp add: gameOver_def)
  have p: "state (start ?e0) = Playing" using state_machine[of ?e0] by simp
  have 1: "pause ?e0 = ?e0" "resume ?e0 = ?e0" using state_machine[of ?e0] m by simp_all
  have 2: "state (pause (start ?e0)) = Paused" using state_machine[of "start ?e0"] p by simp
  have 3: "state (resume (pause (start ?e0))) = Playing"
    using state_machine[of "pause (start ?e0)"] 2 by simp
  have 4: "run (Update 1) ?g = Some ?g" using state_machine[of ?g _ _ 1] g by simp
  have 5: "run Pause ?g = Some ?g" using state_machine[of ?g] g by simp
  show ?thesis using m g p 1 2 3 4 5 by simp
qed

section \<open>Frames that return\<close>

lemma spawnAsteroid_wave: "wave (spawnAsteroid e) = wave e"
proof (cases "real (length (asteroids e)) \<ge> maxAsteroids (config e) \<or> bossSystem.active (bossSystem e)")
  case True
  then have "spawnAsteroid e = e" by (auto simp add: spawnAsteroid_def)
  then show ?thesis by simp
next
  case False
  obtain x r2 where x: "spawnX e = (x, r2)" by force
  let ?sz = "pickSize (spawnWeights (wave e)) (r2 0) 0 Small"
  let ?r3 = "rest r2"
  let ?vel = "fromAngle (pi / 2 + (?r3 0 - 0.5) * 0.5)
               ((80 + rest ?r3 0 * 120) * (1 + difficultyMultiplier (config e) * 0.3))"
  obtain a r5 where a: "new_Asteroid x (- 50) ?sz (Some ?vel) (rest (rest ?r3)) = (a, r5)"
    by force
  let ?wf = "1 + (real_of_int (wave e) - 1) * 0.1"
  let ?a1 = "a\<lparr>Asteroid.health := Asteroid.health a * ?wf,
                   maxHealth := maxHealth a * ?wf,
                   Asteroid.damage := (sizeMap ?sz / 2) * ?wf,
                   angularVelocity := (r5 0 - 0.5) * 3\<rparr>"
  have eq: "spawnAsteroid e = e\<lparr>asteroids := asteroids e @ [safetyShift e ?a1], random := rest r5\<rparr>"
    using False unfolding spawnAsteroid_def Let_def x prod.case a by simp
  show ?thesis unfolding eq by simp
qed

lemma asteroidSpawnTick_wave: "wave (asteroidSpawnTick e dt) = wave e"
  unfolding asteroidSpawnTick_def Let_def by (simp add: spawnAsteroid_wave)

lemma hazardSpawnTick_early: "wave e \<le> 2 \<Longrightarrow> \<exists>e'. hazardSpawnTick e dt = Some e'"
  unfolding hazardSpawnTick_def Let_def by simp

lemma timers_quiet:
  "hazards (updateWeaponTimer (updateComboTimer e dt) dt) = hazards e"
  by (simp add: updateWeaponTimer_def updateComboTimer_def resetCombo_def Let_def)

lemma updateRest_returns:
  assumes "projectiles e = []" "powerUps e = []" "hazards e = []" "wave e \<le> 2"
  shows "\<exists>e'. updateRest e dt = Some e'"
proof -
  let ?e3 = "updateWeaponTimer (updateComboTimer e dt) dt"
  have h: "hazards ?e3 = []" using timers_quiet assms(3) by simp
  have w: "wave ?e3 = wave e"
    by (simp add: updateWeaponTimer_def updateComboTimer_def resetCombo_def Let_def)
  obtain e5 where 5: "hazardSpawnTick (asteroidSpawnTick ?e3 dt) dt = Some e5"
    using hazardSpawnTick_early[of "asteroidSpawnTick ?e3 dt" dt] asteroidSpawnTick_wave[of ?e3 dt]
      w assms(4) by auto
  show ?thesis
    unfolding updateRest_def Let_def using assms(1,2) h 5 by simp
qed

lemma Spaceship_update_returns:
  assumes "0 < linearDamping s" "0 < angularDamping s"
  shows "\<exists>s'. Spaceship_update s dt = Some s'"
proof -
  obtain s1 where "PhysicsBody_update s dt = Some s1"
    using PhysicsBody_update_total[OF assms] by blast
  then show ?thesis unfolding Spaceship_update_def Let_def by simp
qed

lemma updatePlayer_quiet:
  assumes "updatePlayer e dt = Some e'"
  shows "projectiles e' = projectiles e \<and> powerUps e' = powerUps e \<and> hazards e' = hazards e
       \<and> wave e' = wave e"
proof -
  obtain p where p: "Spaceship_update (player e) dt = Some p"
    using assms by (auto simp add: updatePlayer_def split: option.splits)
  have "e' = laneClamp (e\<lparr>player := p\<rparr>) \<or> (\<exists>q. e' = e\<lparr>player := p\<rparr>\<lparr>player := q\<rparr>)"
    using assms unfolding updatePlayer_def p option.case Let_def by (auto split: if_splits)
  then show ?thesis by (auto simp add: laneClamp_def Let_def)
qed

lemma laneLocks_quiet:
  "projectiles (laneLocks e) = projectiles e \<and> powerUps (laneLocks e) = powerUps e
   \<and> hazards (laneLocks e) = hazards e \<and> wave (laneLocks e) = wave e
   \<and> linearDamping (player (laneLocks e)) = linearDamping (player e)
   \<and> angularDamping (player (laneLocks e)) = angularDamping (player e)"
  by (simp add: laneLocks_def Let_def split: option.splits)

lemma fireAndShield_quiet:
  assumes "\<not> keys e '' ''" "\<not> down (mouse e)"
  shows "projectiles (fireAndShield e) = projectiles e \<and> powerUps (fireAndShield e) = powerUps e
   \<and> hazards (fireAndShield e) = hazards e \<and> wave (fireAndShield e) = wave e
   \<and> linearDamping (player (fireAndShield e)) = linearDamping (player e)
   \<and> angularDamping (player (fireAndShield e)) = angularDamping (player e)"
  using assms by (simp add: fireAndShield_def Let_def activateShield_def deactivateShield_def)

lemma laneVelocity_quiet:
  "projectiles (laneVelocity e dt) = projectiles e \<and> powerUps (laneVelocity e dt) = powerUps e
   \<and> hazards (laneVelocity e dt) = hazards e \<and> wave (laneVelocity e dt) = wave e
   \<and> keys (laneVelocity e dt) = keys e \<and> mouse (laneVelocity e dt) = mouse e
   \<and> linearDamping (player (laneVelocity e dt)) = linearDamping (player e)
   \<and> angularDamping (player (laneVelocity e dt)) = angularDamping (player e)"
proof -
  obtain lm v where "laneVelocity e dt =
     e\<lparr>laneMovement := lm, player := (player e)\<lparr>velocity := (velocity (player e))\<lparr>vx := v\<rparr>\<rparr>\<rparr>"
    using laneVelocity_shape by blast
  then show ?thesis by simp
qed

lemma handleInput_quiet:
  assumes "mode (config e) = ''lane-shooter''" "\<not> keys e '' ''" "\<not> down (mouse e)"
  shows "projectiles (handleInput e dt) = projectiles e \<and> powerUps (handleInput e dt) = powerUps e
   \<and> hazards (handleInput e dt) = hazards e \<and> wave (handleInput e dt) = wave e
   \<and> linearDamping (player (handleInput e dt)) = linearDamping (player e)
   \<and> angularDamping (player (handleInput e dt)) = angularDamping (player e)"
proof -
  let ?a = "laneVelocity e dt"
  have k: "\<not> keys ?a '' ''" "\<not> down (mouse ?a)" using laneVelocity_quiet[of e dt] assms by simp_all
  have "handleInput e dt = e \<or> handleInput e dt = laneLocks (fireAndShield ?a)"
    unfolding handleInput_def using assms(1) by simp
  then show ?thesis
    using laneLocks_quiet[of "fireAndShield ?a"] fireAndShield_quiet[OF k] laneVelocity_quiet[of e dt]
    by auto
qed

lemma update_returns:
  assumes "mode (config e) = ''lane-shooter''" "\<not> keys e '' ''" "\<not> down (mouse e)"
    "asteroids e = []" "projectiles e = []" "powerUps e = []" "hazards e = []" "wave e \<le> 2"
    "0 < linearDamping (player e)" "0 < angularDamping (player e)"
  shows "\<exists>e'. GameEngine_update e dt = Some e'"
proof (cases "state e = Playing")
  case False
  then show ?thesis by (simp add: GameEngine_update_def)
next
  case True
  let ?dt = "min dt 0.1"
  let ?e1 = "e\<lparr>time := time e + ?dt\<rparr>"
  let ?e2 = "handleInput ?e1 ?dt"
  have q2: "projectiles ?e2 = [] \<and> powerUps ?e2 = [] \<and> hazards ?e2 = [] \<and> wave ?e2 \<le> 2
     \<and> 0 < linearDamping (player ?e2) \<and> 0 < angularDamping (player ?e2)"
    using handleInput_quiet[of ?e1 ?dt] assms by simp
  obtain p where p: "Spaceship_update (player ?e2) ?dt = Some p"
    using Spaceship_update_returns q2 by blast
  have "\<exists>e3. updatePlayer ?e2 ?dt = Some e3"
    unfolding updatePlayer_def p option.case Let_def by (cases "mode (config ?e2) = ''lane-shooter''") simp_all
  then obtain e3 where 3: "updatePlayer ?e2 ?dt = Some e3" by blast
  have b3: "base e e3"
    using base_trans[OF base_trans[OF _ handleInput_base] updatePlayer_base[OF 3], of e]
    by (simp add: base_def)
  have a3: "asteroids e3 = []" using b3 assms(4) by (simp add: base_def)
  have q3: "projectiles e3 = [] \<and> powerUps e3 = [] \<and> hazards e3 = [] \<and> wave e3 \<le> 2"
    using updatePlayer_quiet[OF 3] q2 by simp
  obtain e' where r: "updateRest e3 ?dt = Some e'" using updateRest_returns q3 by blast
  show ?thesis
    unfolding GameEngine_update_def Let_def 3 option.case a3 using True r by simp
qed


section \<open>The lane clamp\<close>

lemma update_width: "GameEngine_update e dt = Some e' \<Longrightarrow> width e' = width e"
  using update_playing[of e dt e'] update_not_playing[of e dt] by (cases "state e = Playing") auto

lemma update_mode: "GameEngine_update e dt = Some e' \<Longrightarrow> mode (config e') = mode (config e)"
  using update_playing[of e dt e'] update_not_playing[of e dt] by (cases "state e = Playing") auto

lemma updates_clamped:
  assumes "updates e dts = Some e'" "mode (config e) = ''lane-shooter''"
    "vx (position (player e)) \<le> width e - 50
       \<and> (100 \<le> width e \<longrightarrow> 50 \<le> vx (position (player e)))
       \<and> (width e < 100 \<longrightarrow> vx (position (player e)) = width e - 50)"
  shows "width e' = width e \<and> vx (position (player e')) \<le> width e - 50
       \<and> (100 \<le> width e \<longrightarrow> 50 \<le> vx (position (player e')))
       \<and> (width e < 100 \<longrightarrow> vx (position (player e')) = width e - 50)"
  using assms
proof (induction dts arbitrary: e)
  case Nil
  then show ?case by simp
next
  case (Cons dt dts)
  then obtain e1 where e1: "GameEngine_update e dt = Some e1" "updates e1 dts = Some e'"
    by (auto split: option.splits)
  have w: "width e1 = width e" "mode (config e1) = ''lane-shooter''"
    using update_width[OF e1(1)] update_mode[OF e1(1)] Cons.prems(2) by simp_all
  have "vx (position (player e1)) \<le> width e - 50
       \<and> (100 \<le> width e \<longrightarrow> 50 \<le> vx (position (player e1)))
       \<and> (width e < 100 \<longrightarrow> vx (position (player e1)) = width e - 50)"
  proof (cases "state e = Playing")
    case True
    then show ?thesis using update_playing[OF True e1(1)] Cons.prems(2) by simp
  next
    case False
    then show ?thesis using update_not_playing[of e dt] e1(1) Cons.prems(3) by simp
  qed
  then show ?case using Cons.IH[OF e1(2)] w by simp
qed

text \<open>
  Claim C9, as the code has it. In the lane-shooter mode, at the end of a run of one or more
  update steps that starts while playing, whatever keys are held, the player's \<open>x\<close> is at
  most \<open>width - 50\<close>; it is at least the left margin \<open>50\<close> when the playfield is at least
  two margins wide. On a narrower playfield the right clamp, which comes second, wins, and
  \<open>x\<close> is \<open>width - 50\<close>, left of the left margin.
\<close>

theorem lane_clamp:
  assumes "state e = Playing" and "mode (config e) = ''lane-shooter''"
    and "updates e (dt # dts) = Some e'"
  shows "width e' = width e
       \<and> vx (position (player e')) \<le> width e - 50
       \<and> (100 \<le> width e \<longrightarrow> 50 \<le> vx (position (player e')))
       \<and> (width e < 100 \<longrightarrow> vx (position (player e')) = width e - 50)"
proof -
  obtain e1 where e1: "GameEngine_update e dt = Some e1" "updates e1 dts = Some e'"
    using assms(3) by (auto split: option.splits)
  have w: "width e1 = width e" using update_width[OF e1(1)] .
  have 1: "vx (position (player e1)) \<le> width e1 - 50
       \<and> (100 \<le> width e1 \<longrightarrow> 50 \<le> vx (position (player e1)))
       \<and> (width e1 < 100 \<longrightarrow> vx (position (player e1)) = width e1 - 50)"
    using update_playing[OF assms(1) e1(1)] assms(2) w by simp
  have "mode (config e1) = ''lane-shooter''" using update_mode[OF e1(1)] assms(2) by simp
  from updates_clamped[OF e1(2) this 1] w show ?thesis by simp
qed

lemma start_fields:
  "state (start (new_GameEngine w h r)) = Playing"
  "mode (config (start (new_GameEngine w h r))) = ''lane-shooter''"
  "width (start (new_GameEngine w h r)) = w"
  "asteroids (start (new_GameEngine w h r)) = []"
  "projectiles (start (new_GameEngine w h r)) = []"
  "powerUps (start (new_GameEngine w h r)) = []"
  "hazards (start (new_GameEngine w h r)) = []"
  "wave (start (new_GameEngine w h r)) = 1"
  "keys (start (new_GameEngine w h r)) = (\<lambda>k. False)"
  "\<not> down (mouse (start (new_GameEngine w h r)))"
  "linearDamping (player (start (new_GameEngine w h r))) = 0.999"
  "angularDamping (player (start (new_GameEngine w h r))) = 0.995"
  by (simp_all add: start_def new_GameEngine_def default_config_def Let_def setupPlayer_ship_def
     new_PhysicsBody_def PhysicsBody.extend_def)

text \<open>
  A frame of a new game on a playfield 800 wide with the key \<open>a\<close> (left) held: the step
  returns and the ship is between the margins.
\<close>

theorem lane_clamp_witness:
  "state (keydown (start (new_GameEngine 800 600 (\<lambda>_. 1 / 2))) ''a'') = Playing
   \<and> mode (config (keydown (start (new_GameEngine 800 600 (\<lambda>_. 1 / 2))) ''a'')) = ''lane-shooter''
   \<and> keys (keydown (start (new_GameEngine 800 600 (\<lambda>_. 1 / 2))) ''a'') ''a''
   \<and> (\<exists>e'. updates (keydown (start (new_GameEngine 800 600 (\<lambda>_. 1 / 2))) ''a'') [1 / 60] = Some e'
         \<and> width e' = 800
         \<and> vx (position (player e')) \<le> 750 \<and> 50 \<le> vx (position (player e')))"
proof -
  let ?e = "keydown (start (new_GameEngine 800 600 (\<lambda>_. 1 / 2))) ''a''"
  have f: "state ?e = Playing" "mode (config ?e) = ''lane-shooter''" "keys ?e ''a''" "width ?e = 800"
    by (simp_all add: keydown_def start_fields)
  have "\<exists>e'. GameEngine_update ?e (1 / 60) = Some e'"
    by (rule update_returns) (simp_all add: keydown_def start_fields)
  then obtain e' where e': "updates ?e [1 / 60] = Some e'" by auto
  from lane_clamp[OF f(1) f(2) e'] f(4)
  have "width e' = 800 \<and> vx (position (player e')) \<le> 750 \<and> 50 \<le> vx (position (player e'))"
    by simp
  then show ?thesis using f e' by blast
qed

text \<open>
  The claim as it is written fails on a playfield 80 wide: after the first frame of a new
  game the ship is at \<open>x = 30\<close>, left of the left margin 50.
\<close>

theorem lane_clamp_counterexample:
  "state (start (new_GameEngine 80 600 (\<lambda>_. 1 / 2))) = Playing
   \<and> mode (config (start (new_GameEngine 80 600 (\<lambda>_. 1 / 2)))) = ''lane-shooter''
   \<and> map_option (vx \<circ> position \<circ> player)
        (updates (start (new_GameEngine 80 600 (\<lambda>_. 1 / 2))) [1 / 60]) = Some 30
   \<and> (30::real) < 50"
proof -
  let ?e = "start (new_GameEngine 80 600 (\<lambda>_. 1 / 2))"
  have f: "state ?e = Playing" "mode (config ?e) = ''lane-shooter''" "width ?e = 80"
    by (simp_all add: start_fields)
  have "\<exists>e'. GameEngine_update ?e (1 / 60) = Some e'"
    by (rule update_returns) (simp_all add: start_fields)
  then obtain e' where e': "GameEngine_update ?e (1 / 60) = Some e'" by auto
  have "vx (position (player e')) = 30"
    using update_playing[OF f(1) e'] f(2) f(3) by simp
  then have "map_option (vx \<circ> position \<circ> player) (updates ?e [1 / 60]) = Some 30"
    using e' by simp
  then show ?thesis using f by simp
qed

section \<open>The score of a kill\<close>

lemma increaseCombo_multiplier:
  "count (comboSystem (increaseCombo e)) = count (comboSystem e) + 1
   \<and> maxMultiplier (comboSystem (increaseCombo e)) = maxMultiplier (comboSystem e)
   \<and> multiplier (comboSystem (increaseCombo e)) =
       min (1 + 0.1 * real_of_int (count (comboSystem (increaseCombo e))))
           (maxMultiplier (comboSystem (increaseCombo e)))
   \<and> score (increaseCombo e) = score e \<and> kills (increaseCombo e) = kills e"
  by (simp add: increaseCombo_def Let_def mult.commute)

text \<open>
  The projectile kill (\<open>scoreKill\<close>, the first part of the block of \<open>update\<close> for a destroyed
  asteroid): the combo grows by one, the multiplier is \<open>min (1 + 0.1 * count) maxMultiplier\<close>
  for the new count, and the score grows by the floor of the base score (the boss's
  \<open>scoreValue\<close>, else the entry of the size) times the multiplier.
\<close>

lemma projectile_kill_score:
  assumes "scoreKill a e = Some (e', b)"
  shows "count (comboSystem e') = count (comboSystem e) + 1
       \<and> multiplier (comboSystem e') =
           min (1 + 0.1 * real_of_int (count (comboSystem e'))) (maxMultiplier (comboSystem e'))
       \<and> (if isBoss a then scoreValue a = Some b else b = scoreMap (size_name a))
       \<and> score e' = score e + \<lfloor>b * multiplier (comboSystem e')\<rfloor>
       \<and> kills e' = kills e + 1"
proof -
  let ?e1 = "increaseCombo e"
  have e': "e' = ?e1\<lparr>score := score ?e1 + \<lfloor>b * multiplier (comboSystem ?e1)\<rfloor>,
                     kills := kills ?e1 + 1\<rparr>"
    and b: "(if isBoss a then scoreValue a else Some (scoreMap (size_name a))) = Some b"
    using assms unfolding scoreKill_def Let_def by (auto split: option.splits)
  have "if isBoss a then scoreValue a = Some b else b = scoreMap (size_name a)"
    using b by (auto split: if_splits)
  then show ?thesis unfolding e' using increaseCombo_multiplier[of e] by simp
qed

lemma projectile_kill_returns:
  "\<not> isBoss a \<or> scoreValue a \<noteq> None \<Longrightarrow> \<exists>e' b. scoreKill a e = Some (e', b)"
  unfolding scoreKill_def Let_def by (cases "isBoss a") auto

lemma scoreMap_bounds: "0 < scoreMap sz \<and> scoreMap sz \<le> 100"
  by (cases sz) simp_all

text \<open>
  With the multiplier fixed and not negative (it is at least 1 in a game), the projectile
  kill of a huge asteroid scores at most that of the boss, whose \<open>scoreValue\<close> is 1000, and
  no projectile kill scores below 0.
\<close>

lemma projectile_kill_order:
  assumes "0 \<le> m"
  shows "\<lfloor>scoreMap Huge * m\<rfloor> \<le> \<lfloor>1000 * m\<rfloor> \<and> 0 \<le> \<lfloor>scoreMap sz * m\<rfloor> \<and> 0 \<le> \<lfloor>1000 * m\<rfloor>"
proof -
  have "scoreMap Huge * m \<le> 1000 * m" using assms by (simp add: mult_right_mono)
  moreover have "0 \<le> scoreMap sz * m" using assms scoreMap_bounds[of sz] by simp
  ultimately show ?thesis using assms by (simp add: floor_mono)
qed

lemma takeDamage_effect:
  "Asteroid_takeDamage a amount r = ((a', d), r') \<Longrightarrow>
     d = (Asteroid.health a - amount \<le> 0) \<and> size_name a' = size_name a
     \<and> position a' = position a"
  by (auto simp add: Asteroid_takeDamage_def Let_def split: if_splits)

text \<open>
  Claim C5, where the code leaves it. The chain reaction (\<open>checkChainReaction\<close>, one
  iteration of its loop) has no case for the boss: a boss within the radius with health at
  most 20 is destroyed as a huge asteroid. The score grows by \<open>floor(5 * multiplier)\<close>, with
  the multiplier and the combo as they were; the boss leaves the list and the boss system
  is as it was. At a multiplier of at least 1 this is less than \<open>floor(10 * multiplier)\<close>,
  which the projectile kill of a plain huge asteroid scores at the same multiplier.
\<close>

theorem boss_chain_kill:
  assumes "i < length (asteroids e)"
    and "isBoss (asteroids e ! i)" and "size_name (asteroids e ! i) = Huge"
    and "distanceTo pos (position (asteroids e ! i)) < rad"
    and "Asteroid.health (asteroids e ! i) \<le> 20"
    and "1 \<le> multiplier (comboSystem e)"
    and "\<not> isBoss h" and "size_name h = Huge"
    and "multiplier (comboSystem (increaseCombo e0)) = multiplier (comboSystem e)"
  shows "\<exists>e' e1 b. chainStep i pos rad e = Some e'
           \<and> score e' = score e + \<lfloor>5 * multiplier (comboSystem e)\<rfloor>
           \<and> kills e' = kills e + 1
           \<and> comboSystem e' = comboSystem e \<and> bossSystem e' = bossSystem e
           \<and> bossCount (asteroids e') + 1 = bossCount (asteroids e)
           \<and> scoreKill h e0 = Some (e1, b)
           \<and> multiplier (comboSystem e1) = multiplier (comboSystem e)
           \<and> score e1 = score e0 + \<lfloor>10 * multiplier (comboSystem e)\<rfloor>
           \<and> score e' - score e < score e1 - score e0"
proof -
  let ?a = "asteroids e ! i"
  let ?m = "multiplier (comboSystem e)"
  obtain a1 damaged r where td: "Asteroid_takeDamage ?a 20 (random e) = ((a1, damaged), r)"
    by (metis surj_pair)
  have d: "damaged" "size_name a1 = Huge" "isBoss a1"
    using takeDamage_effect[OF td] takeDamage_isBoss[OF td] assms(2,3,5) by simp_all
  let ?e1 = "e\<lparr>asteroids := (asteroids e)[i := a1], random := r\<rparr>"
  let ?e2 = "?e1\<lparr>score := score ?e1
                    + \<lfloor>chainScoreMap (size_name a1) * multiplier (comboSystem ?e1)\<rfloor>,
                  kills := kills ?e1 + 1\<rparr>"
  obtain fragments r' where sp: "Asteroid_split a1 (random ?e2) = (fragments, r')"
    by force
  let ?e3 = "?e2\<lparr>asteroids := removeAt i (asteroids ?e2) @ fragments, random := r',
                  pendingChainReactions :=
                    pendingChainReactions ?e2 @ [(position a1, rad * 0.7)]\<rparr>"
  have c: "chainStep i pos rad e = Some ?e3"
    using assms(1,4) d(1) td sp by (simp add: chainStep_def Let_def)
  have bc: "bossCount (asteroids ?e3) + 1 = bossCount (asteroids e)"
    using assms(1) d(3) split_bossCount[OF sp] bossCount_removeAt[of i "(asteroids e)[i := a1]"]
      bossCount_update[of i "asteroids e" a1] assms(2)
    by (simp add: bossCount_append)
  obtain e1 b where k: "scoreKill h e0 = Some (e1, b)"
    using projectile_kill_returns[of h e0] assms(7) by blast
  have k1: "b = 10" "multiplier (comboSystem e1) = ?m" "score e1 = score e0 + \<lfloor>10 * ?m\<rfloor>"
  proof -
    have e1: "e1 = (increaseCombo e0)\<lparr>score := score (increaseCombo e0)
                     + \<lfloor>b * multiplier (comboSystem (increaseCombo e0))\<rfloor>,
                     kills := kills (increaseCombo e0) + 1\<rparr>"
      and b: "b = scoreMap (size_name h)"
      using k assms(7) unfolding scoreKill_def Let_def by (auto split: option.splits)
    show "b = 10" using b assms(8) by simp
    then show "multiplier (comboSystem e1) = ?m" "score e1 = score e0 + \<lfloor>10 * ?m\<rfloor>"
      unfolding e1 using assms(9) increaseCombo_multiplier[of e0] by simp_all
  qed
  have lt: "\<lfloor>5 * ?m\<rfloor> < \<lfloor>10 * ?m\<rfloor>"
  proof -
    have "5 * ?m + 1 \<le> 10 * ?m" using assms(6) by simp
    then have "\<lfloor>5 * ?m\<rfloor> + 1 \<le> \<lfloor>10 * ?m\<rfloor>"
      by (metis floor_mono floor_add_int floor_one add.commute of_int_1)
    then show ?thesis by simp
  qed
  have s3: "score ?e3 = score e + \<lfloor>5 * ?m\<rfloor>" using d(2) by simp
  show ?thesis
    using c bc k k1 lt s3 by (intro exI[of _ ?e3] exI[of _ e1] exI[of _ b]) simp
qed


lemma new_Asteroid_body:
  assumes "new_Asteroid x y sz vel r = (f, r')"
  shows "size_name f = sz \<and> position f = \<lparr>vx = x, vy = y\<rparr>
       \<and> velocity f = (case vel of None \<Rightarrow> \<lparr>vx = 0, vy = 0\<rparr> | Some v \<Rightarrow> v)
       \<and> force f = \<lparr>vx = 0, vy = 0\<rparr> \<and> torque f = 0
       \<and> linearDamping f = 0.999 \<and> angularDamping f = 0.995 \<and> \<not> isStatic f
       \<and> \<not> isBoss f \<and> Asteroid.health f = sizeMap sz \<and> Asteroid.radius f = sizeMap sz"
proof -
  obtain col r2 where c: "getRandomColor (rest r) = (col, r2)" by force
  obtain verts r3 where g: "generateShape (sizeMap sz) r2 = (verts, r3)" by force
  show ?thesis
    using assms
    by (auto simp add: new_Asteroid_def Let_def c g PhysicsBody.extend_def new_PhysicsBody_def
        split: option.splits)
qed

lemma spawnBoss_boss:
  "\<exists>b r. spawnBoss e =
      e\<lparr>random := r,
        bossSystem := (bossSystem e)\<lparr>boss := Some b, bossSystem.active := True, phase := 1\<rparr>,
        asteroids := asteroids e @ [b]\<rparr>
     \<and> isBoss b \<and> size_name b = Huge \<and> scoreValue b = Some 1000
     \<and> Asteroid.health b = 200 + real_of_int (wave e) * 50
     \<and> position b = \<lparr>vx = width e / 2, vy = - 100\<rparr> \<and> velocity b = \<lparr>vx = 0, vy = 50\<rparr>
     \<and> force b = \<lparr>vx = 0, vy = 0\<rparr> \<and> torque b = 0
     \<and> linearDamping b = 0.999 \<and> angularDamping b = 0.995 \<and> \<not> isStatic b"
proof -
  obtain boss0 r1 where b: "new_Asteroid (width e / 2) (- 100) Huge (Some \<lparr>vx = 0, vy = 50\<rparr>)
     (random e) = (boss0, r1)" by force
  show ?thesis
    unfolding spawnBoss_def Let_def b prod.case
    using new_Asteroid_body[OF b]
    by (intro exI conjI) (rule refl, simp_all)
qed

lemma start_combo:
  "comboSystem (start e) =
     \<lparr>count = 0, timer = 0, maxTime = 3, multiplier = 1, maxMultiplier = 8\<rparr>"
  "score (start e) = 0" "wave (start e) = 1"
  by (simp_all add: start_def Let_def)

text \<open>
  A new game on a playfield of 800 by 600; the boss is spawned and brought down to a health
  of 10, and a kill has set the combo to 1 and the multiplier to 1.1. A chain reaction of
  radius 60 at the boss scores 5 and leaves the boss system active with no boss on the
  field; the projectile kill of a huge asteroid at the multiplier 1.1 scores 11.
\<close>

theorem boss_chain_kill_witness:
  "multiplier (comboSystem (increaseCombo
        ((spawnBoss (start (new_GameEngine 800 600 (\<lambda>_. 1 / 2))))
           \<lparr>asteroids := map (\<lambda>a. a\<lparr>Asteroid.health := 10\<rparr>)
              (asteroids (spawnBoss (start (new_GameEngine 800 600 (\<lambda>_. 1 / 2)))))\<rparr>))) = 1.1
   \<and> bossCount (asteroids (increaseCombo
        ((spawnBoss (start (new_GameEngine 800 600 (\<lambda>_. 1 / 2))))
           \<lparr>asteroids := map (\<lambda>a. a\<lparr>Asteroid.health := 10\<rparr>)
              (asteroids (spawnBoss (start (new_GameEngine 800 600 (\<lambda>_. 1 / 2)))))\<rparr>))) = 1
   \<and> (\<exists>e' e1 b.
        chainStep 0 \<lparr>vx = 400, vy = - 100\<rparr> 60
          (increaseCombo
            ((spawnBoss (start (new_GameEngine 800 600 (\<lambda>_. 1 / 2))))
               \<lparr>asteroids := map (\<lambda>a. a\<lparr>Asteroid.health := 10\<rparr>)
                  (asteroids (spawnBoss (start (new_GameEngine 800 600 (\<lambda>_. 1 / 2)))))\<rparr>))
          = Some e'
        \<and> score e' = 5 \<and> bossSystem.active (bossSystem e') \<and> bossCount (asteroids e') = 0
        \<and> scoreKill (fst (new_Asteroid 100 0 Huge None (\<lambda>_. 1 / 2)))
             (start (new_GameEngine 800 600 (\<lambda>_. 1 / 2))) = Some (e1, b)
        \<and> multiplier (comboSystem e1) = 1.1 \<and> score e1 = 11)"
proof -
  let ?E = "start (new_GameEngine 800 600 (\<lambda>_. 1 / 2))"
  let ?X = "(spawnBoss ?E)\<lparr>asteroids := map (\<lambda>a. a\<lparr>Asteroid.health := 10\<rparr>)
              (asteroids (spawnBoss ?E))\<rparr>"
  let ?e = "increaseCombo ?X"
  let ?h = "fst (new_Asteroid 100 0 Huge None (\<lambda>_. 1 / 2))"
  have E: "asteroids ?E = []" "width ?E = 800"
    by (simp_all add: start_def new_GameEngine_def Let_def)
  obtain bo r where sb: "spawnBoss ?E =
      ?E\<lparr>random := r,
        bossSystem := (bossSystem ?E)\<lparr>boss := Some bo, bossSystem.active := True, phase := 1\<rparr>,
        asteroids := asteroids ?E @ [bo]\<rparr>"
    and bo: "isBoss bo" "size_name bo = Huge" "position bo = \<lparr>vx = width ?E / 2, vy = - 100\<rparr>"
    using spawnBoss_boss[of ?E] by blast
  have X: "asteroids ?X = [bo\<lparr>Asteroid.health := 10\<rparr>]" "bossSystem.active (bossSystem ?X)"
    "comboSystem ?X = comboSystem ?E" "score ?X = 0"
    unfolding sb using E by (simp_all add: start_combo)
  have e: "asteroids ?e = [bo\<lparr>Asteroid.health := 10\<rparr>]" "bossSystem.active (bossSystem ?e)"
    "multiplier (comboSystem ?e) = 1.1" "score ?e = 0"
    using X by (simp_all add: increaseCombo_def Let_def start_combo)
  have m0: "multiplier (comboSystem (increaseCombo ?E)) = 1.1" "score ?E = 0"
    by (simp_all add: increaseCombo_def Let_def start_combo)
  have h: "\<not> isBoss ?h" "size_name ?h = Huge"
    using new_Asteroid_body[of 100 0 Huge None "\<lambda>_. 1 / 2" ?h "snd (new_Asteroid 100 0 Huge None (\<lambda>_. 1 / 2))"]
    by simp_all
  have bc: "bossCount (asteroids ?e) = 1" using e(1) bo(1) by (simp add: bossCount_def)
  have d: "distanceTo \<lparr>vx = 400, vy = - 100\<rparr> (position (asteroids ?e ! 0)) < 60"
    using e(1) bo(3) E(2) by (simp add: distanceTo_def)
  from boss_chain_kill[of 0 ?e "\<lparr>vx = 400, vy = - 100\<rparr>" 60 ?h ?E] e bo h m0 d
  obtain e' e1 b where r: "chainStep 0 \<lparr>vx = 400, vy = - 100\<rparr> 60 ?e = Some e'"
      "score e' = score ?e + \<lfloor>5 * multiplier (comboSystem ?e)\<rfloor>"
      "bossSystem e' = bossSystem ?e"
      "bossCount (asteroids e') + 1 = bossCount (asteroids ?e)"
      "scoreKill ?h ?E = Some (e1, b)"
      "multiplier (comboSystem e1) = multiplier (comboSystem ?e)"
      "score e1 = score ?E + \<lfloor>10 * multiplier (comboSystem ?e)\<rfloor>"
    by auto
  have "score e' = 5" "score e1 = 11" using r(2,7) e(3,4) m0(2) by simp_all
  moreover have "bossSystem.active (bossSystem e')" "bossCount (asteroids e') = 0"
    using r(3,4) e(2) bc by simp_all
  moreover have "multiplier (comboSystem e1) = 1.1" using r(6) e(3) by simp
  ultimately show ?thesis using r(1,5) e(3) bc by blast
qed

section \<open>The boss wave\<close>

lemma waveProgression_boss:
  assumes "wave e = 4" "bossWaveInterval (config e) = 5" "waveInterval e \<le> waveTimer e + dt"
  shows "\<exists>b r c. waveProgression e dt =
      e\<lparr>waveTimer := 0, wave := 5, config := c, random := r,
        bossSystem := (bossSystem e)\<lparr>boss := Some b, bossSystem.active := True, phase := 1\<rparr>,
        asteroids := asteroids e @ [b]\<rparr>
     \<and> mode c = mode (config e)
     \<and> isBoss b \<and> size_name b = Huge \<and> scoreValue b = Some 1000
     \<and> position b = \<lparr>vx = width e / 2, vy = - 100\<rparr> \<and> velocity b = \<lparr>vx = 0, vy = 50\<rparr>
     \<and> force b = \<lparr>vx = 0, vy = 0\<rparr> \<and> torque b = 0
     \<and> linearDamping b = 0.999 \<and> angularDamping b = 0.995 \<and> \<not> isStatic b"
proof -
  let ?e1 = "e\<lparr>waveTimer := waveTimer e + dt\<rparr>"
  let ?c = "(config ?e1)
                          \<lparr>asteroidSpawnRate :=
                             asteroidSpawnRate (config ?e1) * asteroidSpawnIncrease (config ?e1),
                           maxAsteroids := maxAsteroids (config ?e1) + 2,
                           difficultyMultiplier := difficultyMultiplier (config ?e1) + 0.1\<rparr>"
  let ?e2 = "?e1\<lparr>waveTimer := 0, wave := wave ?e1 + 1, config := ?c\<rparr>"
  have m: "js_mod (real_of_int (wave ?e2)) (bossWaveInterval (config ?e2)) = Some 0"
    using assms(1,2) by (simp add: js_mod_def)
  have w: "waveProgression e dt = spawnBoss ?e2"
    unfolding waveProgression_def Let_def using assms(3) m by simp
  obtain b r where sb: "spawnBoss ?e2 =
      ?e2\<lparr>random := r,
        bossSystem := (bossSystem ?e2)\<lparr>boss := Some b, bossSystem.active := True, phase := 1\<rparr>,
        asteroids := asteroids ?e2 @ [b]\<rparr>"
    and b: "isBoss b \<and> size_name b = Huge \<and> scoreValue b = Some 1000
     \<and> position b = \<lparr>vx = width ?e2 / 2, vy = - 100\<rparr> \<and> velocity b = \<lparr>vx = 0, vy = 50\<rparr>
     \<and> force b = \<lparr>vx = 0, vy = 0\<rparr> \<and> torque b = 0
     \<and> linearDamping b = 0.999 \<and> angularDamping b = 0.995 \<and> \<not> isStatic b"
    using spawnBoss_boss[of ?e2] by blast
  have "waveProgression e dt =
      e\<lparr>waveTimer := 0, wave := 5, config := ?c, random := r,
        bossSystem := (bossSystem e)\<lparr>boss := Some b, bossSystem.active := True, phase := 1\<rparr>,
        asteroids := asteroids e @ [b]\<rparr>"
    unfolding w sb using assms(1) by simp
  moreover have "mode ?c = mode (config e)" by simp
  ultimately show ?thesis using b by (intro exI[of _ b] exI[of _ r] exI[of _ ?c]) simp
qed

lemma spawnAsteroid_gated: "bossSystem.active (bossSystem e) \<Longrightarrow> spawnAsteroid e = e"
  by (simp add: spawnAsteroid_def)

lemma run_boss:
  assumes "run c e = Some e'" "c \<noteq> Start"
    "bossSystem.active (bossSystem e)" "\<not> bossSystem.active (bossSystem e')"
  shows "bossCount (asteroids e') < bossCount (asteroids e)"
proof (cases c)
  case Start
  then show ?thesis using assms by simp
next
  case Pause
  then show ?thesis using assms by (cases "state e = Playing") (auto simp add: pause_def)
next
  case Resume
  then show ?thesis using assms by (cases "state e = Paused") (auto simp add: resume_def)
next
  case (Update dt)
  show ?thesis
  proof (cases "state e = Playing")
    case True
    then show ?thesis using update_playing[of e dt e'] assms Update by auto
  next
    case False
    then show ?thesis using update_not_playing[of e dt] assms Update by auto
  qed
next
  case RunChainReaction
  then show ?thesis
    using assms runChainReaction_frame1[of e e'] by (simp add: frame1_def)
next
  case (Keydown k)
  then show ?thesis using assms by (auto simp add: keydown_def)
next
  case (Keyup k)
  then show ?thesis using assms by (auto simp add: keyup_def)
next
  case (Mousemove x y)
  then show ?thesis using assms by (auto simp add: mousemove_def)
next
  case Mousedown
  then show ?thesis using assms mousedown_base[of e] by (auto simp add: base_def)
next
  case Mouseup
  then show ?thesis using assms by (auto simp add: mouseup_def)
next
  case (Resize w h)
  then show ?thesis using assms by (auto simp add: resize_def)
qed

text \<open>
  Claim C7. With a boss interval of 5, the wave progression that ends wave 4 enters wave 5,
  adds one asteroid, a boss, to the field and sets the boss system active. With the boss
  system active \<open>spawnAsteroid\<close> returns the engine as it is. Under every call but \<open>start\<close>
  (which begins a new game), the boss system goes from active to inactive only when the
  field has one boss asteroid fewer afterwards: a boss was destroyed or has left the field.
\<close>

theorem boss_gating:
  "(wave e = 4 \<and> bossWaveInterval (config e) = 5 \<and> waveInterval e \<le> waveTimer e + dt \<longrightarrow>
      wave (waveProgression e dt) = 5
      \<and> (\<exists>b. isBoss b \<and> asteroids (waveProgression e dt) = asteroids e @ [b])
      \<and> bossCount (asteroids (waveProgression e dt)) = bossCount (asteroids e) + 1
      \<and> bossSystem.active (bossSystem (waveProgression e dt)))
   \<and> (bossSystem.active (bossSystem e) \<longrightarrow>
        spawnAsteroid e = e \<and> asteroids (asteroidSpawnTick e dt) = asteroids e)
   \<and> (bossSystem.active (bossSystem e) \<and> c \<noteq> Start \<and> run c e = Some e'
        \<and> \<not> bossSystem.active (bossSystem e')
      \<longrightarrow> bossCount (asteroids e') < bossCount (asteroids e))"
proof -
  have 1: "wave e = 4 \<and> bossWaveInterval (config e) = 5 \<and> waveInterval e \<le> waveTimer e + dt \<longrightarrow>
      wave (waveProgression e dt) = 5
      \<and> (\<exists>b. isBoss b \<and> asteroids (waveProgression e dt) = asteroids e @ [b])
      \<and> bossCount (asteroids (waveProgression e dt)) = bossCount (asteroids e) + 1
      \<and> bossSystem.active (bossSystem (waveProgression e dt))"
  proof
    assume a: "wave e = 4 \<and> bossWaveInterval (config e) = 5 \<and> waveInterval e \<le> waveTimer e + dt"
    then obtain b r c where w: "waveProgression e dt =
      e\<lparr>waveTimer := 0, wave := 5, config := c, random := r,
        bossSystem := (bossSystem e)\<lparr>boss := Some b, bossSystem.active := True, phase := 1\<rparr>,
        asteroids := asteroids e @ [b]\<rparr>" and b: "isBoss b"
      using waveProgression_boss[of e dt] by blast
    show "wave (waveProgression e dt) = 5
      \<and> (\<exists>b. isBoss b \<and> asteroids (waveProgression e dt) = asteroids e @ [b])
      \<and> bossCount (asteroids (waveProgression e dt)) = bossCount (asteroids e) + 1
      \<and> bossSystem.active (bossSystem (waveProgression e dt))"
      unfolding w using b by (simp add: bossCount_def)
  qed
  have 2: "bossSystem.active (bossSystem e) \<longrightarrow>
        spawnAsteroid e = e \<and> asteroids (asteroidSpawnTick e dt) = asteroids e"
    by (simp add: asteroidSpawnTick_def Let_def spawnAsteroid_def)
  have 3: "bossSystem.active (bossSystem e) \<and> c \<noteq> Start \<and> run c e = Some e'
        \<and> \<not> bossSystem.active (bossSystem e')
      \<longrightarrow> bossCount (asteroids e') < bossCount (asteroids e)"
    using run_boss[of c e e'] by blast
  show ?thesis using 1 2 3 by blast
qed


section \<open>The boss leaves the field\<close>

lemma spawnAsteroid_shape: "\<exists>as r. spawnAsteroid e = e\<lparr>asteroids := as, random := r\<rparr>"
proof (cases "real (length (asteroids e)) \<ge> maxAsteroids (config e) \<or> bossSystem.active (bossSystem e)")
  case True
  then have "spawnAsteroid e = e" by (auto simp add: spawnAsteroid_def)
  then have "spawnAsteroid e = e\<lparr>asteroids := asteroids e, random := random e\<rparr>" by simp
  then show ?thesis by blast
next
  case False
  obtain x r2 where x: "spawnX e = (x, r2)" by force
  let ?sz = "pickSize (spawnWeights (wave e)) (r2 0) 0 Small"
  let ?r3 = "rest r2"
  let ?vel = "fromAngle (pi / 2 + (?r3 0 - 0.5) * 0.5)
               ((80 + rest ?r3 0 * 120) * (1 + difficultyMultiplier (config e) * 0.3))"
  obtain a r5 where a: "new_Asteroid x (- 50) ?sz (Some ?vel) (rest (rest ?r3)) = (a, r5)"
    by force
  let ?wf = "1 + (real_of_int (wave e) - 1) * 0.1"
  let ?a1 = "a\<lparr>Asteroid.health := Asteroid.health a * ?wf,
                   maxHealth := maxHealth a * ?wf,
                   Asteroid.damage := (sizeMap ?sz / 2) * ?wf,
                   angularVelocity := (r5 0 - 0.5) * 3\<rparr>"
  have "spawnAsteroid e = e\<lparr>asteroids := asteroids e @ [safetyShift e ?a1], random := rest r5\<rparr>"
    using False unfolding spawnAsteroid_def Let_def x prod.case a by simp
  then show ?thesis by blast
qed

lemma asteroidSpawnTick_timers:
  "wave (asteroidSpawnTick e dt) = wave e
   \<and> waveTimer (asteroidSpawnTick e dt) = waveTimer e
   \<and> waveInterval (asteroidSpawnTick e dt) = waveInterval e
   \<and> hazardSpawnTimer (asteroidSpawnTick e dt) = hazardSpawnTimer e
   \<and> hazardSpawnInterval (asteroidSpawnTick e dt) = hazardSpawnInterval e"
proof -
  let ?e1 = "e\<lparr>asteroidSpawnTimer := asteroidSpawnTimer e + dt\<rparr>"
  obtain as r where "spawnAsteroid (?e1\<lparr>asteroidSpawnTimer := 0\<rparr>)
      = ?e1\<lparr>asteroidSpawnTimer := 0\<rparr>\<lparr>asteroids := as, random := r\<rparr>"
    using spawnAsteroid_shape by blast
  then show ?thesis unfolding asteroidSpawnTick_def Let_def by simp
qed

lemma timers_timers:
  "hazards (updateWeaponTimer (updateComboTimer e dt) dt) = hazards e
   \<and> wave (updateWeaponTimer (updateComboTimer e dt) dt) = wave e
   \<and> waveTimer (updateWeaponTimer (updateComboTimer e dt) dt) = waveTimer e
   \<and> waveInterval (updateWeaponTimer (updateComboTimer e dt) dt) = waveInterval e
   \<and> hazardSpawnTimer (updateWeaponTimer (updateComboTimer e dt) dt) = hazardSpawnTimer e
   \<and> hazardSpawnInterval (updateWeaponTimer (updateComboTimer e dt) dt) = hazardSpawnInterval e
   \<and> asteroids (updateWeaponTimer (updateComboTimer e dt) dt) = asteroids e
   \<and> bossSystem (updateWeaponTimer (updateComboTimer e dt) dt) = bossSystem e"
  by (simp add: updateWeaponTimer_def updateComboTimer_def resetCombo_def Let_def)

lemma updateRest_quiet:
  assumes "projectiles e = []" "powerUps e = []" "hazards e = []"
    and "wave e \<le> 2 \<or> hazardSpawnTimer e + dt < hazardSpawnInterval e"
    and "waveTimer e + dt < waveInterval e"
  shows "\<exists>e'. updateRest e dt = Some e' \<and> bossSystem e' = bossSystem e
           \<and> bossCount (asteroids e') \<le> bossCount (asteroids e)"
proof -
  let ?e3 = "updateWeaponTimer (updateComboTimer e dt) dt"
  let ?e4 = "asteroidSpawnTick ?e3 dt"
  let ?e5 = "?e4\<lparr>hazardSpawnTimer := hazardSpawnTimer ?e4 + dt\<rparr>"
  let ?e6 = "?e5\<lparr>waveTimer := waveTimer ?e5 + dt\<rparr>"
  have t3: "hazards ?e3 = []" "asteroids ?e3 = asteroids e" "bossSystem ?e3 = bossSystem e"
    using timers_timers[of e dt] assms(3) by simp_all
  have t4: "wave ?e4 = wave e" "waveTimer ?e4 = waveTimer e" "waveInterval ?e4 = waveInterval e"
    "hazardSpawnTimer ?e4 = hazardSpawnTimer e" "hazardSpawnInterval ?e4 = hazardSpawnInterval e"
    using asteroidSpawnTick_timers[of ?e3 dt] timers_timers[of e dt] by simp_all
  have f4: "bossSystem ?e4 = bossSystem e" "bossCount (asteroids ?e4) \<le> bossCount (asteroids e)"
    using asteroidSpawnTick_frame1[of ?e3 dt] t3 by (simp_all add: frame1_def)
  have 5: "hazardSpawnTick ?e4 dt = Some ?e5"
    unfolding hazardSpawnTick_def Let_def using assms(4) t4 by auto
  have 6: "waveProgression ?e5 dt = ?e6"
    unfolding waveProgression_def Let_def using assms(5) t4 by simp
  have "updateRest e dt = Some ?e6"
    unfolding updateRest_def Let_def using assms(1,2) t3(1) 5 6 by simp
  then show ?thesis using f4 by simp
qed

lemma laneVelocity_timers:
  "waveTimer (laneVelocity e dt) = waveTimer e \<and> waveInterval (laneVelocity e dt) = waveInterval e
   \<and> hazardSpawnTimer (laneVelocity e dt) = hazardSpawnTimer e
   \<and> hazardSpawnInterval (laneVelocity e dt) = hazardSpawnInterval e
   \<and> Spaceship.health (player (laneVelocity e dt)) = Spaceship.health (player e)"
proof -
  obtain lm v where "laneVelocity e dt =
     e\<lparr>laneMovement := lm, player := (player e)\<lparr>velocity := (velocity (player e))\<lparr>vx := v\<rparr>\<rparr>\<rparr>"
    using laneVelocity_shape by blast
  then show ?thesis by simp
qed

lemma fireAndShield_timers:
  assumes "\<not> keys e '' ''" "\<not> down (mouse e)"
  shows "waveTimer (fireAndShield e) = waveTimer e \<and> waveInterval (fireAndShield e) = waveInterval e
   \<and> hazardSpawnTimer (fireAndShield e) = hazardSpawnTimer e
   \<and> hazardSpawnInterval (fireAndShield e) = hazardSpawnInterval e
   \<and> Spaceship.health (player (fireAndShield e)) = Spaceship.health (player e)"
  using assms by (simp add: fireAndShield_def Let_def activateShield_def deactivateShield_def)

lemma laneLocks_timers:
  "waveTimer (laneLocks e) = waveTimer e \<and> waveInterval (laneLocks e) = waveInterval e
   \<and> hazardSpawnTimer (laneLocks e) = hazardSpawnTimer e
   \<and> hazardSpawnInterval (laneLocks e) = hazardSpawnInterval e
   \<and> Spaceship.health (player (laneLocks e)) = Spaceship.health (player e)"
  by (simp add: laneLocks_def Let_def split: option.splits)

lemma handleInput_timers:
  assumes "mode (config e) = ''lane-shooter''" "\<not> keys e '' ''" "\<not> down (mouse e)"
  shows "waveTimer (handleInput e dt) = waveTimer e \<and> waveInterval (handleInput e dt) = waveInterval e
   \<and> hazardSpawnTimer (handleInput e dt) = hazardSpawnTimer e
   \<and> hazardSpawnInterval (handleInput e dt) = hazardSpawnInterval e
   \<and> Spaceship.health (player (handleInput e dt)) = Spaceship.health (player e)"
proof -
  let ?a = "laneVelocity e dt"
  have k: "\<not> keys ?a '' ''" "\<not> down (mouse ?a)" using laneVelocity_quiet[of e dt] assms by simp_all
  have "handleInput e dt = e \<or> handleInput e dt = laneLocks (fireAndShield ?a)"
    unfolding handleInput_def using assms(1) by simp
  then show ?thesis
    using laneLocks_timers[of "fireAndShield ?a"] fireAndShield_timers[OF k] laneVelocity_timers[of e dt]
    by auto
qed

lemma ship_parts_health:
  "Spaceship.health (limitVelocity s m) = Spaceship.health s"
  "Spaceship.health (updateShield s dt) = Spaceship.health s"
  "Spaceship.health (updateCooldown s dt) = Spaceship.health s"
  "Spaceship.health (updateInvulnerability s dt) = Spaceship.health s"
  "Spaceship.health (updateTrail s dt) = Spaceship.health s"
proof -
  show "Spaceship.health (limitVelocity s m) = Spaceship.health s"
    by (simp add: limitVelocity_def)
  show "Spaceship.health (updateShield s dt) = Spaceship.health s"
    by (simp add: updateShield_def deactivateShield_def Let_def)
  show "Spaceship.health (updateCooldown s dt) = Spaceship.health s"
    by (simp add: updateCooldown_def)
  show "Spaceship.health (updateInvulnerability s dt) = Spaceship.health s"
    by (simp add: updateInvulnerability_def Let_def)
  show "Spaceship.health (updateTrail s dt) = Spaceship.health s"
    by (simp add: updateTrail_def Let_def)
qed

lemma Spaceship_update_health:
  assumes "Spaceship_update s dt = Some s'"
  shows "Spaceship.health s' = Spaceship.health s"
proof -
  obtain s1 where s1: "PhysicsBody_update s dt = Some s1"
    using assms by (auto simp add: Spaceship_update_def split: option.splits)
  have "PhysicsBody.more s1 = PhysicsBody.more s" using PhysicsBody_update_more[OF s1] .
  then have h: "Spaceship.health s1 = Spaceship.health s"
    by (cases s, cases s1) simp
  have "s' = (updateTrail (updateInvulnerability (updateCooldown (updateShield
            (limitVelocity s1 (maxSpeed s1)) dt) dt) dt) dt)\<lparr>isThrusting := False, isBraking := False,
                      strafingDirection := 0, rotationDirection := 0\<rparr>"
    using assms unfolding Spaceship_update_def s1 option.case Let_def by simp
  then show ?thesis
    using h by (simp add: ship_parts_health)
qed

lemma updatePlayer_timers:
  assumes "updatePlayer e dt = Some e'"
  shows "waveTimer e' = waveTimer e \<and> waveInterval e' = waveInterval e
   \<and> hazardSpawnTimer e' = hazardSpawnTimer e \<and> hazardSpawnInterval e' = hazardSpawnInterval e
   \<and> (mode (config e) = ''lane-shooter'' \<longrightarrow>
        Spaceship.health (player e') = Spaceship.health (player e))"
proof -
  obtain p where p: "Spaceship_update (player e) dt = Some p"
    using assms by (auto simp add: updatePlayer_def split: option.splits)
  have "e' = (if mode (config e) = ''lane-shooter'' then laneClamp (e\<lparr>player := p\<rparr>)
              else e\<lparr>player := p\<rparr>\<lparr>player := bounceOffBounds p (Spaceship.width p) (Spaceship.height p)
                            (width (e\<lparr>player := p\<rparr>)) (height (e\<lparr>player := p\<rparr>)) 0.5\<rparr>)"
    using assms unfolding updatePlayer_def p option.case Let_def by (auto split: if_splits)
  then show ?thesis using Spaceship_update_health[OF p] by (auto simp add: laneClamp_def Let_def)
qed


lemma Math_pow_positive: "0 < b \<Longrightarrow> \<exists>p. Math_pow b e = Some p \<and> 0 < p"
  by (simp add: Math_pow_def)

lemma PhysicsBody_update_falls:
  assumes "\<not> isStatic b" "0 < linearDamping b" "0 < angularDamping b"
    and "force b = \<lparr>vx = 0, vy = 0\<rparr>" "0 \<le> vy (velocity b)" "0 \<le> dt"
  shows "\<exists>b'. PhysicsBody_update b dt = Some b' \<and> vy (position b) \<le> vy (position b')"
proof -
  obtain p where p: "Math_pow (linearDamping b) (dt * 60) = Some p" "0 < p"
    using Math_pow_positive[OF assms(2)] by blast
  obtain q where q: "Math_pow (angularDamping b) (dt * 60) = Some q"
    using Math_pow_pos[OF assms(3)] by blast
  have "0 \<le> vy (velocity b) * p * dt" using assms(5,6) p(2) by simp
  then show ?thesis
    using assms(1,4)
    by (simp add: PhysicsBody_update_def p q Let_def Vector2D_multiply_def Vector2D_add_def)
qed

text \<open>
  A frame in which the only asteroid, a boss, is past the lower edge by more than 100 after
  its own update, nothing is fired, no wave ends and no hazard is due: the frame returns,
  the boss system is inactive afterwards and no boss is on the field.
\<close>

lemma boss_leaves:
  assumes st: "state e = Playing" and md: "mode (config e) = ''lane-shooter''"
    and k: "\<not> keys e '' ''" "\<not> down (mouse e)"
    and l: "projectiles e = []" "powerUps e = []" "hazards e = []"
    and a: "asteroids e = [a]" "isBoss a"
    and u: "PhysicsBody_update a (min dt 0.1) = Some a'" "height e + 100 < vy (position a')"
    and p: "0 < linearDamping (player e)" "0 < angularDamping (player e)"
           "0 < Spaceship.health (player e)"
    and w: "waveTimer e + min dt 0.1 < waveInterval e"
    and hz: "wave e \<le> 2 \<or> hazardSpawnTimer e + min dt 0.1 < hazardSpawnInterval e"
  shows "\<exists>e'. GameEngine_update e dt = Some e' \<and> \<not> bossSystem.active (bossSystem e')
           \<and> bossCount (asteroids e') = 0"
proof -
  let ?dt = "min dt 0.1"
  let ?e1 = "e\<lparr>time := time e + ?dt\<rparr>"
  let ?e2 = "handleInput ?e1 ?dt"
  have q2: "projectiles ?e2 = [] \<and> powerUps ?e2 = [] \<and> hazards ?e2 = [] \<and> wave ?e2 = wave e
     \<and> 0 < linearDamping (player ?e2) \<and> 0 < angularDamping (player ?e2)"
    using handleInput_quiet[of ?e1 ?dt] md k l p by simp
  have t2: "waveTimer ?e2 = waveTimer e \<and> waveInterval ?e2 = waveInterval e
     \<and> hazardSpawnTimer ?e2 = hazardSpawnTimer e \<and> hazardSpawnInterval ?e2 = hazardSpawnInterval e
     \<and> Spaceship.health (player ?e2) = Spaceship.health (player e)"
    using handleInput_timers[of ?e1 ?dt] md k by simp
  have b2: "base e ?e2" using base_trans[OF _ handleInput_base, of e ?e1 ?dt] by (simp add: base_def)
  obtain s where s: "Spaceship_update (player ?e2) ?dt = Some s"
    using Spaceship_update_returns q2 by blast
  have "\<exists>e3. updatePlayer ?e2 ?dt = Some e3"
    unfolding updatePlayer_def s option.case Let_def
    by (cases "mode (config ?e2) = ''lane-shooter''") simp_all
  then obtain e3 where 3: "updatePlayer ?e2 ?dt = Some e3" by blast
  have b3: "base e e3" using base_trans[OF b2 updatePlayer_base[OF 3]] .
  have m2: "mode (config ?e2) = ''lane-shooter''" using b2 md by (simp add: base_def)
  have q3: "projectiles e3 = []" "powerUps e3 = []" "hazards e3 = []" "wave e3 = wave e"
    using updatePlayer_quiet[OF 3] q2 by simp_all
  have t3: "waveTimer e3 = waveTimer e" "waveInterval e3 = waveInterval e"
     "hazardSpawnTimer e3 = hazardSpawnTimer e" "hazardSpawnInterval e3 = hazardSpawnInterval e"
     "Spaceship.health (player e3) = Spaceship.health (player e)"
    using updatePlayer_timers[OF 3] t2 m2 by simp_all
  have a3: "asteroids e3 = [a]" "height e3 = height e" "bossSystem e3 = bossSystem e"
    using b3 a(1) by (simp_all add: base_def)
  have nd: "\<not> isDestroyed (player e3)" using t3(5) p(3) by (simp add: isDestroyed_def)
  have ba': "isBoss a'" using Asteroid_update_isBoss[OF u(1)] a(2) by simp
  let ?e4 = "e3\<lparr>asteroids := [], bossSystem := (bossSystem e3)\<lparr>bossSystem.active := False, boss := None\<rparr>\<rparr>"
  have "asteroidStep 0 ?dt e3 = Some (?e4, False)"
    unfolding asteroidStep_def using a3 u ba' by (simp add: Let_def removeAt_def)
  then have 4: "asteroidLoop (length (asteroids e3)) ?dt e3 = Some (?e4, False)"
    using a3(1) by simp
  obtain e' where r: "updateRest ?e4 ?dt = Some e'" "bossSystem e' = bossSystem ?e4"
           "bossCount (asteroids e') \<le> bossCount (asteroids ?e4)"
    using updateRest_quiet[of ?e4 ?dt] q3 t3 w hz by auto
  have "GameEngine_update e dt = Some e'"
    unfolding GameEngine_update_def Let_def 3 option.case 4 prod.case using st nd r(1) by simp
  moreover have "\<not> bossSystem.active (bossSystem e')" using r(2) by simp
  moreover have "bossCount (asteroids e') = 0" using r(3) by (simp add: bossCount_def)
  ultimately show ?thesis by blast
qed


lemma start_timers:
  "height (start (new_GameEngine w h r)) = h"
  "waveInterval (start (new_GameEngine w h r)) = 30"
  "bossWaveInterval (config (start (new_GameEngine w h r))) = 5"
  "hazardSpawnTimer (start (new_GameEngine w h r)) = 0"
  "hazardSpawnInterval (start (new_GameEngine w h r)) = 15"
  "Spaceship.health (player (start (new_GameEngine w h r))) = 100"
  "\<not> bossSystem.active (bossSystem (start (new_GameEngine w h r)))"
  by (simp_all add: start_def new_GameEngine_def default_config_def Let_def setupPlayer_ship_def
     new_PhysicsBody_def PhysicsBody.extend_def Spaceship.fields_def)

text \<open>
  A game on a playfield of 800 by 600 at the end of wave 4: the wave progression enters
  wave 5 with one boss on the field and the boss system active, and \<open>spawnAsteroid\<close> then
  changes nothing. When the boss has drifted to \<open>y = 701\<close>, past the lower edge by more than
  100, the next frame removes it and sets the boss system inactive.
\<close>

theorem boss_gating_witness:
  "wave (waveProgression ((start (new_GameEngine 800 600 (\<lambda>_. 1 / 2)))\<lparr>wave := 4, waveTimer := 30\<rparr>)
          (1 / 60)) = 5
   \<and> bossCount (asteroids (waveProgression
          ((start (new_GameEngine 800 600 (\<lambda>_. 1 / 2)))\<lparr>wave := 4, waveTimer := 30\<rparr>) (1 / 60))) = 1
   \<and> bossSystem.active (bossSystem (waveProgression
          ((start (new_GameEngine 800 600 (\<lambda>_. 1 / 2)))\<lparr>wave := 4, waveTimer := 30\<rparr>) (1 / 60)))
   \<and> spawnAsteroid (waveProgression
          ((start (new_GameEngine 800 600 (\<lambda>_. 1 / 2)))\<lparr>wave := 4, waveTimer := 30\<rparr>) (1 / 60))
       = waveProgression
          ((start (new_GameEngine 800 600 (\<lambda>_. 1 / 2)))\<lparr>wave := 4, waveTimer := 30\<rparr>) (1 / 60)
   \<and> (\<exists>e'. run (Update (1 / 60))
          ((waveProgression
              ((start (new_GameEngine 800 600 (\<lambda>_. 1 / 2)))\<lparr>wave := 4, waveTimer := 30\<rparr>) (1 / 60))
             \<lparr>asteroids := map (\<lambda>a. a\<lparr>position := \<lparr>vx = 400, vy = 701\<rparr>\<rparr>)
                (asteroids (waveProgression
                   ((start (new_GameEngine 800 600 (\<lambda>_. 1 / 2)))\<lparr>wave := 4, waveTimer := 30\<rparr>)
                   (1 / 60)))\<rparr>) = Some e'
         \<and> \<not> bossSystem.active (bossSystem e')
         \<and> bossCount (asteroids e') < 1)"
proof -
  let ?E = "start (new_GameEngine 800 600 (\<lambda>_. 1 / 2))"
  let ?e1 = "?E\<lparr>wave := 4, waveTimer := 30\<rparr>"
  let ?e2 = "waveProgression ?e1 (1 / 60)"
  let ?e3 = "?e2\<lparr>asteroids := map (\<lambda>a. a\<lparr>position := \<lparr>vx = 400, vy = 701\<rparr>\<rparr>) (asteroids ?e2)\<rparr>"
  have h1: "wave ?e1 = 4 \<and> bossWaveInterval (config ?e1) = 5 \<and> waveInterval ?e1 \<le> waveTimer ?e1 + 1 / 60"
    by (simp add: start_timers)
  then obtain b r c where w: "?e2 =
      ?e1\<lparr>waveTimer := 0, wave := 5, config := c, random := r,
        bossSystem := (bossSystem ?e1)\<lparr>boss := Some b, bossSystem.active := True, phase := 1\<rparr>,
        asteroids := asteroids ?e1 @ [b]\<rparr>"
     and c: "mode c = mode (config ?e1)"
     and b: "isBoss b" "velocity b = \<lparr>vx = 0, vy = 50\<rparr>" "force b = \<lparr>vx = 0, vy = 0\<rparr>"
       "linearDamping b = 0.999" "angularDamping b = 0.995" "\<not> isStatic b"
    using waveProgression_boss[of ?e1 "1 / 60"] by blast
  from boss_gating[of ?e1 "1 / 60"] h1
  have p1: "wave ?e2 = 5" "bossCount (asteroids ?e2) = bossCount (asteroids ?e1) + 1"
    "bossSystem.active (bossSystem ?e2)"
    by blast+
  have p1': "bossCount (asteroids ?e2) = 1"
    using p1(2) by (simp add: start_fields bossCount_def)
  from boss_gating[of ?e2] p1(3) have p2: "spawnAsteroid ?e2 = ?e2" by blast
  let ?a = "b\<lparr>position := \<lparr>vx = 400, vy = 701\<rparr>\<rparr>"
  have a3: "asteroids ?e3 = [?a]" unfolding w by (simp add: start_fields)
  have f3: "state ?e3 = Playing" "mode (config ?e3) = ''lane-shooter''"
    "\<not> keys ?e3 '' ''" "\<not> down (mouse ?e3)"
    "projectiles ?e3 = []" "powerUps ?e3 = []" "hazards ?e3 = []"
    "0 < linearDamping (player ?e3)" "0 < angularDamping (player ?e3)"
    "0 < Spaceship.health (player ?e3)"
    "waveTimer ?e3 + min (1 / 60) 0.1 < waveInterval ?e3"
    "wave ?e3 \<le> 2 \<or> hazardSpawnTimer ?e3 + min (1 / 60) 0.1 < hazardSpawnInterval ?e3"
    "height ?e3 = 600" "bossSystem.active (bossSystem ?e3)"
    unfolding w using c by (simp_all add: start_fields start_timers)
  obtain a' where a': "PhysicsBody_update ?a (min (1 / 60) 0.1) = Some a'"
      "vy (position ?a) \<le> vy (position a')"
    using PhysicsBody_update_falls[of ?a "min (1 / 60) 0.1"] b by auto
  have "height ?e3 + 100 < vy (position a')" using a'(2) f3(13) by simp
  from boss_leaves[OF f3(1-7) a3 _ a'(1) this f3(8-12)] b(1)
  obtain e' where e': "GameEngine_update ?e3 (1 / 60) = Some e'"
     "\<not> bossSystem.active (bossSystem e')"
    by auto
  have r: "run (Update (1 / 60)) ?e3 = Some e'" using e'(1) by simp
  from boss_gating[of ?e3 _ "Update (1 / 60)" e'] f3(14) r e'(2)
  have "bossCount (asteroids e') < bossCount (asteroids ?e3)" by blast
  moreover have "bossCount (asteroids ?e3) = 1" using a3 b(1) by (simp add: bossCount_def)
  ultimately have "bossCount (asteroids e') < 1" by simp
  then show ?thesis using p1(1) p1' p1(3) p2 r e'(2) by blast
qed

section \<open>Kills and the combo over an update step\<close>





lemma still_killsRel: "still e e' \<Longrightarrow> killsRel e e'"
  by (simp add: still_def killsRel_def)














































section \<open>Frames of a well-formed engine return\<close>

text \<open>
  Every part of \<open>update\<close> returns on a well-formed engine and gives a well-formed engine: the
  bodies keep their damping coefficients, so \<open>Math.pow\<close> is defined; the loops read the lists
  inside their bounds; \<open>Math.random\<close> stays in \<open>[0, 1)\<close>, so the indexed reads of the weapon
  and hazard tables are defined; and the loop of \<open>addExperience\<close> ends, since each round takes
  at least 1 from the experience.
\<close>

lemma all_update: "\<forall>x\<in>set xs. P x \<Longrightarrow> P a \<Longrightarrow> \<forall>x\<in>set (xs[i := a]). P x"
  using set_update_subset_insert[of xs i a] by auto

lemma all_removeAt: "\<forall>x\<in>set xs. P x \<Longrightarrow> \<forall>x\<in>set (removeAt i xs). P x"
  unfolding removeAt_def using set_take_subset[of i xs] set_drop_subset[of "Suc i" xs] by auto

lemma length_removeAt: "i < length xs \<Longrightarrow> length (removeAt i xs) = length xs - 1"
  by (simp add: removeAt_def)

lemma PhysicsBody_update_ok:
  assumes "bodyOk b"
  shows "\<exists>b'. PhysicsBody_update b dt = Some b' \<and> bodyOk b' \<and> PhysicsBody.more b' = PhysicsBody.more b"
  using PhysicsBody_update_total[of b dt] assms by (auto simp add: bodyOk_def)

lemma Asteroid_update_ok:
  assumes "astOk a"
  shows "\<exists>a'. PhysicsBody_update a dt = Some a' \<and> astOk a'"
proof -
  obtain a' where a': "PhysicsBody_update a dt = Some a'" "bodyOk a'"
    "PhysicsBody.more a' = PhysicsBody.more a"
    using PhysicsBody_update_ok[of a dt] assms by (auto simp add: astOk_def)
  have "isBoss a' = isBoss a" "scoreValue a' = scoreValue a"
    using a'(3) by (cases a, cases a', simp)+
  then show ?thesis using a' assms by (auto simp add: astOk_def)
qed

lemma new_Asteroid_ok: "astOk (fst (new_Asteroid x y sz vel r))"
  using new_Asteroid_body[of x y sz vel r "fst (new_Asteroid x y sz vel r)" "snd (new_Asteroid x y sz vel r)"]
  by (simp add: astOk_def bodyOk_def)

lemma new_Asteroid_valid:
  assumes "valid_random r"
  shows "valid_random (snd (new_Asteroid x y sz vel r))"
proof -
  obtain col r2 where c: "getRandomColor (rest r) = (col, r2)" by force
  obtain verts r3 where g: "generateShape (sizeMap sz) r2 = (verts, r3)" by force
  have v2: "valid_random r2"
    using c assms by (auto simp add: getRandomColor_def Let_def valid_random_rest)
  have v3: "valid_random r3"
    using g v2 shapeLoop_valid[of "rest r2"]
    by (auto simp add: generateShape_def Let_def valid_random_rest dest: sndI)
  show ?thesis
    using v3 by (simp add: new_Asteroid_def Let_def c g valid_random_rest)
qed

lemma splitLoop_ok:
  "(\<forall>f\<in>set (fst (splitLoop a ns c n i r)). astOk f)
   \<and> (valid_random r \<longrightarrow> valid_random (snd (splitLoop a ns c n i r)))"
proof (induction n arbitrary: i r)
  case 0
  then show ?case by simp
next
  case (Suc n)
  let ?angle = "(pi * 2 * real i) / real_of_int c + (r 0 - 0.5)"
  let ?speed = "50 + rest r 0 * 100"
  let ?vel = "Vector2D_add (fromAngle ?angle ?speed) (velocity a)"
  let ?pos = "Vector2D_add (position a) (fromAngle ?angle (Asteroid.radius a * 0.5))"
  obtain f r1 where f: "new_Asteroid (vx ?pos) (vy ?pos) ns (Some ?vel) (rest (rest r)) = (f, r1)"
    by force
  obtain fs r2 where fs: "splitLoop a ns c n (Suc i) r1 = (fs, r2)" by force
  have res: "splitLoop a ns c (Suc n) i r = (f # fs, r2)"
    unfolding splitLoop.simps Let_def f prod.case fs by (rule refl)
  have 1: "astOk f"
    using new_Asteroid_ok[of "vx ?pos" "vy ?pos" ns "Some ?vel" "rest (rest r)"] f by simp
  have 2: "valid_random r \<longrightarrow> valid_random r1"
    using new_Asteroid_valid[of "rest (rest r)" "vx ?pos" "vy ?pos" ns "Some ?vel"] f
    by (simp add: valid_random_rest)
  have 3: "(\<forall>f\<in>set fs. astOk f) \<and> (valid_random r1 \<longrightarrow> valid_random r2)"
    using Suc.IH[of "Suc i" r1] fs by simp
  show ?case unfolding res using 1 2 3 by simp
qed

lemma split_ok:
  "(\<forall>f\<in>set (fst (Asteroid_split a r)). astOk f)
   \<and> (valid_random r \<longrightarrow> valid_random (snd (Asteroid_split a r)))"
  using splitLoop_ok
  by (simp add: Asteroid_split_def Let_def valid_random_rest split: option.splits)

lemma Spaceship_takeDamage_ok: "bodyOk (fst (Spaceship_takeDamage s amount)) = bodyOk s"
  by (simp add: Spaceship_takeDamage_def Let_def bodyOk_def)

lemma wf_same:
  assumes "player e' = player e" "asteroids e' = asteroids e" "projectiles e' = projectiles e"
    "powerUps e' = powerUps e" "experienceToNext (upgradeSystem e') = experienceToNext (upgradeSystem e)"
    "random e' = random e"
  shows "wellFormed e' = wellFormed e"
  using assms by (simp add: wellFormed_def)

lemma wf_asteroids:
  assumes "wellFormed e" "\<forall>a\<in>set as. astOk a"
  shows "wellFormed (e\<lparr>asteroids := as\<rparr>)"
  using assms by (simp add: wellFormed_def)

lemma wf_player:
  assumes "wellFormed e" "bodyOk p"
  shows "wellFormed (e\<lparr>player := p\<rparr>)"
  using assms by (simp add: wellFormed_def)

lemma wf_random:
  assumes "wellFormed e" "valid_random r"
  shows "wellFormed (e\<lparr>random := r\<rparr>)"
  using assms by (simp add: wellFormed_def)

lemma wf_projectiles:
  assumes "wellFormed e" "\<forall>a\<in>set ps. bodyOk a"
  shows "wellFormed (e\<lparr>projectiles := ps\<rparr>)"
  using assms by (simp add: wellFormed_def)

lemma wf_powerUps:
  assumes "wellFormed e" "\<forall>a\<in>set ps. bodyOk a"
  shows "wellFormed (e\<lparr>powerUps := ps\<rparr>)"
  using assms by (simp add: wellFormed_def)

lemma wf_gameOver: "wellFormed (gameOver e) = wellFormed e"
  by (rule wf_same) (simp_all add: gameOver_def)

lemma asteroidStep_ok:
  assumes "wellFormed e" "i < length (asteroids e)"
  shows "\<exists>e' b. asteroidStep i dt e = Some (e', b) \<and> wellFormed e' \<and> i \<le> length (asteroids e')"
proof -
  have all: "\<forall>x\<in>set (asteroids e). astOk x" using assms(1) by (simp add: wellFormed_def)
  have ai: "astOk (asteroids e ! i)" using all assms(2) by simp
  obtain a where a: "PhysicsBody_update (asteroids e ! i) dt = Some a" "astOk a"
    using Asteroid_update_ok[OF ai] by blast
  let ?e1 = "e\<lparr>asteroids := (asteroids e)[i := a]\<rparr>"
  have all1: "\<forall>x\<in>set ((asteroids e)[i := a]). astOk x"
    using all a(2) by (rule all_update)
  have w1: "wellFormed ?e1"
    using assms(1) all1 by (rule wf_asteroids)
  have rm: "\<forall>x\<in>set (removeAt i ((asteroids e)[i := a])). astOk x"
    using all1 by (rule all_removeAt)
  have len: "i \<le> length (removeAt i ((asteroids e)[i := a]))"
    using assms(2) by (simp add: length_removeAt)
  let ?off = "vy (position a) > height ?e1 + 100"
  let ?coll = "checkCircleCollision (player ?e1) a
                 (max (Spaceship.width (player ?e1)) (Spaceship.height (player ?e1)) / 2)
                 (Asteroid.radius a)"
  consider (off) ?off | (coll) "\<not> ?off" ?coll | (none) "\<not> ?off" "\<not> ?coll" by blast
  then show ?thesis
  proof cases
    case off
    let ?e2 = "if isBoss a
               then ?e1\<lparr>bossSystem := (bossSystem ?e1)\<lparr>active := False, boss := None\<rparr>\<rparr>
               else ?e1"
    let ?e3 = "?e2\<lparr>asteroids := removeAt i (asteroids ?e2)\<rparr>"
    have 1: "asteroidStep i dt e = Some (?e3, False)"
      using assms(2) a(1) off unfolding asteroidStep_def Let_def by simp
    have "wellFormed ?e2" using w1 by (simp add: wellFormed_def)
    moreover have "asteroids ?e2 = (asteroids e)[i := a]" by simp
    ultimately have 2: "wellFormed ?e3" using rm wf_asteroids[of ?e2 "removeAt i (asteroids ?e2)"]
      by simp
    have 3: "i \<le> length (asteroids ?e3)"
      using len by simp
    show ?thesis using 1 2 3 by blast
  next
    case coll
    obtain p destroyed where td: "Spaceship_takeDamage (player ?e1)
        (if Asteroid.damage a = 0 then 20 else Asteroid.damage a) = (p, destroyed)" by force
    obtain fragments r where sp: "Asteroid_split a (random ?e1) = (fragments, r)" by force
    let ?e2 = "?e1\<lparr>player := p, random := r, asteroids := removeAt i (asteroids ?e1) @ fragments\<rparr>"
    have "bodyOk (player ?e1)" using w1 by (simp add: wellFormed_def)
    then have pp: "bodyOk p"
      using Spaceship_takeDamage_ok[of "player ?e1"
          "if Asteroid.damage a = 0 then 20 else Asteroid.damage a"] td
      by simp
    have "valid_random (random ?e1)" using w1 by (simp add: wellFormed_def)
    then have fr: "\<forall>f\<in>set fragments. astOk f" "valid_random r"
      using split_ok[of a "random ?e1"] sp by simp_all
    have as2: "\<forall>x\<in>set (removeAt i ((asteroids e)[i := a]) @ fragments). astOk x"
      using rm fr(1) by auto
    have w2: "wellFormed ?e2"
      using wf_asteroids[OF wf_random[OF wf_player[OF w1 pp] fr(2)] as2] by simp
    have 1: "asteroidStep i dt e = Some (if destroyed then gameOver ?e2 else ?e2, destroyed)"
      using assms(2) a(1) coll td sp unfolding asteroidStep_def Let_def by simp
    have 2: "wellFormed (if destroyed then gameOver ?e2 else ?e2)"
      using w2 wf_gameOver[of ?e2] by simp
    have 3: "i \<le> length (asteroids (if destroyed then gameOver ?e2 else ?e2))"
      using len by (simp add: gameOver_def)
    show ?thesis using 1 2 3 by blast
  next
    case none
    have 1: "asteroidStep i dt e = Some (?e1, False)"
      using assms(2) a(1) none unfolding asteroidStep_def Let_def by simp
    have 3: "i \<le> length (asteroids ?e1)" using assms(2) by simp
    show ?thesis using 1 w1 3 by blast
  qed
qed

lemma asteroidLoop_ok:
  assumes "wellFormed e" "n \<le> length (asteroids e)"
  shows "\<exists>e' b. asteroidLoop n dt e = Some (e', b) \<and> wellFormed e'"
  using assms
proof (induction n arbitrary: e)
  case 0
  then show ?case by auto
next
  case (Suc n)
  have "n < length (asteroids e)" using Suc.prems(2) by simp
  then obtain e1 b1 where s: "asteroidStep n dt e = Some (e1, b1)" "wellFormed e1"
     "n \<le> length (asteroids e1)"
    using asteroidStep_ok[OF Suc.prems(1), of n dt] by blast
  show ?case
  proof (cases b1)
    case True
    then show ?thesis using s by auto
  next
    case False
    then show ?thesis using s Suc.IH[OF s(2,3)] by simp
  qed
qed


lemma takeDamage_ok:
  "(astOk a \<longrightarrow> astOk (fst (fst (Asteroid_takeDamage a amount r))))
   \<and> (valid_random r \<longrightarrow> valid_random (snd (Asteroid_takeDamage a amount r)))"
  by (simp add: Asteroid_takeDamage_def Let_def astOk_def bodyOk_def valid_random_rest)

lemma chainStep_ok:
  assumes "wellFormed e" "i < length (asteroids e)"
  shows "\<exists>e'. chainStep i pos rad e = Some e' \<and> wellFormed e' \<and> i \<le> length (asteroids e')
           \<and> projectiles e' = projectiles e"
proof -
  have all: "\<forall>x\<in>set (asteroids e). astOk x" using assms(1) by (simp add: wellFormed_def)
  have vr: "valid_random (random e)" using assms(1) by (simp add: wellFormed_def)
  let ?a = "asteroids e ! i"
  have ai: "astOk ?a" using all assms(2) by simp
  show ?thesis
  proof (cases "distanceTo pos (position ?a) < rad")
    case False
    then have "chainStep i pos rad e = Some e"
      using assms(2) unfolding chainStep_def Let_def by simp
    then show ?thesis using assms by simp
  next
    case True
    obtain a1 damaged r where td: "Asteroid_takeDamage ?a 20 (random e) = ((a1, damaged), r)"
      by (metis prod.collapse)
    have a1: "astOk a1" "valid_random r"
      using takeDamage_ok[of ?a 20 "random e"] td ai vr by simp_all
    let ?e1 = "e\<lparr>asteroids := (asteroids e)[i := a1], random := r\<rparr>"
    have all1: "\<forall>x\<in>set ((asteroids e)[i := a1]). astOk x"
      using all a1(1) by (rule all_update)
    have w1: "wellFormed ?e1"
      using wf_random[OF wf_asteroids[OF assms(1) all1] a1(2)] by simp
    show ?thesis
    proof (cases damaged)
      case False
      then have "chainStep i pos rad e = Some ?e1"
        using assms(2) True td unfolding chainStep_def Let_def by simp
      then show ?thesis using w1 assms(2) by simp
    next
      case d: True
      let ?e2 = "?e1\<lparr>score := score ?e1
                      + \<lfloor>chainScoreMap (size_name a1) * multiplier (comboSystem ?e1)\<rfloor>,
                    kills := kills ?e1 + 1\<rparr>"
      obtain fragments r' where sp: "Asteroid_split a1 (random ?e2) = (fragments, r')" by force
      let ?e3 = "?e2\<lparr>asteroids := removeAt i (asteroids ?e2) @ fragments, random := r',
                     pendingChainReactions := pendingChainReactions ?e2 @ [(position a1, rad * 0.7)]\<rparr>"
      have 1: "chainStep i pos rad e = Some ?e3"
        using assms(2) True td d sp unfolding chainStep_def Let_def by simp
      have fr: "\<forall>f\<in>set fragments. astOk f" "valid_random r'"
        using split_ok[of a1 "random ?e2"] sp a1(2) by simp_all
      have rm: "\<forall>x\<in>set (removeAt i ((asteroids e)[i := a1])). astOk x"
        using all1 by (rule all_removeAt)
      have as3: "\<forall>x\<in>set (removeAt i ((asteroids e)[i := a1]) @ fragments). astOk x"
        using rm fr(1) by auto
      have w2: "wellFormed ?e2" using w1 by (simp add: wellFormed_def)
      have "wellFormed (?e2\<lparr>asteroids := removeAt i ((asteroids e)[i := a1]) @ fragments, random := r'\<rparr>)"
        using wf_random[OF wf_asteroids[OF w2 as3] fr(2)] by simp
      then have w3: "wellFormed ?e3" by (simp add: wellFormed_def)
      have 3: "i \<le> length (asteroids ?e3)" using assms(2) by (simp add: length_removeAt)
      have 4: "projectiles ?e3 = projectiles e" by simp
      show ?thesis using 1 w3 3 4 by blast
    qed
  qed
qed

lemma chainLoop_ok:
  assumes "wellFormed e" "n \<le> length (asteroids e)"
  shows "\<exists>e'. chainLoop n pos rad e = Some e' \<and> wellFormed e' \<and> projectiles e' = projectiles e"
  using assms
proof (induction n arbitrary: e)
  case 0
  then show ?case by simp
next
  case (Suc n)
  have "n < length (asteroids e)" using Suc.prems(2) by simp
  then obtain e1 where s: "chainStep n pos rad e = Some e1" "wellFormed e1"
     "n \<le> length (asteroids e1)" "projectiles e1 = projectiles e"
    using chainStep_ok[OF Suc.prems(1), of n pos rad] by blast
  show ?case using s Suc.IH[OF s(2,3)] by simp
qed

lemma checkChainReaction_ok:
  assumes "wellFormed e"
  shows "\<exists>e'. checkChainReaction e pos rad = Some e' \<and> wellFormed e' \<and> projectiles e' = projectiles e"
  unfolding checkChainReaction_def using chainLoop_ok[OF assms, of "length (asteroids e)"] by simp

lemma autoUpgrade_ok:
  "(wellFormed e \<longrightarrow> wellFormed (autoUpgrade e))
   \<and> projectiles (autoUpgrade e) = projectiles e
   \<and> powerUps (autoUpgrade e) = powerUps e
   \<and> experience (upgradeSystem (autoUpgrade e)) = experience (upgradeSystem e)
   \<and> experienceToNext (upgradeSystem (autoUpgrade e)) = experienceToNext (upgradeSystem e)"
  by (simp add: autoUpgrade_def Let_def wellFormed_def bodyOk_def heal_def valid_random_rest)

lemma levelUpLoop_ok_aux:
  "\<forall>e. nat \<lfloor>experience (upgradeSystem e)\<rfloor> \<le> n \<longrightarrow> wellFormed e \<longrightarrow>
       (\<exists>e'. levelUpLoop e = Some e' \<and> wellFormed e' \<and> projectiles e' = projectiles e
          \<and> powerUps e' = powerUps e)"
proof (induction n)
  case 0
  show ?case
  proof (intro allI impI)
    fix e assume n: "nat \<lfloor>experience (upgradeSystem e)\<rfloor> \<le> 0" and w: "wellFormed e"
    have "1 \<le> experienceToNext (upgradeSystem e)" using w by (simp add: wellFormed_def)
    moreover have "experience (upgradeSystem e) < 1" using n by linarith
    ultimately have "\<not> experience (upgradeSystem e) \<ge> experienceToNext (upgradeSystem e)" by simp
    then have "levelUpLoop e = Some e" by (subst levelUpLoop.simps) simp
    then show "\<exists>e'. levelUpLoop e = Some e' \<and> wellFormed e' \<and> projectiles e' = projectiles e
          \<and> powerUps e' = powerUps e"
      using w by simp
  qed
next
  case (Suc n)
  show ?case
  proof (intro allI impI)
    fix e assume n: "nat \<lfloor>experience (upgradeSystem e)\<rfloor> \<le> Suc n" and w: "wellFormed e"
    have x: "1 \<le> experienceToNext (upgradeSystem e)" using w by (simp add: wellFormed_def)
    show "\<exists>e'. levelUpLoop e = Some e' \<and> wellFormed e' \<and> projectiles e' = projectiles e
          \<and> powerUps e' = powerUps e"
    proof (cases "experience (upgradeSystem e) \<ge> experienceToNext (upgradeSystem e)")
      case False
      then have "levelUpLoop e = Some e" by (subst levelUpLoop.simps) simp
      then show ?thesis using w by simp
    next
      case True
      let ?e1 = "e\<lparr>upgradeSystem := (upgradeSystem e)
                   \<lparr>experience := experience (upgradeSystem e) - experienceToNext (upgradeSystem e),
                    level := level (upgradeSystem e) + 1,
                    skillPoints := skillPoints (upgradeSystem e) + 1,
                    experienceToNext :=
                      real_of_int \<lfloor>experienceToNext (upgradeSystem e) * 1.5\<rfloor>\<rparr>\<rparr>"
      have l: "levelUpLoop e = levelUpLoop (autoUpgrade ?e1)"
        using True by (subst levelUpLoop.simps) simp
      have "(1::int) \<le> \<lfloor>experienceToNext (upgradeSystem e) * 1.5\<rfloor>" using x by linarith
      then have "(1::real) \<le> real_of_int \<lfloor>experienceToNext (upgradeSystem e) * 1.5\<rfloor>" by linarith
      then have w1: "wellFormed ?e1" using w by (simp add: wellFormed_def)
      have w2: "wellFormed (autoUpgrade ?e1)" using autoUpgrade_ok[of ?e1] w1 by blast
      have "experience (upgradeSystem (autoUpgrade ?e1))
              = experience (upgradeSystem e) - experienceToNext (upgradeSystem e)"
        using autoUpgrade_ok[of ?e1] by simp
      moreover have "\<lfloor>experience (upgradeSystem e) - experienceToNext (upgradeSystem e)\<rfloor>
                       \<le> \<lfloor>experience (upgradeSystem e)\<rfloor> - 1"
        using x by linarith
      moreover have "1 \<le> \<lfloor>experience (upgradeSystem e)\<rfloor>" using x True by linarith
      ultimately have m: "nat \<lfloor>experience (upgradeSystem (autoUpgrade ?e1))\<rfloor> \<le> n"
        using n by linarith
      obtain e' where e': "levelUpLoop (autoUpgrade ?e1) = Some e'" "wellFormed e'"
        "projectiles e' = projectiles (autoUpgrade ?e1)" "powerUps e' = powerUps (autoUpgrade ?e1)"
        using Suc.IH m w2 by blast
      have "projectiles (autoUpgrade ?e1) = projectiles e" "powerUps (autoUpgrade ?e1) = powerUps e"
        using autoUpgrade_ok[of ?e1] by simp_all
      then show ?thesis using l e' by simp
    qed
  qed
qed

lemma levelUpLoop_ok:
  assumes "wellFormed e"
  shows "\<exists>e'. levelUpLoop e = Some e' \<and> wellFormed e' \<and> projectiles e' = projectiles e
           \<and> powerUps e' = powerUps e"
  using levelUpLoop_ok_aux[of "nat \<lfloor>experience (upgradeSystem e)\<rfloor>"] assms by blast

lemma addExperience_ok:
  assumes "wellFormed e"
  shows "\<exists>e'. addExperience e amount = Some e' \<and> wellFormed e' \<and> projectiles e' = projectiles e
           \<and> powerUps e' = powerUps e"
proof -
  let ?e1 = "e\<lparr>upgradeSystem := (upgradeSystem e)
             \<lparr>experience := experience (upgradeSystem e) + amount\<rparr>\<rparr>"
  have "wellFormed ?e1" using assms by (simp add: wellFormed_def)
  from levelUpLoop_ok[OF this] show ?thesis by (simp add: addExperience_def)
qed

lemma new_PowerUp_ok:
  "bodyOk (fst (new_PowerUp x y t r)) \<and> (valid_random r \<longrightarrow> valid_random (snd (new_PowerUp x y t r)))"
  by (simp add: new_PowerUp_def new_PhysicsBody_def PhysicsBody.extend_def bodyOk_def valid_random_rest)

lemma spawnPowerUp_ok:
  assumes "wellFormed e"
  shows "wellFormed (spawnPowerUp e x y) \<and> projectiles (spawnPowerUp e x y) = projectiles e"
proof -
  let ?t = "case at_index powerUpTypes \<lfloor>random e 0 * real (length powerUpTypes)\<rfloor> of
                 Some t' \<Rightarrow> t' | None \<Rightarrow> Health"
  obtain pu r1 where n: "new_PowerUp x y ?t (rest (random e)) = (pu, r1)" by force
  have vr: "valid_random (random e)" using assms by (simp add: wellFormed_def)
  have all: "\<forall>u\<in>set (powerUps e). bodyOk u" using assms by (simp add: wellFormed_def)
  have ok: "bodyOk pu" "valid_random r1"
    using new_PowerUp_ok[of x y ?t "rest (random e)"] n vr by (simp_all add: valid_random_rest)
  have b: "\<And>v. bodyOk (pu\<lparr>velocity := v\<rparr>)" "\<And>v w. bodyOk (pu\<lparr>position := w, velocity := v\<rparr>)"
    "\<And>v w. bodyOk (pu\<lparr>position := w\<rparr>\<lparr>velocity := v\<rparr>)"
    using ok(1) by (simp_all add: bodyOk_def)
  have v: "valid_random (rest r1)" "valid_random (rest (rest r1))"
    using ok(2) by (simp_all add: valid_random_rest)
  have g: "\<And>u r. bodyOk u \<Longrightarrow> valid_random r \<Longrightarrow>
             wellFormed (e\<lparr>powerUps := powerUps e @ [u], random := r\<rparr>)"
    using assms by (simp add: wellFormed_def)
  show ?thesis
    unfolding spawnPowerUp_def Let_def n prod.case
    using g b v by (simp del: length_0_conv)
qed

lemma bossPowerUps_ok:
  assumes "wellFormed e"
  shows "wellFormed (bossPowerUps n a e) \<and> projectiles (bossPowerUps n a e) = projectiles e"
  using assms
proof (induction n arbitrary: e)
  case 0
  then show ?case by simp
next
  case (Suc n)
  let ?e1 = "e\<lparr>random := rest (rest (random e))\<rparr>"
  let ?x = "vx (position a) + (random e 0 - 0.5) * 100"
  let ?y = "vy (position a) + (rest (random e) 0 - 0.5) * 100"
  have "valid_random (random e)" using Suc.prems by (simp add: wellFormed_def)
  then have w1: "wellFormed ?e1" using wf_random[OF Suc.prems] by (simp add: valid_random_rest)
  have s: "wellFormed (spawnPowerUp ?e1 ?x ?y)" "projectiles (spawnPowerUp ?e1 ?x ?y) = projectiles e"
    using spawnPowerUp_ok[OF w1, of ?x ?y] by simp_all
  have "bossPowerUps (Suc n) a e = bossPowerUps n a (spawnPowerUp ?e1 ?x ?y)"
    by (simp add: Let_def)
  then show ?case using Suc.IH[OF s(1)] s(2) by simp
qed

lemma scoreKill_ok:
  assumes "wellFormed e" "astOk a"
  shows "\<exists>e2 b. scoreKill a e = Some (e2, b) \<and> wellFormed e2 \<and> projectiles e2 = projectiles e
           \<and> asteroids e2 = asteroids e"
proof -
  have "\<exists>b. (if isBoss a then scoreValue a else Some (scoreMap (size_name a))) = Some b"
    using assms(2) by (cases "isBoss a") (auto simp add: astOk_def)
  then obtain b where b: "(if isBoss a then scoreValue a else Some (scoreMap (size_name a))) = Some b"
    by blast
  let ?e1 = "increaseCombo e"
  let ?e2 = "?e1\<lparr>score := score ?e1 + \<lfloor>b * multiplier (comboSystem ?e1)\<rfloor>, kills := kills ?e1 + 1\<rparr>"
  have 1: "scoreKill a e = Some (?e2, b)"
    unfolding scoreKill_def Let_def b option.case by (rule refl)
  have w: "wellFormed ?e2" using assms(1) by (simp add: wellFormed_def increaseCombo_def Let_def)
  have 2: "projectiles ?e2 = projectiles e" "asteroids ?e2 = asteroids e"
    by (simp_all add: increaseCombo_def Let_def)
  show ?thesis using 1 w 2 by blast
qed


lemma killed_ok:
  assumes "wellFormed e" "astOk a"
  shows "\<exists>e'. killed j a e = Some e' \<and> wellFormed e' \<and> projectiles e' = projectiles e"
proof -
  obtain e2 b where 2: "scoreKill a e = Some (e2, b)" "wellFormed e2" "projectiles e2 = projectiles e"
    using scoreKill_ok[OF assms] by blast
  obtain e3 where 3: "addExperience e2 (b / 10) = Some e3" "wellFormed e3"
    "projectiles e3 = projectiles e2"
    using addExperience_ok[OF 2(2)] by blast
  let ?e3b = "e3\<lparr>bossSystem := (bossSystem e3)\<lparr>active := False, boss := None\<rparr>\<rparr>"
  let ?e4 = "if isBoss a then bossPowerUps 3 a ?e3b else e3"
  have w3b: "wellFormed ?e3b" using 3(2) by (simp add: wellFormed_def)
  have w4: "wellFormed ?e4" "projectiles ?e4 = projectiles e"
    using bossPowerUps_ok[OF w3b, of 3 a] 3(2,3) 2(3) by simp_all
  have all4: "\<forall>x\<in>set (asteroids ?e4). astOk x" using w4(1) unfolding wellFormed_def by blast
  have rm: "\<forall>x\<in>set (removeAt j (asteroids ?e4)). astOk x" using all4 by (rule all_removeAt)
  obtain fragments r where sp: "Asteroid_split a (random ?e4) = (fragments, r)" by force
  have "valid_random (random ?e4)" using w4(1) unfolding wellFormed_def by blast
  then have fr: "\<forall>f\<in>set fragments. astOk f" "valid_random (rest r)"
    using split_ok[of a "random ?e4"] sp by (simp_all add: valid_random_rest)
  let ?e' = "?e4\<lparr>asteroids := removeAt j (asteroids ?e4) @ fragments, random := rest r\<rparr>"
  have as': "\<forall>x\<in>set (removeAt j (asteroids ?e4) @ fragments). astOk x" using rm fr(1) by auto
  have w': "wellFormed ?e'" using wf_random[OF wf_asteroids[OF w4(1) as'] fr(2)] by simp
  have p': "projectiles ?e' = projectiles e" using w4(2) by simp
  let ?e5 = "if \<not> isBoss a then
               (if r 0 < powerUpChance (config ?e') * multiplier (comboSystem ?e')
                then spawnPowerUp ?e' (vx (position a)) (vy (position a)) else ?e')
             else ?e4\<lparr>asteroids := removeAt j (asteroids ?e4)\<rparr>"
  have w5a: "wellFormed (?e4\<lparr>asteroids := removeAt j (asteroids ?e4)\<rparr>)"
    using w4(1) rm by (rule wf_asteroids)
  have w5: "wellFormed ?e5"
    using spawnPowerUp_ok[OF w', of "vx (position a)" "vy (position a)"] w' w5a by presburger
  have p5a: "projectiles (?e4\<lparr>asteroids := removeAt j (asteroids ?e4)\<rparr>) = projectiles e"
    using w4(2) by simp
  have p5: "projectiles ?e5 = projectiles e"
    using spawnPowerUp_ok[OF w', of "vx (position a)" "vy (position a)"] p' p5a by presburger
  obtain e6 where 6: "checkChainReaction ?e5 (position a) (Asteroid.radius a * 2) = Some e6"
    "wellFormed e6" "projectiles e6 = projectiles ?e5"
    using checkChainReaction_ok[OF w5] by blast
  have "killed j a e = checkChainReaction ?e5 (position a) (Asteroid.radius a * 2)"
    unfolding killed_def 2(1) option.case prod.case 3(1) Let_def sp by (rule refl)
  then show ?thesis using 6 p5 by simp
qed

lemma hit_ok:
  assumes "wellFormed e" "i < length (projectiles e)" "j < length (asteroids e)"
  shows "\<exists>e'. hit i j e = Some e' \<and> wellFormed e' \<and> i \<le> length (projectiles e')"
proof -
  have all: "\<forall>x\<in>set (asteroids e). astOk x" using assms(1) by (simp add: wellFormed_def)
  have allp: "\<forall>x\<in>set (projectiles e). bodyOk x" using assms(1) by (simp add: wellFormed_def)
  have vr: "valid_random (random e)" using assms(1) by (simp add: wellFormed_def)
  have aj: "astOk (asteroids e ! j)" using all assms(3) by simp
  obtain a destroyed r where td:
    "Asteroid_takeDamage (asteroids e ! j) (Projectile.damage (projectiles e ! i)) (random e)
       = ((a, destroyed), r)"
    by (metis prod.collapse)
  have a: "astOk a" "valid_random r"
    using takeDamage_ok[of "asteroids e ! j" "Projectile.damage (projectiles e ! i)" "random e"]
      td aj vr by simp_all
  let ?e1 = "e\<lparr>asteroids := (asteroids e)[j := a], random := r,
                 projectiles := removeAt i (projectiles e)\<rparr>"
  have all1: "\<forall>x\<in>set ((asteroids e)[j := a]). astOk x" using all a(1) by (rule all_update)
  have rp: "\<forall>x\<in>set (removeAt i (projectiles e)). bodyOk x" using allp by (rule all_removeAt)
  have w1: "wellFormed ?e1"
    using wf_projectiles[OF wf_random[OF wf_asteroids[OF assms(1) all1] a(2)] rp] by simp
  have l1: "i \<le> length (projectiles ?e1)" using assms(2) by (simp add: length_removeAt)
  have h: "hit i j e = (if destroyed then killed j a ?e1 else Some ?e1)"
    unfolding hit_def Let_def td prod.case by (rule refl)
  show ?thesis
  proof (cases destroyed)
    case True
    obtain e' where e': "killed j a ?e1 = Some e'" "wellFormed e'" "projectiles e' = projectiles ?e1"
      using killed_ok[OF w1 a(1)] by blast
    then show ?thesis using h True l1 by simp
  next
    case False
    then show ?thesis using h w1 l1 by simp
  qed
qed

lemma hitLoop_ok:
  assumes "wellFormed e" "n \<le> length (asteroids e)" "i < length (projectiles e)"
  shows "\<exists>e'. hitLoop n i e = Some e' \<and> wellFormed e' \<and> i \<le> length (projectiles e')"
  using assms
proof (induction n)
  case 0
  then show ?case by simp
next
  case (Suc n)
  have n: "n < length (asteroids e)" using Suc.prems(2) by simp
  show ?case
  proof (cases "checkCircleCollision (projectiles e ! i) (asteroids e ! n)
                (Projectile.width (projectiles e ! i) / 2) (Asteroid.radius (asteroids e ! n))")
    case True
    then have "hitLoop (Suc n) i e = hit i n e" using n Suc.prems(3) by simp
    then show ?thesis using hit_ok[OF Suc.prems(1,3) n] by simp
  next
    case False
    then have "hitLoop (Suc n) i e = hitLoop n i e" using n Suc.prems(3) by simp
    then show ?thesis using Suc.IH[OF Suc.prems(1) _ Suc.prems(3)] n by simp
  qed
qed

lemma Projectile_update_ok:
  assumes "bodyOk p"
  shows "\<exists>p'. Projectile_update p dt = Some p' \<and> bodyOk p'"
proof -
  obtain b where b: "PhysicsBody_update p dt = Some b" "bodyOk b"
    using PhysicsBody_update_ok[OF assms] by blast
  have "bodyOk (b\<lparr>Projectile.age := Projectile.age b + dt\<rparr>)" using b(2) by (simp add: bodyOk_def)
  then show ?thesis unfolding Projectile_update_def b(1) option.case by simp
qed

lemma steer_ok: "bodyOk (steer e p dt) = bodyOk p"
  by (simp add: steer_def Let_def bodyOk_def split: option.splits)

lemma projectileStep_ok:
  assumes "wellFormed e" "i < length (projectiles e)"
  shows "\<exists>e'. projectileStep i dt e = Some e' \<and> wellFormed e' \<and> i \<le> length (projectiles e')"
proof -
  have allp: "\<forall>x\<in>set (projectiles e). bodyOk x" using assms(1) by (simp add: wellFormed_def)
  have "bodyOk (projectiles e ! i)" using allp assms(2) by simp
  then obtain p0 where p0: "Projectile_update (projectiles e ! i) dt = Some p0" "bodyOk p0"
    using Projectile_update_ok by blast
  let ?proj = "steer e p0 dt"
  let ?e1 = "e\<lparr>projectiles := (projectiles e)[i := ?proj]\<rparr>"
  have pk: "bodyOk ?proj" using p0(2) steer_ok[of e p0 dt] by simp
  have all1: "\<forall>x\<in>set ((projectiles e)[i := ?proj]). bodyOk x" using allp pk by (rule all_update)
  have w1: "wellFormed ?e1" using assms(1) all1 by (rule wf_projectiles)
  have l1: "i < length (projectiles ?e1)" using assms(2) by simp
  let ?gone = "Projectile_isExpired ?proj \<or> \<not> isOnScreen ?e1 (position ?proj) 50"
  have s: "projectileStep i dt e =
        (if ?gone then Some (?e1\<lparr>projectiles := removeAt i (projectiles ?e1)\<rparr>)
         else hitLoop (length (asteroids ?e1)) i ?e1)"
    unfolding projectileStep_def p0(1) option.case Let_def using assms(2) by simp
  show ?thesis
  proof (cases ?gone)
    case True
    have "\<forall>x\<in>set (removeAt i (projectiles ?e1)). bodyOk x"
      using all1 all_removeAt[of "projectiles ?e1" bodyOk i] by simp
    then have "wellFormed (?e1\<lparr>projectiles := removeAt i (projectiles ?e1)\<rparr>)"
      using w1 by (rule wf_projectiles[rotated])
    moreover have "i \<le> length (projectiles (?e1\<lparr>projectiles := removeAt i (projectiles ?e1)\<rparr>))"
      using assms(2) by (simp add: length_removeAt)
    ultimately show ?thesis using s True by simp
  next
    case False
    then have "projectileStep i dt e = hitLoop (length (asteroids ?e1)) i ?e1" using s by simp
    then show ?thesis using hitLoop_ok[OF w1 _ l1, of "length (asteroids ?e1)"] by simp
  qed
qed

lemma projectileLoop_ok:
  assumes "wellFormed e" "n \<le> length (projectiles e)"
  shows "\<exists>e'. projectileLoop n dt e = Some e' \<and> wellFormed e'"
  using assms
proof (induction n arbitrary: e)
  case 0
  then show ?case by simp
next
  case (Suc n)
  have "n < length (projectiles e)" using Suc.prems(2) by simp
  then obtain e1 where s: "projectileStep n dt e = Some e1" "wellFormed e1"
     "n \<le> length (projectiles e1)"
    using projectileStep_ok[OF Suc.prems(1), of n dt] by blast
  show ?case using s Suc.IH[OF s(2,3)] by simp
qed


lemma PowerUp_update_ok:
  assumes "bodyOk p"
  shows "\<exists>p'. PowerUp_update p dt = Some p' \<and> bodyOk p'"
proof -
  obtain b where b: "PhysicsBody_update p dt = Some b" "bodyOk b"
    using PhysicsBody_update_ok[OF assms] by blast
  have "bodyOk (b\<lparr>PowerUp.age := PowerUp.age b + dt, pulsePhase := pulsePhase b + dt * 3\<rparr>)"
    using b(2) by (simp add: bodyOk_def)
  then show ?thesis unfolding PowerUp_update_def b(1) option.case by simp
qed

lemma magnet_ok: "bodyOk (magnet e pu dt) = bodyOk pu"
  by (simp add: magnet_def Let_def bodyOk_def)

lemma valid_random_index:
  assumes "valid_random r" "0 < n"
  shows "0 \<le> \<lfloor>r 0 * real n\<rfloor> \<and> \<lfloor>r 0 * real n\<rfloor> < int n"
proof -
  have r: "0 \<le> r 0" "r 0 < 1" using assms(1) by (simp_all add: valid_random_def)
  have "0 \<le> r 0 * real n" using r(1) by simp
  moreover have "r 0 * real n < real n" using r(2) assms(2) by simp
  ultimately show ?thesis by (simp add: floor_less_iff)
qed

lemma applyPowerUp_ok:
  assumes "wellFormed e"
  shows "\<exists>e'. applyPowerUp e pu = Some e' \<and> wellFormed e' \<and> powerUps e' = powerUps e"
proof (cases "PowerUp.type pu")
  case Health
  have "wellFormed (e\<lparr>player := heal (player e) 30\<rparr>)"
    using assms by (simp add: wellFormed_def bodyOk_def heal_def)
  then show ?thesis by (simp add: applyPowerUp_def Health)
next
  case Shield
  let ?p = "player e"
  let ?p1 = "?p\<lparr>Spaceship.shield := (Spaceship.shield ?p)\<lparr>powerUpActive := True, powerUpTimer := 10\<rparr>\<rparr>"
  let ?p2 = "activateShield ?p1"
  let ?p3 = "?p2\<lparr>Spaceship.shield := (Spaceship.shield ?p2)
                       \<lparr>shield.strength := maxStrength (Spaceship.shield ?p2)\<rparr>\<rparr>"
  have "bodyOk ?p" using assms by (simp add: wellFormed_def)
  then have "bodyOk ?p3" by (simp add: bodyOk_def activateShield_def)
  then have "wellFormed (e\<lparr>player := ?p3\<rparr>)" using assms by (rule wf_player[rotated])
  moreover have "applyPowerUp e pu = Some (e\<lparr>player := ?p3\<rparr>)"
    by (simp add: applyPowerUp_def Shield Let_def)
  ultimately show ?thesis by simp
next
  case Weapon
  have vr: "valid_random (random e)" using assms by (simp add: wellFormed_def)
  have "0 \<le> \<lfloor>random e 0 * real (length specialWeapons)\<rfloor>
        \<and> \<lfloor>random e 0 * real (length specialWeapons)\<rfloor> < int (length specialWeapons)"
    using valid_random_index[OF vr, of "length specialWeapons"] by (simp add: specialWeapons_def)
  then obtain w where w: "at_index specialWeapons \<lfloor>random e 0 * real (length specialWeapons)\<rfloor> = Some w"
    by (simp add: at_index_def)
  let ?e' = "e\<lparr>random := rest (random e),
                weaponSystem := (weaponSystem e)
                  \<lparr>currentWeapon := w, activeWeaponTimer := weapon.duration (weapons_table w)\<rparr>\<rparr>"
  have "wellFormed ?e'" using assms vr by (simp add: wellFormed_def valid_random_rest)
  moreover have "applyPowerUp e pu = Some ?e'"
    unfolding applyPowerUp_def Weapon PowerUpType.case w option.case by (rule refl)
  ultimately show ?thesis by simp
next
  case Speed
  have "wellFormed (e\<lparr>config := (config e)\<lparr>maxSpeedX := maxSpeedX (config e) * 1.2\<rparr>\<rparr>)"
    using assms by (simp add: wellFormed_def)
  then show ?thesis by (simp add: applyPowerUp_def Speed)
qed

lemma collectPowerUp_ok:
  assumes "wellFormed e"
  shows "\<exists>e'. collectPowerUp e pu = Some e' \<and> wellFormed e' \<and> powerUps e' = powerUps e"
proof -
  obtain e1 where 1: "applyPowerUp e pu = Some e1" "wellFormed e1" "powerUps e1 = powerUps e"
    using applyPowerUp_ok[OF assms] by blast
  let ?e2 = "e1\<lparr>score := score e1 + \<lfloor>50 * multiplier (comboSystem e1)\<rfloor>\<rparr>"
  have w2: "wellFormed ?e2" using 1(2) by (simp add: wellFormed_def)
  obtain e' where e': "addExperience ?e2 5 = Some e'" "wellFormed e'" "powerUps e' = powerUps ?e2"
    using addExperience_ok[OF w2] by blast
  have "collectPowerUp e pu = addExperience ?e2 5"
    unfolding collectPowerUp_def 1(1) option.case by (rule refl)
  then show ?thesis using e' 1(3) by simp
qed

lemma powerUpStep_ok:
  assumes "wellFormed e" "i < length (powerUps e)"
  shows "\<exists>e'. powerUpStep i dt e = Some e' \<and> wellFormed e' \<and> i \<le> length (powerUps e')"
proof -
  have allp: "\<forall>x\<in>set (powerUps e). bodyOk x" using assms(1) by (simp add: wellFormed_def)
  have "bodyOk (powerUps e ! i)" using allp assms(2) by simp
  then obtain pu0 where p0: "PowerUp_update (powerUps e ! i) dt = Some pu0" "bodyOk pu0"
    using PowerUp_update_ok by blast
  let ?e1 = "e\<lparr>powerUps := (powerUps e)[i := pu0]\<rparr>"
  have all1: "\<forall>x\<in>set ((powerUps e)[i := pu0]). bodyOk x" using allp p0(2) by (rule all_update)
  have w1: "wellFormed ?e1" using assms(1) all1 by (rule wf_powerUps)
  let ?rm = "?e1\<lparr>powerUps := removeAt i (powerUps ?e1)\<rparr>"
  have "\<forall>x\<in>set (removeAt i (powerUps ?e1)). bodyOk x"
    using all1 all_removeAt[of "powerUps ?e1" bodyOk i] by simp
  then have wrm: "wellFormed ?rm" using w1 by (rule wf_powerUps[rotated])
  have lrm: "i \<le> length (powerUps ?rm)" using assms(2) by (simp add: length_removeAt)
  let ?pu = "magnet ?e1 pu0 dt"
  let ?e2 = "?e1\<lparr>powerUps := (powerUps ?e1)[i := ?pu]\<rparr>"
  have pk: "bodyOk ?pu" using p0(2) magnet_ok[of ?e1 pu0 dt] by simp
  have all2: "\<forall>x\<in>set ((powerUps ?e1)[i := ?pu]). bodyOk x"
    using all_update[of "powerUps ?e1" bodyOk ?pu i] all1 pk by simp
  have w2: "wellFormed ?e2" using w1 all2 by (rule wf_powerUps)
  have l2: "i < length (powerUps ?e2)" using assms(2) by simp
  let ?out = "PowerUp_isExpired pu0 \<or> (mode (config ?e1) = ''lane-shooter'' \<and>
                       (vy (position pu0) > height ?e1 + 50 \<or> vx (position pu0) < - 50 \<or>
                        vx (position pu0) > width ?e1 + 50))"
  let ?touch = "checkCircleCollision (player ?e2) ?pu
        (max (Spaceship.width (player ?e2)) (Spaceship.height (player ?e2)) / 2) (PowerUp.radius ?pu)"
  consider (out) ?out | (touch) "\<not> ?out" ?touch | (none) "\<not> ?out" "\<not> ?touch" by blast
  then show ?thesis
  proof cases
    case out
    then have "powerUpStep i dt e = Some ?rm"
      using assms(2) unfolding powerUpStep_def p0(1) option.case Let_def by auto
    then show ?thesis using wrm lrm by blast
  next
    case none
    then have "powerUpStep i dt e = Some ?e2"
      using assms(2) unfolding powerUpStep_def p0(1) option.case Let_def by auto
    moreover have "i \<le> length (powerUps ?e2)" using l2 by simp
    ultimately show ?thesis using w2 by blast
  next
    case touch
    have "\<exists>e3. (if \<not> collected ?pu then collectPowerUp ?e2 ?pu else Some ?e2) = Some e3
            \<and> wellFormed e3 \<and> powerUps e3 = powerUps ?e2"
      using collectPowerUp_ok[OF w2, of ?pu] w2 by (cases "collected ?pu") simp_all
    then obtain e3 where e3: "(if \<not> collected ?pu then collectPowerUp ?e2 ?pu else Some ?e2) = Some e3"
      "wellFormed e3" "powerUps e3 = powerUps ?e2" by blast
    have "\<forall>x\<in>set (powerUps e3). bodyOk x" using e3(2) unfolding wellFormed_def by blast
    then have "\<forall>x\<in>set (removeAt i (powerUps e3)). bodyOk x" by (rule all_removeAt)
    then have w': "wellFormed (e3\<lparr>powerUps := removeAt i (powerUps e3)\<rparr>)"
      using e3(2) by (rule wf_powerUps[rotated])
    have l': "i \<le> length (powerUps (e3\<lparr>powerUps := removeAt i (powerUps e3)\<rparr>))"
      using e3(3) assms(2) by (simp add: length_removeAt)
    have "powerUpStep i dt e =
        (case (if \<not> collected ?pu then collectPowerUp ?e2 ?pu else Some ?e2) of
            None \<Rightarrow> None
          | Some e3 \<Rightarrow> Some (e3\<lparr>powerUps := removeAt i (powerUps e3)\<rparr>))"
      using assms(2) touch unfolding powerUpStep_def p0(1) option.case Let_def by auto
    then have "powerUpStep i dt e = Some (e3\<lparr>powerUps := removeAt i (powerUps e3)\<rparr>)"
      unfolding e3(1) option.case .
    then show ?thesis using w' l' by blast
  qed
qed

lemma powerUpLoop_ok:
  assumes "wellFormed e" "n \<le> length (powerUps e)"
  shows "\<exists>e'. powerUpLoop n dt e = Some e' \<and> wellFormed e'"
  using assms
proof (induction n arbitrary: e)
  case 0
  then show ?case by simp
next
  case (Suc n)
  have "n < length (powerUps e)" using Suc.prems(2) by simp
  then obtain e1 where s: "powerUpStep n dt e = Some e1" "wellFormed e1"
     "n \<le> length (powerUps e1)"
    using powerUpStep_ok[OF Suc.prems(1), of n dt] by blast
  show ?case using s Suc.IH[OF s(2,3)] by simp
qed

lemma timers_ok:
  "wellFormed (updateWeaponTimer (updateComboTimer e dt) dt) = wellFormed e"
  by (rule wf_same)
     (simp_all add: updateWeaponTimer_def updateComboTimer_def resetCombo_def Let_def)

lemma pullAsteroid_ok: "astOk (pullAsteroid h dt a) = astOk a"
  by (simp add: pullAsteroid_def Let_def astOk_def bodyOk_def)

lemma pullProjectile_ok: "bodyOk (pullProjectile h dt p) = bodyOk p"
  by (simp add: pullProjectile_def Let_def bodyOk_def)

lemma updateBlackhole_ok:
  assumes "wellFormed e"
  shows "wellFormed (updateBlackhole i dt e)
       \<and> length (hazards (updateBlackhole i dt e)) = length (hazards e)"
  using assms
  by (simp add: updateBlackhole_def Let_def wellFormed_def pullAsteroid_ok pullProjectile_ok)

lemma updateNebula_ok:
  assumes "wellFormed e"
  shows "wellFormed (updateNebula i e) \<and> length (hazards (updateNebula i e)) = length (hazards e)"
  using assms by (simp add: updateNebula_def Let_def wellFormed_def bodyOk_def)

lemma updateMeteorShower_ok:
  assumes "wellFormed e"
  shows "wellFormed (updateMeteorShower i dt e)
       \<and> length (hazards (updateMeteorShower i dt e)) = length (hazards e)"
proof -
  let ?h2 = "(hazards e ! i)\<lparr>spawnTimer := 0\<rparr>"
  let ?r = "random e"
  obtain a r' where a: "new_Asteroid
      (vx (hazard.position ?h2) + (?r 0 - 0.5) * hazard.radius ?h2) (- 50) Small
      (Some \<lparr>vx = (rest ?r 0 - 0.5) * 100, vy = 200 + rest (rest ?r) 0 * 200\<rparr>)
      (rest (rest (rest ?r))) = (a, r')" by force
  have vr: "valid_random ?r" using assms by (simp add: wellFormed_def)
  have ok: "astOk a"
    using new_Asteroid_ok[of "vx (hazard.position ?h2) + (?r 0 - 0.5) * hazard.radius ?h2" "- 50" Small
      "Some \<lparr>vx = (rest ?r 0 - 0.5) * 100, vy = 200 + rest (rest ?r) 0 * 200\<rparr>" "rest (rest (rest ?r))"]
      a by simp
  have v': "valid_random r'"
    using new_Asteroid_valid[of "rest (rest (rest ?r))"
      "vx (hazard.position ?h2) + (?r 0 - 0.5) * hazard.radius ?h2" "- 50" Small
      "Some \<lparr>vx = (rest ?r 0 - 0.5) * 100, vy = 200 + rest (rest ?r) 0 * 200\<rparr>"] a vr
    by (simp add: valid_random_rest)
  show ?thesis
    using a assms ok v' by (simp add: updateMeteorShower_def Let_def wellFormed_def)
qed

lemma updateHazard_ok:
  assumes "wellFormed e"
  shows "wellFormed (updateHazard i dt e)
       \<and> length (hazards (updateHazard i dt e)) = length (hazards e)"
  using updateBlackhole_ok[OF assms] updateNebula_ok[OF assms] updateMeteorShower_ok[OF assms]
  by (simp add: updateHazard_def split: HazardType.splits)

lemma hazardStep_ok:
  assumes "wellFormed e" "i < length (hazards e)"
  shows "\<exists>e'. hazardStep i dt e = Some e' \<and> wellFormed e' \<and> i \<le> length (hazards e')"
proof -
  let ?h = "(hazards e ! i)\<lparr>hazard.timer := hazard.timer (hazards e ! i) + dt\<rparr>"
  let ?e1 = "e\<lparr>hazards := (hazards e)[i := ?h]\<rparr>"
  let ?rm = "?e1\<lparr>hazards := removeAt i (hazards ?e1)\<rparr>"
  have w1: "wellFormed ?e1" "wellFormed ?rm" using assms(1) by (simp_all add: wellFormed_def)
  have lrm: "i \<le> length (hazards ?rm)" using assms(2) by (simp add: length_removeAt)
  have u: "wellFormed (updateHazard i dt ?e1)" "i \<le> length (hazards (updateHazard i dt ?e1))"
    using updateHazard_ok[OF w1(1), of i dt] assms(2) by simp_all
  show ?thesis
  proof (cases "hazard.timer ?h \<ge> hazard.duration ?h \<or>
                (mode (config ?e1) = ''lane-shooter'' \<and> vy (hazard.position ?h) > height ?e1 + 150)")
    case True
    then have "hazardStep i dt e = Some ?rm"
      using assms(2) unfolding hazardStep_def Let_def by auto
    then show ?thesis using w1(2) lrm by blast
  next
    case False
    then have "hazardStep i dt e = Some (updateHazard i dt ?e1)"
      using assms(2) unfolding hazardStep_def Let_def by auto
    then show ?thesis using u by blast
  qed
qed

lemma hazardLoop_ok:
  assumes "wellFormed e" "n \<le> length (hazards e)"
  shows "\<exists>e'. hazardLoop n dt e = Some e' \<and> wellFormed e'"
  using assms
proof (induction n arbitrary: e)
  case 0
  then show ?case by simp
next
  case (Suc n)
  have "n < length (hazards e)" using Suc.prems(2) by simp
  then obtain e1 where s: "hazardStep n dt e = Some e1" "wellFormed e1"
     "n \<le> length (hazards e1)"
    using hazardStep_ok[OF Suc.prems(1), of n dt] by blast
  show ?case using s Suc.IH[OF s(2,3)] by simp
qed

lemma spawnX_valid:
  assumes "valid_random (random e)"
  shows "valid_random (snd (spawnX e))"
  using assms by (simp add: spawnX_def Let_def valid_random_rest)

lemma safetyShift_ok: "astOk (safetyShift e a) = astOk a"
  by (simp add: safetyShift_def Let_def astOk_def bodyOk_def)

lemma spawnAsteroid_ok:
  assumes "wellFormed e"
  shows "wellFormed (spawnAsteroid e)"
proof (cases "real (length (asteroids e)) \<ge> maxAsteroids (config e) \<or> bossSystem.active (bossSystem e)")
  case True
  then have "spawnAsteroid e = e" by (auto simp add: spawnAsteroid_def)
  then show ?thesis using assms by simp
next
  case False
  obtain x r2 where x: "spawnX e = (x, r2)" by force
  let ?sz = "pickSize (spawnWeights (wave e)) (r2 0) 0 Small"
  let ?r3 = "rest r2"
  let ?vel = "fromAngle (pi / 2 + (?r3 0 - 0.5) * 0.5)
               ((80 + rest ?r3 0 * 120) * (1 + difficultyMultiplier (config e) * 0.3))"
  obtain a r5 where a: "new_Asteroid x (- 50) ?sz (Some ?vel) (rest (rest ?r3)) = (a, r5)"
    by force
  let ?wf = "1 + (real_of_int (wave e) - 1) * 0.1"
  let ?a1 = "a\<lparr>Asteroid.health := Asteroid.health a * ?wf,
                   maxHealth := maxHealth a * ?wf,
                   Asteroid.damage := (sizeMap ?sz / 2) * ?wf,
                   angularVelocity := (r5 0 - 0.5) * 3\<rparr>"
  have eq: "spawnAsteroid e = e\<lparr>asteroids := asteroids e @ [safetyShift e ?a1], random := rest r5\<rparr>"
    using False unfolding spawnAsteroid_def Let_def x prod.case a by simp
  have vr: "valid_random (random e)" using assms by (simp add: wellFormed_def)
  have v2: "valid_random r2" using spawnX_valid[OF vr] x by simp
  have v5: "valid_random (rest r5)"
    using new_Asteroid_valid[of "rest (rest ?r3)" x "- 50" ?sz "Some ?vel"] a v2
    by (simp add: valid_random_rest)
  have "astOk a" using new_Asteroid_ok[of x "- 50" ?sz "Some ?vel" "rest (rest ?r3)"] a by simp
  then have "astOk ?a1" by (simp add: astOk_def bodyOk_def)
  then have ok: "astOk (safetyShift e ?a1)" using safetyShift_ok[of e ?a1] by simp
  have all: "\<forall>x\<in>set (asteroids e @ [safetyShift e ?a1]). astOk x"
    using assms ok by (simp add: wellFormed_def)
  show ?thesis unfolding eq using wf_random[OF wf_asteroids[OF assms all] v5] by simp
qed

lemma asteroidSpawnTick_ok:
  assumes "wellFormed e"
  shows "wellFormed (asteroidSpawnTick e dt)"
proof -
  let ?e1 = "e\<lparr>asteroidSpawnTimer := asteroidSpawnTimer e + dt\<rparr>"
  have 1: "wellFormed ?e1" "wellFormed (?e1\<lparr>asteroidSpawnTimer := 0\<rparr>)"
    using assms by (simp_all add: wellFormed_def)
  have "asteroidSpawnTick e dt = ?e1 \<or>
        asteroidSpawnTick e dt = spawnAsteroid (?e1\<lparr>asteroidSpawnTimer := 0\<rparr>)"
    unfolding asteroidSpawnTick_def Let_def by simp
  then show ?thesis using 1(1) spawnAsteroid_ok[OF 1(2)] by auto
qed

lemma spawnHazard_ok:
  assumes "wellFormed e"
  shows "\<exists>e'. spawnHazard e = Some e' \<and> wellFormed e'"
proof (cases "mode (config e) = ''lane-shooter''")
  case True
  then obtain hs where "spawnHazard e = Some (e\<lparr>hazards := hs\<rparr>)"
    unfolding spawnHazard_def by simp
  moreover have "wellFormed (e\<lparr>hazards := hs\<rparr>)" using assms by (simp add: wellFormed_def)
  ultimately show ?thesis by simp
next
  case False
  have vr: "valid_random (random e)" using assms by (simp add: wellFormed_def)
  have "0 \<le> \<lfloor>random e 0 * real (length hazardTypes)\<rfloor>
        \<and> \<lfloor>random e 0 * real (length hazardTypes)\<rfloor> < int (length hazardTypes)"
    using valid_random_index[OF vr, of "length hazardTypes"] by (simp add: hazardTypes_def)
  then obtain t where t: "at_index hazardTypes \<lfloor>random e 0 * real (length hazardTypes)\<rfloor> = Some t"
    by (simp add: at_index_def)
  obtain hs where "spawnHazard e = Some (e\<lparr>random := rest (rest (rest (rest (random e)))), hazards := hs\<rparr>)"
    unfolding spawnHazard_def Let_def t option.case using False by simp
  moreover have "wellFormed (e\<lparr>random := rest (rest (rest (rest (random e)))), hazards := hs\<rparr>)"
    using assms vr by (simp add: wellFormed_def valid_random_rest)
  ultimately show ?thesis by simp
qed

lemma hazardSpawnTick_ok:
  assumes "wellFormed e"
  shows "\<exists>e'. hazardSpawnTick e dt = Some e' \<and> wellFormed e'"
proof -
  let ?e1 = "e\<lparr>hazardSpawnTimer := hazardSpawnTimer e + dt\<rparr>"
  have 1: "wellFormed ?e1" "wellFormed (?e1\<lparr>hazardSpawnTimer := 0\<rparr>)"
    using assms by (simp_all add: wellFormed_def)
  have "hazardSpawnTick e dt = Some ?e1 \<or>
        hazardSpawnTick e dt = spawnHazard (?e1\<lparr>hazardSpawnTimer := 0\<rparr>)"
    unfolding hazardSpawnTick_def Let_def by simp
  then show ?thesis using 1(1) spawnHazard_ok[OF 1(2)] by auto
qed

lemma spawnBoss_ok:
  assumes "wellFormed e"
  shows "wellFormed (spawnBoss e)"
proof -
  obtain boss0 r1 where b: "new_Asteroid (width e / 2) (- 100) Huge (Some \<lparr>vx = 0, vy = 50\<rparr>)
     (random e) = (boss0, r1)" by force
  have vr: "valid_random (random e)" using assms by (simp add: wellFormed_def)
  have v1: "valid_random r1"
    using new_Asteroid_valid[OF vr, of "width e / 2" "- 100" Huge "Some \<lparr>vx = 0, vy = 50\<rparr>"] b by simp
  have "astOk boss0"
    using new_Asteroid_ok[of "width e / 2" "- 100" Huge "Some \<lparr>vx = 0, vy = 50\<rparr>" "random e"] b by simp
  then have ok: "\<And>hp. astOk (boss0\<lparr>isBoss := True, Asteroid.health := hp, maxHealth := hp,
                       Asteroid.color := ''#ff0055'', Asteroid.damage := 40,
                       scoreValue := Some 1000,
                       Asteroid.radius := Asteroid.radius boss0 * 1.5\<rparr>)"
    by (simp add: astOk_def bodyOk_def)
  show ?thesis
    unfolding spawnBoss_def Let_def b prod.case
    using assms v1 ok by (simp add: wellFormed_def)
qed

lemma waveProgression_ok:
  assumes "wellFormed e"
  shows "wellFormed (waveProgression e dt)"
proof -
  let ?e1 = "e\<lparr>waveTimer := waveTimer e + dt\<rparr>"
  let ?e2 = "?e1\<lparr>waveTimer := 0,
                        wave := wave ?e1 + 1,
                        config := (config ?e1)
                          \<lparr>asteroidSpawnRate :=
                             asteroidSpawnRate (config ?e1) * asteroidSpawnIncrease (config ?e1),
                           maxAsteroids := maxAsteroids (config ?e1) + 2,
                           difficultyMultiplier := difficultyMultiplier (config ?e1) + 0.1\<rparr>\<rparr>"
  have 1: "wellFormed ?e1" "wellFormed ?e2" using assms by (simp_all add: wellFormed_def)
  have "waveProgression e dt = ?e1 \<or> waveProgression e dt = ?e2
        \<or> waveProgression e dt = spawnBoss ?e2"
    unfolding waveProgression_def Let_def by simp
  then show ?thesis using 1 spawnBoss_ok[OF 1(2)] by auto
qed

lemma updateRest_ok:
  assumes "wellFormed e"
  shows "\<exists>e'. updateRest e dt = Some e' \<and> wellFormed e'"
proof -
  obtain e1 where 1: "projectileLoop (length (projectiles e)) dt e = Some e1" "wellFormed e1"
    using projectileLoop_ok[OF assms, of "length (projectiles e)"] by auto
  obtain e2 where 2: "powerUpLoop (length (powerUps e1)) dt e1 = Some e2" "wellFormed e2"
    using powerUpLoop_ok[OF 1(2), of "length (powerUps e1)"] by auto
  let ?e3 = "updateWeaponTimer (updateComboTimer e2 dt) dt"
  have w3: "wellFormed ?e3" using timers_ok[of e2 dt] 2(2) by simp
  obtain e4 where 4: "hazardLoop (length (hazards ?e3)) dt ?e3 = Some e4" "wellFormed e4"
    using hazardLoop_ok[OF w3, of "length (hazards ?e3)"] by auto
  obtain e5 where 5: "hazardSpawnTick (asteroidSpawnTick e4 dt) dt = Some e5" "wellFormed e5"
    using hazardSpawnTick_ok[OF asteroidSpawnTick_ok[OF 4(2)]] by blast
  have "updateRest e dt = Some (waveProgression e5 dt)"
    unfolding updateRest_def 1(1) option.case 2(1) Let_def 4(1) 5(1) by (rule refl)
  then show ?thesis using waveProgression_ok[OF 5(2)] by simp
qed


lemma new_Projectile_ok:
  "bodyOk (fst (new_Projectile pos vel ang dmg col r))
   \<and> (valid_random r \<longrightarrow> valid_random (snd (new_Projectile pos vel ang dmg col r)))"
  by (simp add: new_Projectile_def new_PhysicsBody_def PhysicsBody.extend_def bodyOk_def
      valid_random_rest)

lemma wf_fired:
  assumes "wellFormed e" "new_Projectile pos vel ang dmg col (random e) = (proj, r)"
    "linearDamping q = linearDamping proj" "angularDamping q = angularDamping proj"
  shows "wellFormed (e\<lparr>projectiles := projectiles e @ [q], random := r\<rparr>)"
proof -
  have vr: "valid_random (random e)" using assms(1) by (simp add: wellFormed_def)
  have "bodyOk proj" "valid_random r"
    using new_Projectile_ok[of pos vel ang dmg col "random e"] assms(2) vr by simp_all
  then have "bodyOk q" "valid_random r" using assms(3,4) by (simp_all add: bodyOk_def)
  then show ?thesis using assms(1) by (simp add: wellFormed_def)
qed

lemma shotgunLoop_ok:
  assumes "wellFormed e"
  shows "wellFormed (shotgunLoop d w bd n i e)"
  using assms
proof (induction n arbitrary: i e)
  case 0
  then show ?case by simp
next
  case (Suc n)
  let ?off = "(real i - real_of_int \<lfloor>real (spread w) / 2\<rfloor>) * 0.15"
  obtain proj r where p: "new_Projectile (pd_position d)
       (fromAngle (pd_angle d + ?off) (weapon.projectileSpeed w)) (pd_angle d + ?off) bd
       ''#00f0ff'' (random e) = (proj, r)" by force
  let ?e1 = "e\<lparr>projectiles := projectiles e @ [proj\<lparr>Projectile.color := weapon.color w\<rparr>],
               random := r\<rparr>"
  have eq: "shotgunLoop d w bd (Suc n) i e = shotgunLoop d w bd n (Suc i) ?e1"
    unfolding shotgunLoop.simps Let_def p prod.case by (rule refl)
  have "wellFormed ?e1" using wf_fired[OF Suc.prems p] by simp
  then show ?case unfolding eq using Suc.IH[of ?e1 "Suc i"] by blast
qed

lemma fire_ok: "bodyOk (fst (fire s)) = bodyOk s"
  by (simp add: fire_def Let_def bodyOk_def)

lemma playerFire_ok:
  assumes "wellFormed e"
  shows "wellFormed (playerFire e)"
proof -
  let ?w = "weapons_table (currentWeapon (weaponSystem e))"
  let ?p1 = "(player e)\<lparr>weapons := (weapons (player e))\<lparr>weapons.fireRate := weapon.fireRate ?w\<rparr>\<rparr>"
  obtain p2 pd where f: "fire ?p1 = (p2, pd)" by force
  let ?e1 = "e\<lparr>player := p2\<rparr>"
  have "bodyOk (player e)" using assms by (simp add: wellFormed_def)
  then have "bodyOk ?p1" by (simp add: bodyOk_def)
  then have "bodyOk p2" using fire_ok[of ?p1] f by simp
  then have w1: "wellFormed ?e1" using assms by (rule wf_player[rotated])
  show ?thesis
  proof (cases pd)
    case None
    then have "playerFire e = ?e1"
      unfolding playerFire_def Let_def f prod.case by simp
    then show ?thesis using w1 by simp
  next
    case (Some d)
    let ?bd = "weapon.damage ?w
                 * (1 + real_of_int (upgrades.damage (upgrades (upgradeSystem ?e1))) * 0.1)"
    obtain proj r where p: "new_Projectile (pd_position d) (pd_velocity d) (pd_angle d) ?bd
                     ''#00f0ff'' (random ?e1) = (proj, r)" by force
    let ?proj1 = "proj\<lparr>Projectile.color := weapon.color ?w\<rparr>"
    have a: "wellFormed (?e1\<lparr>projectiles := projectiles ?e1 @ [?proj1], random := r\<rparr>)"
      using wf_fired[OF w1 p] by simp
    have b: "wellFormed (?e1\<lparr>projectiles := projectiles ?e1
                           @ [?proj1\<lparr>Projectile.width := 3, Projectile.height := Some 40\<rparr>],
                       random := r\<rparr>)"
      using wf_fired[OF w1 p] by simp
    have c: "wellFormed (?e1\<lparr>projectiles := projectiles ?e1
                           @ [?proj1\<lparr>Projectile.homing := True, homingStrength := 2.5,
                                    Projectile.width := 8, Projectile.height := Some 16\<rparr>],
                       random := r\<rparr>)"
      using wf_fired[OF w1 p] by simp
    have d: "wellFormed (shotgunLoop d ?w ?bd (spread ?w) 0 ?e1)"
      using shotgunLoop_ok[OF w1] .
    show ?thesis
      unfolding playerFire_def Let_def f prod.case Some option.case p
      using a b c d by (cases "currentWeapon (weaponSystem e)") simp_all
  qed
qed

lemma laneVelocity_ok:
  assumes "wellFormed e"
  shows "wellFormed (laneVelocity e dt)"
proof -
  obtain lm v where "laneVelocity e dt =
     e\<lparr>laneMovement := lm, player := (player e)\<lparr>velocity := (velocity (player e))\<lparr>vx := v\<rparr>\<rparr>\<rparr>"
    using laneVelocity_shape by blast
  then show ?thesis using assms by (simp add: wellFormed_def bodyOk_def)
qed

lemma fireAndShield_ok:
  assumes "wellFormed e"
  shows "wellFormed (fireAndShield e)"
proof -
  let ?e1 = "if keys e '' '' \<or> down (mouse e) then playerFire e else e"
  have 1: "wellFormed ?e1" using playerFire_ok[OF assms] assms by simp
  have "bodyOk (player ?e1)" using 1 unfolding wellFormed_def by blast
  then have "bodyOk (activateShield (player ?e1))" "bodyOk (deactivateShield (player ?e1))"
    by (simp_all add: bodyOk_def activateShield_def deactivateShield_def)
  then have "wellFormed (?e1\<lparr>player := activateShield (player ?e1)\<rparr>)"
    "wellFormed (?e1\<lparr>player := deactivateShield (player ?e1)\<rparr>)"
    using wf_player[OF 1] by blast+
  then show ?thesis unfolding fireAndShield_def Let_def by presburger
qed

lemma laneLocks_ok:
  assumes "wellFormed e"
  shows "wellFormed (laneLocks e)"
proof -
  have "bodyOk (player (laneLocks e))"
    using assms by (simp add: laneLocks_def Let_def wellFormed_def bodyOk_def split: option.splits)
  moreover have "laneLocks e = e\<lparr>player := player (laneLocks e)\<rparr>"
    by (simp add: laneLocks_def Let_def)
  ultimately show ?thesis using wf_player[OF assms] by metis
qed

lemma spaceSimInput_ok:
  assumes "wellFormed e"
  shows "wellFormed (spaceSimInput e dt)"
proof -
  have b: "bodyOk (player e)" using assms by (simp add: wellFormed_def)
  have t: "\<And>s d. bodyOk (thrust s d) = bodyOk s" "\<And>s d. bodyOk (brake s d) = bodyOk s"
    "\<And>s k d. bodyOk (strafe s k d) = bodyOk s" "\<And>(s::Spaceship) v. bodyOk (lookAt s v) = bodyOk s"
    by (simp_all add: thrust_def brake_def strafe_def lookAt_def applyForce_def Let_def bodyOk_def)
  let ?p = "player e"
  let ?p1 = "if keys e ''w'' \<or> keys e ''arrowup'' then thrust ?p dt else ?p"
  let ?p2 = "if keys e ''s'' \<or> keys e ''arrowdown'' then brake ?p1 dt else ?p1"
  let ?p3 = "if keys e ''a'' \<or> keys e ''arrowleft'' then strafe ?p2 (- 1) dt else ?p2"
  let ?p4 = "if keys e ''d'' \<or> keys e ''arrowright'' then strafe ?p3 1 dt else ?p3"
  let ?p5 = "if keys e ''r''
                then lookAt ?p4 \<lparr>vx = mouse_x (mouse e), vy = mouse_y (mouse e)\<rparr> else ?p4"
  have 1: "bodyOk ?p1" using b t(1) by simp
  have 2: "bodyOk ?p2" using 1 t(2)[of ?p1 dt] by presburger
  have 3: "bodyOk ?p3" using 2 t(3)[of ?p2 "- 1" dt] by presburger
  have 4: "bodyOk ?p4" using 3 t(3)[of ?p3 1 dt] by presburger
  have 5: "bodyOk ?p5"
    using 4 t(4)[of ?p4 "\<lparr>vx = mouse_x (mouse e), vy = mouse_y (mouse e)\<rparr>"] by presburger
  have "spaceSimInput e dt = fireAndShield (e\<lparr>player := ?p5\<rparr>)"
    unfolding spaceSimInput_def Let_def by (rule refl)
  then show ?thesis using fireAndShield_ok[OF wf_player[OF assms 5]] by simp
qed

lemma handleInput_ok:
  assumes "wellFormed e"
  shows "wellFormed (handleInput e dt)"
  unfolding handleInput_def
  using assms laneLocks_ok[OF fireAndShield_ok[OF laneVelocity_ok[OF assms, of dt]]]
    spaceSimInput_ok[OF assms, of dt] by simp

lemma laneClamp_ok:
  assumes "wellFormed e"
  shows "wellFormed (laneClamp e)"
proof -
  have "bodyOk (player (laneClamp e))"
    using assms by (simp add: laneClamp_def Let_def wellFormed_def bodyOk_def)
  moreover have "laneClamp e = e\<lparr>player := player (laneClamp e)\<rparr>"
    by (simp add: laneClamp_def Let_def)
  ultimately show ?thesis using wf_player[OF assms] by metis
qed

lemma bounceOffBounds_ok: "bodyOk (bounceOffBounds b w h bw bh k) = bodyOk b"
  by (simp add: bounceOffBounds_def Let_def bodyOk_def)

lemma updatePlayer_ok:
  assumes "wellFormed e"
  shows "\<exists>e'. updatePlayer e dt = Some e' \<and> wellFormed e'"
proof -
  have b: "0 < linearDamping (player e)" "0 < angularDamping (player e)"
    using assms by (simp_all add: wellFormed_def bodyOk_def)
  obtain p where p: "Spaceship_update (player e) dt = Some p" "bodyOk p"
    using Spaceship_update_invulnerability[OF b, of dt] b by (auto simp add: bodyOk_def)
  let ?e1 = "e\<lparr>player := p\<rparr>"
  have w1: "wellFormed ?e1" using assms p(2) by (rule wf_player)
  have a: "wellFormed (laneClamp ?e1)" using laneClamp_ok[OF w1] .
  have "bodyOk (bounceOffBounds p (Spaceship.width p) (Spaceship.height p) (width ?e1) (height ?e1) 0.5)"
    using p(2) bounceOffBounds_ok by blast
  then have c: "wellFormed (?e1\<lparr>player :=
       bounceOffBounds p (Spaceship.width p) (Spaceship.height p) (width ?e1) (height ?e1) 0.5\<rparr>)"
    using w1 by (rule wf_player[rotated])
  show ?thesis
    unfolding updatePlayer_def p(1) option.case Let_def
    using a c by (cases "mode (config ?e1) = ''lane-shooter''") simp_all
qed

lemma update_ok:
  assumes "wellFormed e"
  shows "\<exists>e'. GameEngine_update e dt = Some e' \<and> wellFormed e'"
proof (cases "state e = Playing")
  case False
  then show ?thesis using assms by (simp add: GameEngine_update_def)
next
  case True
  let ?dt = "min dt 0.1"
  let ?e1 = "e\<lparr>time := time e + ?dt\<rparr>"
  let ?e2 = "handleInput ?e1 ?dt"
  have w1: "wellFormed ?e1" using assms by (simp add: wellFormed_def)
  have w2: "wellFormed ?e2" using handleInput_ok[OF w1] .
  obtain e3 where 3: "updatePlayer ?e2 ?dt = Some e3" "wellFormed e3"
    using updatePlayer_ok[OF w2] by blast
  show ?thesis
  proof (cases "isDestroyed (player e3)")
    case d: True
    then have "GameEngine_update e dt = Some (gameOver e3)"
      using True unfolding GameEngine_update_def Let_def 3(1) option.case by simp
    then show ?thesis using wf_gameOver[of e3] 3(2) by simp
  next
    case d: False
    obtain e4 returned where 4: "asteroidLoop (length (asteroids e3)) ?dt e3 = Some (e4, returned)"
      "wellFormed e4"
      using asteroidLoop_ok[OF 3(2), of "length (asteroids e3)" ?dt] by auto
    obtain e5 where 5: "updateRest e4 ?dt = Some e5" "wellFormed e5"
      using updateRest_ok[OF 4(2)] by blast
    have "GameEngine_update e dt = (if returned then Some e4 else updateRest e4 ?dt)"
      using True d unfolding GameEngine_update_def Let_def 3(1) option.case 4(1) prod.case by simp
    then show ?thesis using 4(2) 5 by (cases returned) simp_all
  qed
qed

lemma updates_ok:
  assumes "wellFormed e"
  shows "\<exists>e'. updates e dts = Some e' \<and> wellFormed e'"
  using assms
proof (induction dts arbitrary: e)
  case Nil
  then show ?case by simp
next
  case (Cons dt dts)
  obtain e1 where e1: "GameEngine_update e dt = Some e1" "wellFormed e1"
    using update_ok[OF Cons.prems] by blast
  show ?case using Cons.IH[OF e1(2)] e1(1) by simp
qed

section \<open>The combo timer\<close>










end
